(* ===== verification/Prelude.thy ===== *)
theory Prelude
  imports Complex_Main "HOL-Library.AList" "HOL-Library.Product_Lexorder" "HOL-Library.Sublist"
    "HOL-Library.Multiset"
begin

text \<open>
  What the components share: the Python values and exceptions the models mention, Python's
  insertion-ordered dictionaries as association lists with distinct keys, slices with Python's
  treatment of zero and negative bounds, bounded deques, and the string operations of the
  standard library that the code calls.

  Numbers of type \<^typ>\<open>rat\<close> stand for Python floats and for time stamps in seconds: every finite
  float is such a number, and the rounding of float arithmetic is not modelled. Strings are lists
  of \<^typ>\<open>char\<close>, so code points above 255 are outside the model, and case conversion is
  that of ASCII.
\<close>

named_theorems py_simps \<open>unfolding rules of the Python primitives\<close>

type_synonym time = rat

datatype exn =
    ValueError
  | TypeError
  | KeyError
  | RuntimeError
  | NotImplementedError
  | NotFoundError
  | ConflictError
  | UnauthorizedError
  | ForbiddenError
  | ValidationFailedError
  | ServiceUnavailableError
  | HTTPException nat
  | OtherException string

datatype pyval =
    PNone
  | PBool bool
  | PInt int
  | PFloat rat
  | PStr string
  | PList "pyval list"
  | PDict "(string \<times> pyval) list"

text \<open>
  Python's \<open>==\<close> on these values: numbers and booleans by numeric value, lists element by
  element, dictionaries by their keys and values in any order.
\<close>

definition py_num :: "pyval \<Rightarrow> rat option" where
  "py_num v = (case v of PBool b \<Rightarrow> Some (if b then 1 else 0) | PInt i \<Rightarrow> Some (of_int i)
     | PFloat r \<Rightarrow> Some r | _ \<Rightarrow> None)"

fun py_eq :: "pyval \<Rightarrow> pyval \<Rightarrow> bool"
  and py_eq_list :: "pyval list \<Rightarrow> pyval list \<Rightarrow> bool"
  and py_eq_items :: "(string \<times> pyval) list \<Rightarrow> (string \<times> pyval) list \<Rightarrow> bool" where
  "py_eq (PList xs) w = (case w of PList ys \<Rightarrow> py_eq_list xs ys | _ \<Rightarrow> False)"
| "py_eq (PDict d) w = (case w of PDict e \<Rightarrow> length d = length e \<and> py_eq_items d e | _ \<Rightarrow> False)"
| "py_eq (PStr s) w = (w = PStr s)"
| "py_eq PNone w = (w = PNone)"
| "py_eq v w = (py_num v = py_num w)"
| "py_eq_list [] ys = (ys = [])"
| "py_eq_list (x # xs) ys = (case ys of [] \<Rightarrow> False | y # ys' \<Rightarrow> py_eq x y \<and> py_eq_list xs ys')"
| "py_eq_items [] e = True"
| "py_eq_items ((k, v) # d) e =
     ((case map_of e k of None \<Rightarrow> False | Some w \<Rightarrow> py_eq v w) \<and> py_eq_items d e)"

section \<open>Dictionaries\<close>

type_synonym ('k, 'v) dict = "('k \<times> 'v) list"

definition dict_wf :: "('k, 'v) dict \<Rightarrow> bool" where
  "dict_wf d \<longleftrightarrow> distinct (map fst d)"

definition dict_get :: "('k, 'v) dict \<Rightarrow> 'k \<Rightarrow> 'v option" where
  "dict_get d k = map_of d k"

definition dict_put :: "'k \<Rightarrow> 'v \<Rightarrow> ('k, 'v) dict \<Rightarrow> ('k, 'v) dict" where
  "dict_put k v d = AList.update k v d"

definition dict_del :: "'k \<Rightarrow> ('k, 'v) dict \<Rightarrow> ('k, 'v) dict" where
  "dict_del k d = AList.delete k d"

abbreviation dict_keys :: "('k, 'v) dict \<Rightarrow> 'k list" where
  "dict_keys d \<equiv> map fst d"

abbreviation dict_values :: "('k, 'v) dict \<Rightarrow> 'v list" where
  "dict_values d \<equiv> map snd d"

text \<open>A mutation of the object stored under a key, which every reader of the dictionary sees.\<close>

definition dict_mut :: "'k \<Rightarrow> ('v \<Rightarrow> 'v) \<Rightarrow> ('k, 'v) dict \<Rightarrow> ('k, 'v) dict" where
  "dict_mut k f d = map (\<lambda>(k', v). (k', if k' = k then f v else v)) d"

lemma dict_get_Nil [simp]: "dict_get [] k = None"
  by (simp add: dict_get_def)

lemma dict_get_Cons [simp]:
  "dict_get ((k', v) # d) k = (if k = k' then Some v else dict_get d k)"
  by (simp add: dict_get_def)

lemma dict_empty_iff: "d = [] \<longleftrightarrow> (\<forall>k. dict_get d k = None)"
  by (cases d) auto

lemma dict_get_put [simp]:
  "dict_get (dict_put k v d) k' = (if k' = k then Some v else dict_get d k')"
  by (simp add: dict_get_def dict_put_def update_conv')

lemma dict_get_del [simp]:
  "dict_get (dict_del k d) k' = (if k' = k then None else dict_get d k')"
  by (simp add: dict_get_def dict_del_def delete_conv')

lemma dict_get_mut [simp]:
  "dict_get (dict_mut k f d) k' =
     (if k' = k then map_option f (dict_get d k) else dict_get d k')"
  by (induction d) (auto simp: dict_mut_def)

lemma dict_keys_mut [simp]: "dict_keys (dict_mut k f d) = dict_keys d"
  by (induction d) (auto simp: dict_mut_def)

lemma dict_wf_Nil [simp, intro]: "dict_wf []"
  by (simp add: dict_wf_def)

lemma dict_wf_put [simp, intro]: "dict_wf d \<Longrightarrow> dict_wf (dict_put k v d)"
  by (simp add: dict_wf_def dict_put_def distinct_update)

lemma dict_wf_del [simp, intro]: "dict_wf d \<Longrightarrow> dict_wf (dict_del k d)"
  by (simp add: dict_wf_def dict_del_def distinct_delete)

lemma dict_wf_mut [simp]: "dict_wf (dict_mut k f d) = dict_wf d"
  by (simp add: dict_wf_def)

lemma dict_wf_filter [intro]: "dict_wf d \<Longrightarrow> dict_wf (filter P d)"
  by (simp add: dict_wf_def distinct_map_filter)

lemma dict_in_keys: "k \<in> set (dict_keys d) \<longleftrightarrow> dict_get d k \<noteq> None"
  by (force simp: dict_get_def map_of_eq_None_iff)

lemma dict_mem_get: "dict_wf d \<Longrightarrow> (k, v) \<in> set d \<longleftrightarrow> dict_get d k = Some v"
  by (simp add: dict_wf_def dict_get_def)

lemma dict_get_mem: "dict_get d k = Some v \<Longrightarrow> (k, v) \<in> set d"
  by (simp add: dict_get_def map_of_SomeD)

lemma dict_get_filter:
  "dict_wf d \<Longrightarrow> dict_get (filter P d) k =
     (case dict_get d k of None \<Rightarrow> None | Some v \<Rightarrow> if P (k, v) then Some v else None)"
proof (induction d)
  case Nil
  then show ?case by simp
next
  case (Cons p d)
  obtain k' v where p: "p = (k', v)" by fastforce
  from Cons.prems have wf: "dict_wf d" and fresh: "k' \<notin> set (dict_keys d)"
    by (auto simp: dict_wf_def p)
  from fresh have "dict_get d k' = None" by (simp add: dict_get_def map_of_eq_None_iff)
  with Cons.IH [OF wf] show ?case by (auto simp: p split: option.splits)
qed

lemma set_dict_put: "dict_wf d \<Longrightarrow> set (dict_put k v d) = insert (k, v) {p \<in> set d. fst p \<noteq> k}"
  by (induction d) (force simp: dict_put_def dict_wf_def)+

lemma set_dict_del: "set (dict_del k d) = {p \<in> set d. fst p \<noteq> k}"
  by (induction d) (auto simp: dict_del_def)

lemma length_dict_put:
  "length (dict_put k v d) = (if dict_get d k = None then Suc (length d) else length d)"
  by (induction d) (auto simp: dict_put_def)

lemma dict_put_put [simp]: "dict_put k v (dict_put k w d) = dict_put k v d"
  by (induction d) (auto simp: dict_put_def)

lemma dict_put_same [simp]: "dict_get d k = Some v \<Longrightarrow> dict_put k v d = d"
  by (induction d) (auto simp: dict_put_def split: if_splits)

lemma dict_del_put_absent: "dict_get d k = None \<Longrightarrow> dict_del k (dict_put k v d) = d"
  by (induction d) (auto simp: dict_put_def dict_del_def split: if_splits)

lemma dict_del_put [simp]: "dict_del k (dict_put k v d) = dict_del k d"
  by (induction d) (auto simp: dict_put_def dict_del_def)

lemma dict_del_absent: "dict_get d k = None \<Longrightarrow> dict_del k d = d"
  by (induction d) (auto simp: dict_del_def split: if_splits)

lemma dict_put_absent: "dict_get d k = None \<Longrightarrow> dict_put k v d = d @ [(k, v)]"
  by (induction d) (auto simp: dict_put_def split: if_splits)

lemma dict_put_present:
  "dict_wf d \<Longrightarrow> dict_get d k = Some u \<Longrightarrow> dict_put k v d = dict_mut k (\<lambda>_. v) d"
proof (induction d)
  case Nil
  then show ?case by simp
next
  case (Cons p d)
  obtain k' w where p: "p = (k', w)" by fastforce
  from Cons.prems have wf: "dict_wf d" and fresh: "k' \<notin> set (dict_keys d)"
    by (auto simp: dict_wf_def p)
  show ?case
  proof (cases "k' = k")
    case True
    with fresh have "dict_mut k (\<lambda>_. v) d = d"
      by (force simp: dict_mut_def intro: map_idI)
    with True show ?thesis by (simp add: p dict_put_def dict_mut_def)
  next
    case False
    with Cons.IH [OF wf] Cons.prems(2) show ?thesis
      by (simp add: p dict_put_def dict_mut_def)
  qed
qed

text \<open>The interface the components use of a dictionary, and what its clients derive from it.\<close>

locale kv_map =
  fixes empty :: "'m"
    and get :: "'m \<Rightarrow> 'k \<Rightarrow> 'v option"
    and put :: "'k \<Rightarrow> 'v \<Rightarrow> 'm \<Rightarrow> 'm"
    and del :: "'k \<Rightarrow> 'm \<Rightarrow> 'm"
    and keys :: "'m \<Rightarrow> 'k list"
    and wf :: "'m \<Rightarrow> bool"
  assumes get_empty: "get empty k = None"
    and get_put: "get (put k v m) k' = (if k' = k then Some v else get m k')"
    and get_del: "get (del k m) k' = (if k' = k then None else get m k')"
    and keys_get: "k \<in> set (keys m) \<longleftrightarrow> get m k \<noteq> None"
    and keys_distinct: "wf m \<Longrightarrow> distinct (keys m)"
    and wf_empty: "wf empty"
    and wf_put: "wf m \<Longrightarrow> wf (put k v m)"
    and wf_del: "wf m \<Longrightarrow> wf (del k m)"
begin

lemma get_del_put: "get (del k (put k v m)) k' = (if k' = k then None else get m k')"
  by (simp add: get_put get_del)

lemma get_puts:
  "get (fold (\<lambda>(k, v). put k v) kvs m) k' =
     (case map_of (rev kvs) k' of None \<Rightarrow> get m k' | Some v \<Rightarrow> Some v)"
  by (induction kvs arbitrary: m) (auto simp: get_put map_add_def split: option.splits)

lemma wf_puts: "wf m \<Longrightarrow> wf (fold (\<lambda>(k, v). put k v) kvs m)"
  by (induction kvs arbitrary: m) (auto intro: wf_put)

lemma get_dels: "get (fold del ks m) k' = (if k' \<in> set ks then None else get m k')"
  by (induction ks arbitrary: m) (auto simp: get_del)

lemma wf_dels: "wf m \<Longrightarrow> wf (fold del ks m)"
  by (induction ks arbitrary: m) (auto intro: wf_del)

lemma keys_dels: "set (keys (fold del ks m)) = set (keys m) - set ks"
  by (auto simp: keys_get get_dels split: if_splits)

end

interpretation pydict: kv_map "[]" dict_get dict_put dict_del dict_keys dict_wf
  by unfold_locales (simp_all add: dict_in_keys del: set_map, simp_all add: dict_wf_def)

section \<open>Slices and bounded deques\<close>

text \<open>\<open>xs[-n:]\<close>: a zero bound is the start of the list, so \<open>xs[-0:]\<close> is all of it.\<close>

definition py_last :: "int \<Rightarrow> 'a list \<Rightarrow> 'a list" where
  "py_last n xs = (if 0 < n then drop (length xs - nat n) xs else drop (nat (- n)) xs)"

text \<open>\<open>xs[:n]\<close>: a negative bound counts from the end.\<close>

definition py_first :: "int \<Rightarrow> 'a list \<Rightarrow> 'a list" where
  "py_first n xs = (if 0 \<le> n then take (nat n) xs else take (length xs - nat (- n)) xs)"

lemma length_py_last: "0 < n \<Longrightarrow> length (py_last n xs) = min (nat n) (length xs)"
  by (auto simp: py_last_def)

lemma py_last_zero [simp]: "py_last 0 xs = xs"
  by (simp add: py_last_def)

lemma set_py_last: "set (py_last n xs) \<subseteq> set xs"
  by (auto simp: py_last_def dest: in_set_dropD)

lemma length_py_first: "0 \<le> n \<Longrightarrow> length (py_first n xs) = min (nat n) (length xs)"
  by (simp add: py_first_def)

lemma set_py_first: "set (py_first n xs) \<subseteq> set xs"
  by (auto simp: py_first_def dest: in_set_takeD)

text \<open>\<open>deque(maxlen=n).append\<close> discards from the left once the deque is full.\<close>

definition deque_append :: "nat \<Rightarrow> 'a list \<Rightarrow> 'a \<Rightarrow> 'a list" where
  "deque_append n xs x = (let ys = xs @ [x] in drop (length ys - n) ys)"

lemma length_deque_append: "length (deque_append n xs x) = min n (Suc (length xs))"
  by (simp add: deque_append_def)

lemma deque_append_below: "length xs < n \<Longrightarrow> deque_append n xs x = xs @ [x]"
  by (simp add: deque_append_def)

lemma suffix_deque_append: "suffix (deque_append n xs x) (xs @ [x])"
  unfolding deque_append_def Let_def by (rule suffix_drop)

lemma set_deque_append: "set (deque_append n xs x) \<subseteq> insert x (set xs)"
  using set_mono_suffix [OF suffix_deque_append] by fastforce

lemma last_deque_append: "0 < n \<Longrightarrow> last (deque_append n xs x) = x"
  by (simp add: deque_append_def Suc_diff_le)

lemma distinct_submset:
  assumes "distinct xs" and "mset ys \<subseteq># mset xs"
  shows "distinct ys"
proof -
  have xs: "count (mset xs) a \<le> 1" for a
    using assms(1) by (cases "a \<in> set xs") (simp_all add: distinct_count_atmost_1 count_mset_0_iff)
  have "count (mset ys) a \<le> 1" for a
    using mset_subset_eq_count [OF assms(2), of a] xs [of a] by simp
  moreover have "count (mset ys) a \<noteq> 0" if "a \<in> set ys" for a
    using that by simp
  ultimately have "count (mset ys) a = (if a \<in> set ys then 1 else 0)" for a
    by (metis One_nat_def count_mset_0_iff le_Suc_eq le_zero_eq)
  then show ?thesis by (simp add: distinct_count_atmost_1)
qed

section \<open>Strings\<close>

text \<open>The operator \<open>x in s\<close> on strings.\<close>

fun py_in :: "string \<Rightarrow> string \<Rightarrow> bool" where
  "py_in x [] = (x = [])"
| "py_in x (c # s) = (prefix x (c # s) \<or> py_in x s)"

lemma py_in_sublist: "py_in x s \<longleftrightarrow> sublist x s"
  by (induction s) (auto simp: sublist_Cons_right)

lemma py_in_infix [simp, intro]: "py_in x (pre @ x @ post)"
  by (auto simp: py_in_sublist)

lemma py_in_append: "py_in x s \<Longrightarrow> py_in x (pre @ s @ post)"
  by (auto simp: py_in_sublist intro: sublist_order.order_trans)

definition py_lower_char :: "char \<Rightarrow> char" where
  "py_lower_char c =
     (let n = of_char c :: nat in if 65 \<le> n \<and> n \<le> 90 then char_of (n + 32) else c)"

definition py_upper_char :: "char \<Rightarrow> char" where
  "py_upper_char c =
     (let n = of_char c :: nat in if 97 \<le> n \<and> n \<le> 122 then char_of (n - 32) else c)"

definition py_lower :: "string \<Rightarrow> string" where
  "py_lower s = map py_lower_char s"

definition py_upper :: "string \<Rightarrow> string" where
  "py_upper s = map py_upper_char s"

lemma length_py_lower [simp]: "length (py_lower s) = length s"
  by (simp add: py_lower_def)

text \<open>The white space of \<open>str.strip\<close> and \<open>str.split\<close>.\<close>

definition py_space :: "char \<Rightarrow> bool" where
  "py_space c = (let n = of_char c :: nat in n = 32 \<or> (9 \<le> n \<and> n \<le> 13) \<or> (28 \<le> n \<and> n \<le> 31) \<or> n = 133 \<or> n = 160)"

definition py_lstrip :: "string \<Rightarrow> string" where
  "py_lstrip s = dropWhile py_space s"

definition py_rstrip :: "string \<Rightarrow> string" where
  "py_rstrip s = rev (dropWhile py_space (rev s))"

definition py_strip :: "string \<Rightarrow> string" where
  "py_strip s = py_rstrip (py_lstrip s)"

lemma length_py_strip: "length (py_strip s) \<le> length s"
  unfolding py_strip_def py_lstrip_def py_rstrip_def
  by (metis length_dropWhile_le length_rev order_trans)

lemma set_py_strip: "set (py_strip s) \<subseteq> set s"
  by (auto simp: py_strip_def py_lstrip_def py_rstrip_def dest!: set_dropWhileD)

lemma py_rstrip_Nil_iff: "py_rstrip s = [] \<longleftrightarrow> list_all py_space s"
  by (simp add: py_rstrip_def list_all_iff)

lemma py_strip_Nil_iff: "py_strip s = [] \<longleftrightarrow> list_all py_space s"
proof -
  have "py_strip s = [] \<longleftrightarrow> list_all py_space (dropWhile py_space s)"
    by (simp add: py_strip_def py_rstrip_Nil_iff py_lstrip_def)
  also have "\<dots> \<longleftrightarrow> list_all py_space s"
    by (induction s) (auto simp: list_all_iff)
  finally show ?thesis .
qed

text \<open>\<open>str.partition\<close> on a one-character separator: head, whether it was found, tail.\<close>

definition py_partition :: "char \<Rightarrow> string \<Rightarrow> string \<times> bool \<times> string" where
  "py_partition c s =
     (let h = takeWhile (\<lambda>x. x \<noteq> c) s; r = dropWhile (\<lambda>x. x \<noteq> c) s in (h, r \<noteq> [], tl r))"

section \<open>Integers as text\<close>

definition is_digit :: "char \<Rightarrow> bool" where
  "is_digit c = (let n = of_char c :: nat in 48 \<le> n \<and> n \<le> 57)"

definition digit_val :: "char \<Rightarrow> nat" where
  "digit_val c = of_char c - 48"

text \<open>
  \<open>int(s)\<close>: surrounding white space, one sign, digits with single underscores between them;
  anything else is \<open>ValueError\<close>, here \<^const>\<open>None\<close>.
\<close>

fun int_digits :: "nat \<Rightarrow> string \<Rightarrow> nat option" where
  "int_digits acc [] = Some acc"
| "int_digits acc [c] = (if is_digit c then Some (10 * acc + digit_val c) else None)"
| "int_digits acc (c # d # s) =
     (if is_digit c then
        (if d = CHR ''_'' then (if s = [] then None else int_digits (10 * acc + digit_val c) s)
         else int_digits (10 * acc + digit_val c) (d # s))
      else None)"

definition parse_nat :: "string \<Rightarrow> nat option" where
  "parse_nat s = (if s = [] then None else int_digits 0 s)"

definition py_int :: "string \<Rightarrow> int option" where
  "py_int s =
     (case py_strip s of
        [] \<Rightarrow> None
      | c # t \<Rightarrow>
          if c = CHR ''-'' then map_option (\<lambda>n. - int n) (parse_nat t)
          else if c = CHR ''+'' then map_option int (parse_nat t)
          else map_option int (parse_nat (c # t)))"

fun str_nat :: "nat \<Rightarrow> string" where
  "str_nat n = (if n < 10 then [char_of (48 + n)] else str_nat (n div 10) @ [char_of (48 + n mod 10)])"

declare str_nat.simps [simp del]

definition str_int :: "int \<Rightarrow> string" where
  "str_int i = (if i < 0 then CHR ''-'' # str_nat (nat (- i)) else str_nat (nat i))"

text \<open>Reading back a printed number.\<close>

lemma of_char_digit: "d < 10 \<Longrightarrow> (of_char (char_of (48 + d :: nat)) :: nat) = 48 + d"
  by (simp add: take_bit_nat_def)

lemma is_digit_char_of [simp]: "d < 10 \<Longrightarrow> is_digit (char_of (48 + d :: nat))"
  by (simp add: is_digit_def of_char_digit)

lemma digit_val_char_of [simp]: "d < 10 \<Longrightarrow> digit_val (char_of (48 + d :: nat)) = d"
  by (simp add: digit_val_def of_char_digit)

lemma is_digit_not_underscore: "is_digit c \<Longrightarrow> c \<noteq> CHR ''_''"
  by (auto simp: is_digit_def)

lemma int_digits_all:
  "list_all is_digit s \<Longrightarrow> int_digits acc s = Some (foldl (\<lambda>a c. 10 * a + digit_val c) acc s)"
  by (induction acc s rule: int_digits.induct) (auto dest: is_digit_not_underscore)

lemma str_nat_digits: "list_all is_digit (str_nat n)"
  by (induction n rule: str_nat.induct) (subst str_nat.simps, auto)

lemma str_nat_not_Nil [simp]: "str_nat n \<noteq> []"
  by (subst str_nat.simps) simp

lemma foldl_str_nat: "foldl (\<lambda>a c. 10 * a + digit_val c) 0 (str_nat n) = n"
  by (induction n rule: str_nat.induct) (subst str_nat.simps, auto)

lemma parse_str_nat [simp]: "parse_nat (str_nat n) = Some n"
  by (simp add: parse_nat_def int_digits_all str_nat_digits foldl_str_nat)

lemma is_digit_chars: "is_digit c \<Longrightarrow> \<not> py_space c \<and> c \<noteq> CHR ''-'' \<and> c \<noteq> CHR ''+'' \<and> c \<noteq> CHR ''/'' \<and> py_lower_char c = c"
  by (auto simp: is_digit_def py_space_def py_lower_char_def Let_def)

lemma py_strip_id:
  assumes "s \<noteq> []" and "\<not> py_space (hd s)" and "\<not> py_space (last s)"
  shows "py_strip s = s"
proof -
  have "py_lstrip s = s" using assms(1,2) by (cases s) (simp_all add: py_lstrip_def)
  moreover have "dropWhile py_space (rev s) = rev s"
    using assms(1,3) by (cases s rule: rev_cases) simp_all
  ultimately show ?thesis by (simp add: py_strip_def py_rstrip_def)
qed

lemma py_int_str_nat [simp]: "py_int (str_nat n) = Some (int n)"
proof -
  have digits: "\<forall>c \<in> set (str_nat n). is_digit c" using str_nat_digits by (simp add: list_all_iff)
  then have "\<forall>c \<in> set (str_nat n). \<not> py_space c" using is_digit_chars by blast
  then have "py_strip (str_nat n) = str_nat n"
    by (intro py_strip_id) (simp_all add: hd_in_set last_in_set)
  moreover obtain c t where ct: "str_nat n = c # t" by (cases "str_nat n") auto
  moreover have "c \<noteq> CHR ''-''" "c \<noteq> CHR ''+''"
    using digits is_digit_chars [of c] by (simp_all add: ct)
  moreover have "parse_nat (c # t) = Some n" using parse_str_nat [of n] by (simp only: ct)
  ultimately show ?thesis by (simp add: py_int_def)
qed

end
