(* ===== verification/Runs.thy ===== *)
theory Runs
  imports Main
begin

text \<open>
  Runs of the step relations that the stateful components define: labelled runs, and the two contracts under which
  a fact about one step holds for a whole run. The components interpret the contracts on their own steps.
\<close>

inductive lts_run :: "('s \<Rightarrow> 'l \<Rightarrow> 's \<Rightarrow> bool) \<Rightarrow> 's \<Rightarrow> 'l list \<Rightarrow> 's \<Rightarrow> bool" for step where
  run_Nil: "lts_run step s [] s"
| run_snoc: "lts_run step s ls s1 \<Longrightarrow> step s1 l s2 \<Longrightarrow> lts_run step s (ls @ [l]) s2"

inductive_cases run_NilE [elim!]: "lts_run step s [] s'"
inductive_cases run_snocE [elim]: "lts_run step s (ls @ [l]) s'"

text \<open>The steps with a label of a set, without their label.\<close>

definition some_step :: "('s \<Rightarrow> 'l \<Rightarrow> 's \<Rightarrow> bool) \<Rightarrow> ('l \<Rightarrow> bool) \<Rightarrow> 's \<Rightarrow> 's \<Rightarrow> bool" where
  "some_step step allowed s s' \<longleftrightarrow> (\<exists>l. allowed l \<and> step s l s')"

lemma some_stepI: "step s l s' \<Longrightarrow> allowed l \<Longrightarrow> some_step step allowed s s'"
  by (auto simp: some_step_def)

lemma run_steps: "lts_run step s ls s' \<Longrightarrow> list_all allowed ls \<Longrightarrow> (some_step step allowed)\<^sup>*\<^sup>* s s'"
  by (induction rule: lts_run.induct) (auto intro: some_stepI rtranclp.rtrancl_into_rtrancl)

lemma run_append: "lts_run step s ls s1 \<Longrightarrow> lts_run step s1 ks s2 \<Longrightarrow> lts_run step s (ls @ ks) s2"
proof (rotate_tac, induction rule: lts_run.induct)
  case (run_snoc s1 ks s2 l s3)
  then show ?case using lts_run.run_snoc [of step s "ls @ ks" s2 l s3] by simp
qed simp

text \<open>What one step relates, a run relates.\<close>

locale step_relation =
  fixes step :: "'s \<Rightarrow> 's \<Rightarrow> bool" and rel :: "'s \<Rightarrow> 's \<Rightarrow> bool"
  assumes rel_refl: "rel s s"
    and rel_trans: "rel s s1 \<Longrightarrow> rel s1 s2 \<Longrightarrow> rel s s2"
    and rel_step: "step s s' \<Longrightarrow> rel s s'"
begin

lemma rel_run: "step\<^sup>*\<^sup>* s s' \<Longrightarrow> rel s s'"
  by (induction rule: rtranclp_induct) (auto intro: rel_refl rel_trans rel_step)

end

text \<open>What every step keeps, a run keeps.\<close>

locale invariant_system =
  fixes step :: "'s \<Rightarrow> 's \<Rightarrow> bool" and good :: "'s \<Rightarrow> bool"
  assumes good_step: "step s s' \<Longrightarrow> good s \<Longrightarrow> good s'"

sublocale invariant_system \<subseteq> step_relation step "\<lambda>s s'. good s \<longrightarrow> good s'"
  by unfold_locales (auto intro: good_step)

context invariant_system
begin

lemma good_run: "step\<^sup>*\<^sup>* s s' \<Longrightarrow> good s \<Longrightarrow> good s'"
  using rel_run by blast

end

text \<open>
  Operations that are functions of the state: a history is a fold over the operations, and keeps what each
  allowed operation keeps.
\<close>

locale executed_system =
  fixes run_op :: "'e \<Rightarrow> 's \<Rightarrow> 's" and allowed :: "'e \<Rightarrow> bool" and good :: "'s \<Rightarrow> bool"
  assumes good_op: "good s \<Longrightarrow> allowed e \<Longrightarrow> good (run_op e s)"

sublocale executed_system \<subseteq> invariant_system "\<lambda>s s'. \<exists>e. allowed e \<and> s' = run_op e s" good
  by unfold_locales (auto intro: good_op)

context executed_system
begin

lemma history_steps: "list_all allowed es \<Longrightarrow> (\<lambda>s s'. \<exists>e. allowed e \<and> s' = run_op e s)\<^sup>*\<^sup>* s (fold run_op es s)"
proof (induction es arbitrary: s)
  case (Cons e es)
  have "\<exists>e'. allowed e' \<and> run_op e s = run_op e' s" using Cons.prems by auto
  then show ?case using Cons.IH [of "run_op e s"] Cons.prems by (simp add: converse_rtranclp_into_rtranclp)
qed simp

lemma good_history: "good s \<Longrightarrow> list_all allowed es \<Longrightarrow> good (fold run_op es s)"
  using history_steps good_run by blast

end

end
