(* ===== verification/MessageBus.thy ===== *)
theory MessageBus
  imports Prelude Runs
begin

text \<open>
  The asynchronous publish/subscribe bus of \<^verbatim>\<open>src/agent/coordination/message_bus.py\<close>.

  A bus is the record \<open>bus\<close>: the subscriptions by topic pattern (a Python dictionary, in
  insertion order), the pending queue, the running flag, the dispatch task, and the bounded
  history. One iteration of the dispatch loop is \<open>dispatch_step\<close>; it also returns the callbacks
  it ran. A callback is a function from the message to the messages it publishes and whether it
  raised; callbacks that change the subscriptions while a message is being fanned out are not
  modelled. A filter answers or raises (\<^const>\<open>None\<close>). Object identity (\<open>is not\<close> in
  \<open>unsubscribe\<close>) is the number \<open>sub_oid\<close>, fresh for each subscription.
\<close>

section \<open>Data model\<close>

datatype MessageType = AGENT_MSG | TASK_REQUEST | TASK_RESULT | STATE_UPDATE | HEARTBEAT | SYSTEM

record message =
  msg_topic :: string
  msg_sender :: string
  msg_payload :: "(string, pyval) dict"
  msg_type :: MessageType
  msg_id :: string
  msg_timestamp :: time
  msg_priority :: int
  msg_reply_to :: "string option"

record subscription =
  sub_oid :: nat
  subscriber_id :: string
  topic_pattern :: string
  sub_callback :: "message \<Rightarrow> message list \<times> bool"
  filter_fn :: "(message \<Rightarrow> bool option) option"

datatype dispatch_task = NoTask | Looping | Failed

record bus =
  subscribers :: "(string, subscription list) dict"
  bus_queue :: "message list"
  bus_running :: bool
  bus_task :: dispatch_task
  bus_history :: "message list"
  next_oid :: nat
  call_soon :: "message list"

definition history_max :: nat where
  "history_max = 1000"

definition bus_init :: bus where
  "bus_init = \<lparr>subscribers = [], bus_queue = [], bus_running = False, bus_task = NoTask,
     bus_history = [], next_oid = 0, call_soon = []\<rparr>"

section \<open>Topic patterns\<close>

text \<open>\<open>pattern.replace("**", "")\<close>, left to right, without overlaps.\<close>

fun remove_dstar :: "string \<Rightarrow> string" where
  "remove_dstar (c # d # s) =
     (if c = CHR ''*'' \<and> d = CHR ''*'' then remove_dstar s else c # remove_dstar (d # s))"
| "remove_dstar s = s"

definition rstrip_dots :: "string \<Rightarrow> string" where
  "rstrip_dots s = rev (dropWhile (\<lambda>c. c = CHR ''.'') (rev s))"

definition topic_matches :: "string \<Rightarrow> string \<Rightarrow> bool" where
  "topic_matches topic pattern =
     (if pattern = ''*'' then True
      else if py_in ''**'' pattern then prefix (rstrip_dots (remove_dstar pattern)) topic
      else if suffix ''.*'' pattern then
        (let p = take (length pattern - 2) pattern in
           if \<not> prefix (p @ ''.'') topic then False
           else CHR ''.'' \<notin> set (drop (length p + 1) topic))
      else topic = pattern)"

section \<open>Subscriptions\<close>

definition subs_at :: "string \<Rightarrow> bus \<Rightarrow> subscription list" where
  "subs_at p b = (case dict_get (subscribers b) p of None \<Rightarrow> [] | Some subs \<Rightarrow> subs)"

definition subscribe ::
    "string \<Rightarrow> string \<Rightarrow> (message \<Rightarrow> message list \<times> bool) \<Rightarrow> (message \<Rightarrow> bool option) option
     \<Rightarrow> bus \<Rightarrow> subscription \<times> bus" where
  "subscribe sid pattern cb flt b =
     (let sub = \<lparr>sub_oid = next_oid b, subscriber_id = sid, topic_pattern = pattern,
                 sub_callback = cb, filter_fn = flt\<rparr>
      in (sub, b\<lparr>subscribers := dict_put pattern (subs_at pattern b @ [sub]) (subscribers b),
                 next_oid := Suc (next_oid b)\<rparr>))"

definition unsubscribe :: "subscription \<Rightarrow> bus \<Rightarrow> bus" where
  "unsubscribe sub b =
     (let kept = filter (\<lambda>s. sub_oid s \<noteq> sub_oid sub) (subs_at (topic_pattern sub) b);
          d = dict_put (topic_pattern sub) kept (subscribers b)
      in b\<lparr>subscribers := (if kept = [] then dict_del (topic_pattern sub) d else d)\<rparr>)"

section \<open>Publishing\<close>

definition publish :: "message \<Rightarrow> bus \<Rightarrow> bus" where
  "publish m b = b\<lparr>bus_queue := bus_queue b @ [m]\<rparr>"

text \<open>
  From synchronous code: with a running event loop the enqueueing is only scheduled, and
  \<open>run_scheduled\<close> is the loop performing it later; otherwise it happens at once.
\<close>

definition publish_sync :: "bool \<Rightarrow> message \<Rightarrow> bus \<Rightarrow> bus" where
  "publish_sync loop_running m b =
     (if loop_running then b\<lparr>call_soon := call_soon b @ [m]\<rparr> else publish m b)"

definition run_scheduled :: "bus \<Rightarrow> bus" where
  "run_scheduled b = fold publish (call_soon b) (b\<lparr>call_soon := []\<rparr>)"

section \<open>The dispatch loop\<close>

definition bus_start :: "bus \<Rightarrow> bus" where
  "bus_start b = (if bus_running b then b else b\<lparr>bus_running := True, bus_task := Looping\<rparr>)"

text \<open>
  Awaiting a cancelled task is caught; awaiting a task that died of an exception raises it again,
  before \<open>_dispatch_task\<close> is cleared.
\<close>

definition bus_stop :: "bus \<Rightarrow> bus \<times> exn option" where
  "bus_stop b =
     (let b1 = b\<lparr>bus_running := False\<rparr> in
      case bus_task b of
        NoTask \<Rightarrow> (b1, None)
      | Looping \<Rightarrow> (b1\<lparr>bus_task := NoTask\<rparr>, None)
      | Failed \<Rightarrow> (b1, Some (OtherException ''filter'')))"

definition filter_verdict :: "subscription \<Rightarrow> message \<Rightarrow> bool option" where
  "filter_verdict s m = (case filter_fn s of None \<Rightarrow> Some True | Some f \<Rightarrow> f m)"

text \<open>
  The two nested loops over patterns and their subscriptions. The result: the messages the
  callbacks published, the callbacks run (and whether each raised), and whether a filter raised,
  which nothing catches.
\<close>

fun fan_out ::
    "message \<Rightarrow> (string \<times> subscription) list \<Rightarrow> message list \<times> (nat \<times> bool) list \<times> bool" where
  "fan_out m [] = ([], [], False)"
| "fan_out m ((pattern, sub) # rest) =
     (if \<not> topic_matches (msg_topic m) pattern then fan_out m rest
      else case filter_verdict sub m of
             None \<Rightarrow> ([], [], True)
           | Some False \<Rightarrow> fan_out m rest
           | Some True \<Rightarrow>
               (let (published, raised) = sub_callback sub m;
                    (ps, ds, failed) = fan_out m rest
                in (published @ ps, (sub_oid sub, raised) # ds, failed)))"

definition dispatch_order :: "bus \<Rightarrow> (string \<times> subscription) list" where
  "dispatch_order b = concat (map (\<lambda>(p, subs). map (Pair p) subs) (subscribers b))"

definition dispatch_step :: "bus \<Rightarrow> bus \<times> (nat \<times> bool) list" where
  "dispatch_step b =
     (if bus_running b \<and> bus_task b = Looping then
        (case bus_queue b of
           [] \<Rightarrow> (b, [])
         | m # q \<Rightarrow>
             (let (ps, ds, failed) = fan_out m (dispatch_order b)
              in (b\<lparr>bus_queue := q @ ps,
                    bus_history := deque_append history_max (bus_history b) m,
                    bus_task := (if failed then Failed else Looping)\<rparr>, ds)))
      else (b, []))"

fun dispatch_n :: "nat \<Rightarrow> bus \<Rightarrow> bus \<times> (nat \<times> bool) list" where
  "dispatch_n 0 b = (b, [])"
| "dispatch_n (Suc n) b =
     (let (b1, ds) = dispatch_step b; (b2, es) = dispatch_n n b1 in (b2, ds @ es))"

section \<open>History and statistics\<close>

definition get_history :: "string option \<Rightarrow> int \<Rightarrow> bus \<Rightarrow> message list" where
  "get_history topic limit b =
     (let msgs = bus_history b;
          kept = (case topic of None \<Rightarrow> msgs | Some t \<Rightarrow> filter (\<lambda>m. msg_topic m = t) msgs)
      in py_last limit kept)"

definition pending_count :: "bus \<Rightarrow> nat" where
  "pending_count b = length (bus_queue b)"

definition subscriber_count :: "bus \<Rightarrow> nat" where
  "subscriber_count b = sum_list (map length (dict_values (subscribers b)))"

section \<open>The invariant\<close>

definition all_subs :: "bus \<Rightarrow> subscription list" where
  "all_subs b = concat (dict_values (subscribers b))"

definition bus_inv :: "bus \<Rightarrow> bool" where
  "bus_inv b \<longleftrightarrow>
     dict_wf (subscribers b) \<and>
     (\<forall>(p, subs) \<in> set (subscribers b). subs \<noteq> [] \<and> (\<forall>s \<in> set subs. topic_pattern s = p)) \<and>
     (\<forall>s \<in> set (all_subs b). sub_oid s < next_oid b) \<and>
     distinct (map sub_oid (all_subs b)) \<and>
     length (bus_history b) \<le> history_max \<and>
     (bus_running b \<longrightarrow> bus_task b \<noteq> NoTask) \<and>
     (\<not> bus_running b \<longrightarrow> bus_task b \<noteq> Looping)"

lemma bus_inv_init: "bus_inv bus_init"
  by (simp add: bus_inv_def bus_init_def all_subs_def)

lemma map_snd_dispatch_order: "map snd (dispatch_order b) = all_subs b"
  by (simp add: dispatch_order_def all_subs_def map_concat split_beta comp_def)

lemma mset_values_put:
  "mset (concat (dict_values (dict_put k l d))) + mset (case dict_get d k of None \<Rightarrow> [] | Some l' \<Rightarrow> l')
     = mset (concat (dict_values d)) + mset l"
  by (induction d) (auto simp: dict_put_def split: option.splits)

lemma mset_values_del:
  "dict_wf d \<Longrightarrow>
     mset (concat (dict_values (dict_del k d))) + mset (case dict_get d k of None \<Rightarrow> [] | Some l' \<Rightarrow> l')
       = mset (concat (dict_values d))"
proof (induction d)
  case Nil
  then show ?case by (simp add: dict_del_def)
next
  case (Cons p d)
  obtain k' l where p: "p = (k', l)" by fastforce
  from Cons.prems have wf: "dict_wf d" and fresh: "k' \<notin> set (dict_keys d)"
    by (auto simp: dict_wf_def p)
  from fresh have none: "dict_get d k' = None" by (simp add: dict_get_def map_of_eq_None_iff)
  then have "dict_del k' d = d" by (rule dict_del_absent)
  with Cons.IH [OF wf] none show ?case
    by (auto simp: p dict_del_def split: option.splits)
qed

lemma mset_all_subs_subscribe:
  "mset (all_subs (snd (subscribe sid pat cb flt b)))
     = add_mset (fst (subscribe sid pat cb flt b)) (mset (all_subs b))"
  using mset_values_put [of pat "subs_at pat b @ [fst (subscribe sid pat cb flt b)]" "subscribers b"]
  by (simp add: subscribe_def all_subs_def Let_def subs_at_def add.commute)

lemma bus_inv_subs_at: "bus_inv b \<Longrightarrow> x \<in> set (subs_at p b) \<Longrightarrow> topic_pattern x = p"
  by (cases "dict_get (subscribers b) p") (auto simp: bus_inv_def subs_at_def dest!: dict_get_mem)

lemma bus_inv_subscribe:
  assumes "bus_inv b"
  shows "bus_inv (snd (subscribe sid pat cb flt b))"
proof -
  let ?b' = "snd (subscribe sid pat cb flt b)" and ?s = "fst (subscribe sid pat cb flt b)"
  have s: "sub_oid ?s = next_oid b" "topic_pattern ?s = pat" "next_oid ?b' = Suc (next_oid b)"
    by (simp_all add: subscribe_def Let_def)
  have ms: "mset (all_subs ?b') = mset (?s # all_subs b)"
    by (simp add: mset_all_subs_subscribe)
  then have set: "set (all_subs ?b') = insert ?s (set (all_subs b))"
    by (metis set_mset_mset list.simps(15))
  from ms have "mset (map sub_oid (all_subs ?b')) = mset (map sub_oid (?s # all_subs b))"
    by simp
  moreover have "distinct (map sub_oid (?s # all_subs b))"
    using assms by (auto simp: bus_inv_def s)
  ultimately have "distinct (map sub_oid (all_subs ?b'))"
    by (metis mset_eq_imp_distinct_iff)
  moreover have "\<forall>x \<in> set (all_subs ?b'). sub_oid x < next_oid ?b'"
    using assms by (auto simp: set s bus_inv_def less_Suc_eq)
  moreover have "\<forall>(p, subs) \<in> set (subscribers ?b'). subs \<noteq> [] \<and> (\<forall>x \<in> set subs. topic_pattern x = p)"
    using assms bus_inv_subs_at [OF assms]
    by (auto simp: bus_inv_def subscribe_def Let_def set_dict_put)
  ultimately show ?thesis
    using assms by (auto simp: bus_inv_def subscribe_def Let_def)
qed

lemma bus_inv_unsubscribe:
  assumes inv: "bus_inv b"
  shows "bus_inv (unsubscribe sub b)"
proof -
  let ?p = "topic_pattern sub" and ?b' = "unsubscribe sub b"
  let ?subs = "subs_at ?p b"
  let ?kept = "filter (\<lambda>s. sub_oid s \<noteq> sub_oid sub) ?subs"
  have wf: "dict_wf (subscribers b)" using inv by (simp add: bus_inv_def)
  have all: "mset (all_subs ?b') + mset ?subs = mset (all_subs b) + mset ?kept"
  proof (cases "?kept = []")
    case True
    with mset_values_del [OF wf, of ?p] show ?thesis
      by (simp add: unsubscribe_def all_subs_def Let_def subs_at_def)
  next
    case False
    with mset_values_put [of ?p ?kept "subscribers b"] show ?thesis
      by (simp add: unsubscribe_def all_subs_def Let_def subs_at_def)
  qed
  have "mset ?kept \<subseteq># mset ?subs" by (simp add: mset_filter)
  then have "mset (all_subs ?b') + mset ?subs \<subseteq># mset (all_subs b) + mset ?subs"
    unfolding all by simp
  then have sub: "mset (all_subs ?b') \<subseteq># mset (all_subs b)" by simp
  then have "mset (map sub_oid (all_subs ?b')) \<subseteq># mset (map sub_oid (all_subs b))"
    by (simp add: image_mset_subseteq_mono)
  then have "distinct (map sub_oid (all_subs ?b'))"
    using inv by (auto simp: bus_inv_def intro: distinct_submset)
  moreover have "\<forall>x \<in> set (all_subs ?b'). sub_oid x < next_oid ?b'"
    using inv set_mset_mono [OF sub]
    by (auto simp: bus_inv_def unsubscribe_def Let_def)
  moreover have "\<forall>(p, subs) \<in> set (subscribers ?b'). subs \<noteq> [] \<and> (\<forall>x \<in> set subs. topic_pattern x = p)"
    using inv bus_inv_subs_at [OF inv]
    by (auto simp: bus_inv_def unsubscribe_def Let_def set_dict_put set_dict_del)
  ultimately show ?thesis
    using inv by (auto simp: bus_inv_def unsubscribe_def Let_def)
qed

lemma bus_inv_queue [simp]: "bus_inv (b\<lparr>bus_queue := q\<rparr>) = bus_inv b"
  by (simp add: bus_inv_def all_subs_def)

lemma bus_inv_publish [simp]: "bus_inv (publish m b) = bus_inv b"
  by (simp add: publish_def)

lemma bus_inv_start: "bus_inv b \<Longrightarrow> bus_inv (bus_start b)"
  by (auto simp: bus_inv_def bus_start_def all_subs_def)

lemma bus_inv_stop: "bus_inv b \<Longrightarrow> bus_inv (fst (bus_stop b))"
  by (auto simp: bus_inv_def bus_stop_def all_subs_def Let_def split: dispatch_task.splits)

lemma bus_inv_dispatch: "bus_inv b \<Longrightarrow> bus_inv (fst (dispatch_step b))"
  by (auto simp: bus_inv_def dispatch_step_def all_subs_def length_deque_append
      split: list.splits prod.splits)

section \<open>Facts about topic patterns\<close>

lemma dstar_append_dot: "py_in ''**'' (p @ CHR ''.'' # q) \<longleftrightarrow> py_in ''**'' p \<or> py_in ''**'' q"
proof -
  have "\<not> (\<exists>u v. ''**'' = u @ v \<and> v \<noteq> [] \<and> prefix v (CHR ''.'' # q))"
    by (auto simp: prefix_Cons append_eq_Cons_conv Cons_eq_append_conv)
  then have "sublist ''**'' (p @ CHR ''.'' # q) \<longleftrightarrow> sublist ''**'' p \<or> sublist ''**'' (CHR ''.'' # q)"
    unfolding sublist_append by (metis append.right_neutral suffix_imp_sublist)
  then show ?thesis
    by (simp add: py_in_sublist sublist_Cons_right)
qed

lemma remove_dstar_id: "\<not> py_in ''**'' p \<Longrightarrow> remove_dstar p = p"
  by (induction p rule: remove_dstar.induct) auto

lemma remove_dstar_dot:
  "\<not> py_in ''**'' p \<Longrightarrow> remove_dstar (p @ CHR ''.'' # q) = p @ CHR ''.'' # remove_dstar q"
proof (induction p rule: remove_dstar.induct)
  case (1 c d s)
  then show ?case by auto
next
  case "2_1"
  show ?case by (cases q) auto
next
  case "2_2"
  show ?case by (cases q) auto
qed

lemma rstrip_dots_snoc: "p = [] \<or> last p \<noteq> CHR ''.'' \<Longrightarrow> rstrip_dots (p @ ''.'') = p"
  by (cases p rule: rev_cases) (auto simp: rstrip_dots_def)

lemma topic_matches_one:
  assumes "\<not> py_in ''**'' p"
  shows "topic_matches t (p @ ''.*'') \<longleftrightarrow> (\<exists>seg. t = p @ ''.'' @ seg \<and> CHR ''.'' \<notin> set seg)"
proof -
  have no: "\<not> py_in ''**'' (p @ ''.*'')"
    using assms dstar_append_dot [of p "''*''"] by simp
  have "topic_matches t (p @ ''.*'') \<longleftrightarrow>
          prefix (p @ ''.'') t \<and> CHR ''.'' \<notin> set (drop (length p + 1) t)"
    using no by (simp add: topic_matches_def Let_def suffix_def append_eq_Cons_conv)
  also have "\<dots> \<longleftrightarrow> (\<exists>seg. t = p @ ''.'' @ seg \<and> CHR ''.'' \<notin> set seg)"
    by (auto simp: prefix_def)
  finally show ?thesis .
qed

lemma topic_matches_deep:
  assumes "\<not> py_in ''**'' p" and "p = [] \<or> last p \<noteq> CHR ''.''"
  shows "topic_matches t (p @ ''.**'') \<longleftrightarrow> prefix p t"
proof -
  have "py_in ''**'' (p @ ''.**'')" using dstar_append_dot [of p "''**''"] by simp
  moreover have "rstrip_dots (remove_dstar (p @ ''.**'')) = p"
    using assms rstrip_dots_snoc [of p] by (simp add: remove_dstar_dot)
  ultimately show ?thesis
    by (simp add: topic_matches_def append_eq_Cons_conv)
qed

section \<open>Facts about the fan-out\<close>

definition accepts :: "message \<Rightarrow> string \<times> subscription \<Rightarrow> bool" where
  "accepts m ps \<longleftrightarrow> topic_matches (msg_topic m) (fst ps) \<and> filter_verdict (snd ps) m = Some True"

definition filters_total :: "message \<Rightarrow> bus \<Rightarrow> bool" where
  "filters_total m b \<longleftrightarrow> (\<forall>s \<in> set (all_subs b). filter_verdict s m \<noteq> None)"

definition run_callback :: "message \<Rightarrow> string \<times> subscription \<Rightarrow> nat \<times> bool" where
  "run_callback m ps = (sub_oid (snd ps), snd (sub_callback (snd ps) m))"

lemma fan_out_total:
  "\<forall>(p, s) \<in> set ps. filter_verdict s m \<noteq> None \<Longrightarrow>
     fan_out m ps =
       (concat (map (\<lambda>(p, s). fst (sub_callback s m)) (filter (accepts m) ps)),
        map (run_callback m) (filter (accepts m) ps), False)"
  by (induction m ps rule: fan_out.induct)
     (auto simp: accepts_def run_callback_def split: option.splits bool.splits prod.splits)

lemma filters_total_order:
  "filters_total m b \<Longrightarrow> \<forall>(p, s) \<in> set (dispatch_order b). filter_verdict s m \<noteq> None"
  unfolding filters_total_def map_snd_dispatch_order [symmetric] by auto

lemma dispatch_step_message:
  assumes "bus_running b" and "bus_task b = Looping" and "bus_queue b = m # q"
    and "filters_total m b"
  shows "dispatch_step b =
    (b\<lparr>bus_queue := q @ concat (map (\<lambda>(p, s). fst (sub_callback s m))
                                 (filter (accepts m) (dispatch_order b))),
       bus_history := deque_append history_max (bus_history b) m\<rparr>,
     map (run_callback m) (filter (accepts m) (dispatch_order b)))"
  using assms fan_out_total [OF filters_total_order [OF assms(4)]]
  by (simp add: dispatch_step_def)

lemma distinct_run_callbacks:
  assumes "bus_inv b"
  shows "distinct (map fst (map (run_callback m) (filter (accepts m) (dispatch_order b))))"
proof -
  have "distinct (map (sub_oid \<circ> snd) (dispatch_order b))"
    using assms by (simp add: bus_inv_def map_snd_dispatch_order [symmetric] comp_def)
  then show ?thesis
    by (simp add: comp_def run_callback_def distinct_map_filter)
qed

section \<open>Runs of the bus\<close>

datatype bus_label = LSubscribe | LUnsubscribe | LPublish | LStart | LStop | LDispatch

inductive bus_step :: "bus \<Rightarrow> bus_label \<Rightarrow> bus \<Rightarrow> bool" where
  step_subscribe: "bus_step b LSubscribe (snd (subscribe sid pat cb flt b))"
| step_unsubscribe: "bus_step b LUnsubscribe (unsubscribe sub b)"
| step_publish: "bus_step b LPublish (publish m b)"
| step_start: "bus_step b LStart (bus_start b)"
| step_stop: "bus_step b LStop (fst (bus_stop b))"
| step_dispatch: "bus_step b LDispatch (fst (dispatch_step b))"

abbreviation bus_run :: "bus \<Rightarrow> bus_label list \<Rightarrow> bus \<Rightarrow> bool" where
  "bus_run \<equiv> lts_run bus_step"

lemmas bus_run_Nil = run_Nil [where step = bus_step]
lemmas bus_run_snoc = run_snoc [where step = bus_step]

lemma bus_inv_step: "bus_step b l b' \<Longrightarrow> bus_inv b \<Longrightarrow> bus_inv b'"
  by (induction rule: bus_step.induct)
     (auto intro: bus_inv_subscribe bus_inv_unsubscribe bus_inv_start bus_inv_stop bus_inv_dispatch)

interpretation bus_sys: invariant_system "some_step bus_step (\<lambda>_. True)" bus_inv
  by unfold_locales (auto simp: some_step_def intro: bus_inv_step)

lemma bus_inv_run: "bus_run b ls b' \<Longrightarrow> bus_inv b \<Longrightarrow> bus_inv b'"
  by (rule bus_sys.good_run [OF run_steps]) (simp_all add: list_all_iff)

text \<open>A dispatch task that died of a filter's exception while the running flag is set.\<close>

definition bus_dead :: "bus \<Rightarrow> bool" where
  "bus_dead b \<longleftrightarrow> bus_running b \<and> bus_task b = Failed"

lemma bus_dead_step:
  "bus_step b l b' \<Longrightarrow> l \<noteq> LStop \<Longrightarrow> bus_dead b \<Longrightarrow>
     bus_dead b' \<and> prefix (bus_queue b) (bus_queue b') \<and> bus_history b' = bus_history b"
  by (induction rule: bus_step.induct)
     (auto simp: bus_dead_def subscribe_def unsubscribe_def publish_def bus_start_def
        dispatch_step_def Let_def)

interpretation dead_bus: step_relation "some_step bus_step (\<lambda>l. l \<noteq> LStop)"
    "\<lambda>b b'. bus_dead b \<longrightarrow> bus_dead b' \<and> prefix (bus_queue b) (bus_queue b') \<and> bus_history b' = bus_history b"
  by unfold_locales (auto simp: some_step_def dest: bus_dead_step intro: prefix_order.trans)

section \<open>The publishing interface\<close>

text \<open>What the coordinator relies on: publishing appends to the pending messages and nothing else.\<close>

locale fifo_publisher =
  fixes pub :: "'m \<Rightarrow> 'b \<Rightarrow> 'b"
    and pending :: "'b \<Rightarrow> 'm list"
    and ok :: "'b \<Rightarrow> bool"
  assumes pending_pub: "pending (pub m b) = pending b @ [m]"
    and ok_pub: "ok b \<Longrightarrow> ok (pub m b)"
begin

lemma pending_pubs: "pending (fold pub ms b) = pending b @ ms"
  by (induction ms arbitrary: b) (simp_all add: pending_pub)

lemma ok_pubs: "ok b \<Longrightarrow> ok (fold pub ms b)"
  by (induction ms arbitrary: b) (auto intro: ok_pub)

lemma pub_grows: "prefix (pending b) (pending (fold pub ms b))"
  by (simp add: pending_pubs)

end

interpretation mbus: fifo_publisher publish bus_queue bus_inv
  by unfold_locales (simp_all add: publish_def)

lemma run_scheduled_queue: "bus_queue (run_scheduled b) = bus_queue b @ call_soon b"
  by (simp add: run_scheduled_def mbus.pending_pubs)

section \<open>Properties\<close>

text \<open>An example bus used by the witnesses: one running bus, one subscription.\<close>

definition demo_msg :: message where
  "demo_msg = \<lparr>msg_topic = ''a.b'', msg_sender = ''x'', msg_payload = [], msg_type = SYSTEM,
     msg_id = ''1'', msg_timestamp = 0, msg_priority = 0, msg_reply_to = None\<rparr>"

definition demo_bus :: "(message \<Rightarrow> bool option) option \<Rightarrow> bus" where
  "demo_bus flt =
     bus_start (publish demo_msg (snd (subscribe ''s'' ''a.*'' (\<lambda>m. ([], True)) flt bus_init)))"

lemma demo_bus_run: "bus_run bus_init [LSubscribe, LPublish, LStart] (demo_bus flt)"
proof -
  let ?b1 = "snd (subscribe ''s'' ''a.*'' (\<lambda>m. ([], True)) flt bus_init)"
  have "bus_run bus_init ([] @ [LSubscribe]) ?b1"
    by (rule bus_run_snoc [OF bus_run_Nil step_subscribe])
  then have "bus_run bus_init (([] @ [LSubscribe]) @ [LPublish]) (publish demo_msg ?b1)"
    by (rule bus_run_snoc [OF _ step_publish])
  then have "bus_run bus_init ((([] @ [LSubscribe]) @ [LPublish]) @ [LStart]) (demo_bus flt)"
    unfolding demo_bus_def by (rule bus_run_snoc [OF _ step_start])
  then show ?thesis by simp
qed

lemmas demo_simps = demo_bus_def demo_msg_def subscribe_def publish_def bus_start_def bus_init_def
  subs_at_def dispatch_order_def all_subs_def filters_total_def filter_verdict_def topic_matches_def
  dict_put_def Let_def suffix_to_prefix

text \<open>
  Topic patterns: for a plain prefix \<open>p\<close>, the pattern \<open>p.*\<close> matches exactly the topics
  with one further segment, \<open>p.**\<close> exactly the topics with the string prefix \<open>p\<close>, every match
  of the first is one of the second, and \<open>*\<close> matches every topic.
\<close>

theorem topic_pattern_semantics:
  assumes "\<not> py_in ''**'' p" and "p = [] \<or> last p \<noteq> CHR ''.''"
  shows "topic_matches t ''*'' \<and>
    (topic_matches t (p @ ''.*'') \<longleftrightarrow> (\<exists>seg. t = p @ ''.'' @ seg \<and> CHR ''.'' \<notin> set seg)) \<and>
    (topic_matches t (p @ ''.**'') \<longleftrightarrow> prefix p t) \<and>
    (topic_matches t (p @ ''.*'') \<longrightarrow> topic_matches t (p @ ''.**''))"
proof -
  have "topic_matches t ''*''" by (simp add: topic_matches_def)
  then show ?thesis
    using topic_matches_one [OF assms(1)] topic_matches_deep [OF assms] by auto
qed

theorem topic_pattern_semantics_witness:
  "topic_matches ''agent.s'' ''agent.*'' \<and> \<not> topic_matches ''agent.s.t'' ''agent.*'' \<and>
   topic_matches ''agent.s.t'' ''agent.**'' \<and> topic_matches ''agents'' ''agent.**''"
  using topic_pattern_semantics [of "''agent''" "''agent.s''"]
    topic_pattern_semantics [of "''agent''" "''agent.s.t''"]
    topic_pattern_semantics [of "''agent''" "''agents''"]
  by simp



text \<open>
  Every bus reached by any sequence of subscriptions, publications, starts, stops and
  dispatches satisfies the invariant: no empty or duplicated subscription, each under its own
  pattern, a history of at most 1000 messages, and a dispatch task whenever the bus is running.
\<close>

theorem bus_runs_keep_invariant:
  "bus_run bus_init ls b \<Longrightarrow> bus_inv b"
  by (rule bus_inv_run [OF _ bus_inv_init])

theorem bus_runs_keep_invariant_witness: "bus_inv (demo_bus None)"
  by (rule bus_runs_keep_invariant [OF demo_bus_run])

text \<open>
  Unsubscribing is the inverse of subscribing: the subscription returned by
  \<open>subscribe\<close> and passed to \<open>unsubscribe\<close> leaves the subscriptions as they were, and from then
  on no dispatch runs its callback.
\<close>

theorem unsubscribe_inverts_subscribe:
  assumes run: "bus_run bus_init ls b" and sub: "subscribe sid pat cb flt b = (s, b')"
  shows "subscribers (unsubscribe s b') = subscribers b \<and>
    sub_oid s \<notin> sub_oid ` set (all_subs (unsubscribe s b'))"
proof -
  have inv: "bus_inv b" by (rule bus_inv_run [OF run bus_inv_init])
  then have old: "\<forall>x \<in> set (all_subs b). sub_oid x < next_oid b" by (simp add: bus_inv_def)
  have "set (subs_at pat b) \<subseteq> set (all_subs b)"
    using dict_get_mem [of "subscribers b" pat]
    by (cases "dict_get (subscribers b) pat") (auto simp: subs_at_def all_subs_def image_iff)
  with old have kept: "filter (\<lambda>x. sub_oid x \<noteq> next_oid b) (subs_at pat b) = subs_at pat b"
    by (intro filter_True ballI) (metis less_irrefl subsetD)
  have eq: "subscribers (unsubscribe s b') = subscribers b"
  proof (cases "dict_get (subscribers b) pat")
    case None
    with sub show ?thesis
      by (auto simp: subscribe_def unsubscribe_def Let_def subs_at_def dict_del_absent)
  next
    case (Some subs)
    then have "subs \<noteq> []" using inv by (auto simp: bus_inv_def dest!: dict_get_mem)
    with Some sub kept show ?thesis
      by (auto simp: subscribe_def unsubscribe_def Let_def subs_at_def)
  qed
  moreover have "sub_oid s = next_oid b" using sub by (auto simp: subscribe_def Let_def)
  moreover from eq have "all_subs (unsubscribe s b') = all_subs b" by (simp add: all_subs_def)
  ultimately show ?thesis using old by fastforce
qed

theorem unsubscribe_inverts_subscribe_witness:
  "subscribers (unsubscribe (fst (subscribe ''t'' ''a.*'' (\<lambda>m. ([], False)) None (demo_bus None)))
     (snd (subscribe ''t'' ''a.*'' (\<lambda>m. ([], False)) None (demo_bus None)))) =
   subscribers (demo_bus None)"
  using unsubscribe_inverts_subscribe
    [OF demo_bus_run [of None], of "''t''" "''a.*''" "\<lambda>m. ([], False)" None
        "fst (subscribe ''t'' ''a.*'' (\<lambda>m. ([], False)) None (demo_bus None))"
        "snd (subscribe ''t'' ''a.*'' (\<lambda>m. ([], False)) None (demo_bus None))"]
  by simp

text \<open>
  A filter that raises is not caught: the dispatch task dies while the running flag stays
  set, so that, whatever is subscribed, published or started afterwards, no message is ever
  dispatched again until the bus is stopped.
\<close>

theorem filter_exception_stops_dispatch_for_good:
  assumes "bus_running b" and "bus_task b = Looping" and "bus_queue b = m # q"
    and order: "dispatch_order b = pre @ (p, s) # post"
    and pre: "\<forall>(p, s) \<in> set pre. filter_verdict s m \<noteq> None"
    and match: "topic_matches (msg_topic m) p" and raises: "filter_verdict s m = None"
    and run: "bus_run (fst (dispatch_step b)) ls b'" and nostop: "LStop \<notin> set ls"
  shows "bus_dead b' \<and> snd (dispatch_step b') = [] \<and> prefix q (bus_queue b') \<and>
    bus_history b' = bus_history (fst (dispatch_step b))"
proof -
  have "snd (snd (fan_out m (pre @ (p, s) # post)))" using pre match raises
    by (induction pre) (auto split: option.splits bool.splits prod.splits)
  then have start: "bus_dead (fst (dispatch_step b)) \<and> prefix q (bus_queue (fst (dispatch_step b)))"
    using assms(1-3) order by (auto simp: dispatch_step_def bus_dead_def split: prod.splits)
  have "(some_step bus_step (\<lambda>l. l \<noteq> LStop))\<^sup>*\<^sup>* (fst (dispatch_step b)) b'"
    using run nostop by (auto intro!: run_steps simp: list_all_iff)
  from dead_bus.rel_run [OF this] start have "bus_dead b' \<and> prefix q (bus_queue b') \<and>
      bus_history b' = bus_history (fst (dispatch_step b))"
    by (auto intro: prefix_order.trans)
  then show ?thesis by (simp add: bus_dead_def dispatch_step_def)
qed

theorem filter_exception_stops_dispatch_for_good_witness:
  "bus_dead (bus_start (fst (dispatch_step (demo_bus (Some (\<lambda>m. None))))))"
  using filter_exception_stops_dispatch_for_good
    [of "demo_bus (Some (\<lambda>m. None))" demo_msg "[]" "[]" "''a.*''"
        "fst (subscribe ''s'' ''a.*'' (\<lambda>m. ([], True)) (Some (\<lambda>m. None)) bus_init)" "[]"
        "[] @ [LStart]", OF _ _ _ _ _ _ _ bus_run_snoc [OF bus_run_Nil step_start]]
  by (simp add: demo_simps)

text \<open>
  C2. Liveness and order: when no callback publishes and no filter raises, as many iterations as
  there are pending messages empty the queue, and the callbacks have run message by message in
  the order of publication.
\<close>

theorem dispatch_drains_in_order:
  assumes "bus_running b" and "bus_task b = Looping"
    and "\<forall>m \<in> set (bus_queue b). filters_total m b"
    and "\<forall>s \<in> set (all_subs b). \<forall>m. fst (sub_callback s m) = []"
  shows "dispatch_n (length (bus_queue b)) b =
    (b\<lparr>bus_queue := [],
       bus_history := fold (\<lambda>m h. deque_append history_max h m) (bus_queue b) (bus_history b)\<rparr>,
     concat (map (\<lambda>m. map (run_callback m) (filter (accepts m) (dispatch_order b))) (bus_queue b)))"
  using assms
proof (induction "bus_queue b" arbitrary: b)
  case Nil
  then show ?case by (cases b) simp
next
  case (Cons m q)
  note q = Cons.hyps(2) [symmetric]
  have silent: "concat (map (\<lambda>(p, s). fst (sub_callback s m)) (filter (accepts m) (dispatch_order b))) = []"
    using Cons.prems(4) unfolding map_snd_dispatch_order [symmetric] by auto
  let ?b1 = "b\<lparr>bus_queue := q, bus_history := deque_append history_max (bus_history b) m\<rparr>"
  have "filters_total m b" using Cons.prems(3) by (simp add: q)
  from dispatch_step_message [OF Cons.prems(1,2) q this]
  have step: "dispatch_step b = (?b1, map (run_callback m) (filter (accepts m) (dispatch_order b)))"
    using silent by simp
  have same: "dispatch_order ?b1 = dispatch_order b" "all_subs ?b1 = all_subs b"
    by (simp_all add: dispatch_order_def all_subs_def)
  have "\<forall>m \<in> set q. filters_total m ?b1"
    using Cons.prems(3) by (simp add: q filters_total_def same)
  with Cons.hyps(1) [of ?b1] Cons.prems show ?case
    by (simp add: q step same)
qed

theorem dispatch_drains_in_order_witness:
  "bus_queue (fst (dispatch_n 1 (demo_bus None))) = []"
  using dispatch_drains_in_order [of "demo_bus None"] by (simp add: demo_simps)

end
