(* ===== verification/SharedState.thy ===== *)
theory SharedState
  imports Prelude
begin

text \<open>
  The versioned key-value store with time-to-live of
  \<^verbatim>\<open>src/agent/coordination/shared_state.py\<close>.

  The store is the record \<open>shared_state\<close>. Every operation takes the clock reading \<open>now\<close> first;
  it holds for the whole operation. Operations that notify return the trace of the notified
  observers (identity, event, whether the observer raised) beside their result. The operations
  run under the lock up to their first \<open>await\<close>, which comes after the change is logged, so each
  is one step. Entries are returned by value: mutating a returned entry is not modelled, nor are
  observers that call back into the store.
\<close>

section \<open>Data model\<close>

record state_entry =
  ent_key :: string
  ent_value :: pyval
  ent_version :: int
  ent_created_at :: time
  ent_updated_at :: time
  ent_ttl :: "rat option"
  ent_created_by :: string

datatype StateChangeType = SET | DELETE | EXPIRED

record state_event =
  change_type :: StateChangeType
  ev_key :: string
  ev_value :: pyval
  ev_old_value :: pyval
  ev_version :: int
  ev_timestamp :: time
  ev_source :: string

record observer =
  obs_oid :: nat
  obs_raises :: "state_event \<Rightarrow> bool"

record shared_state =
  ss_store :: "(string, state_entry) dict"
  change_log :: "state_event list"
  ss_observers :: "observer list"
  cleanup_task :: bool

type_synonym notified = "(nat \<times> state_event \<times> bool) list"

definition ss_init :: shared_state where
  "ss_init = \<lparr>ss_store = [], change_log = [], ss_observers = [], cleanup_task = False\<rparr>"

section \<open>Expiry\<close>

definition is_expired :: "time \<Rightarrow> state_entry \<Rightarrow> bool" where
  "is_expired now e =
     (case ent_ttl e of None \<Rightarrow> False | Some ttl \<Rightarrow> now - ent_updated_at e > ttl)"

definition delete_unlocked :: "string \<Rightarrow> shared_state \<Rightarrow> shared_state" where
  "delete_unlocked key s = s\<lparr>ss_store := dict_del key (ss_store s)\<rparr>"

definition sweep_expired_unlocked :: "time \<Rightarrow> shared_state \<Rightarrow> shared_state" where
  "sweep_expired_unlocked now s =
     fold delete_unlocked (dict_keys (filter (\<lambda>(k, e). is_expired now e) (ss_store s))) s"

section \<open>Observers\<close>

definition notify_observers :: "state_event \<Rightarrow> shared_state \<Rightarrow> notified" where
  "notify_observers ev s = map (\<lambda>obs. (obs_oid obs, ev, obs_raises obs ev)) (ss_observers s)"

definition observe :: "observer \<Rightarrow> shared_state \<Rightarrow> shared_state" where
  "observe obs s = s\<lparr>ss_observers := ss_observers s @ [obs]\<rparr>"

definition unobserve :: "nat \<Rightarrow> shared_state \<Rightarrow> shared_state" where
  "unobserve oid s = s\<lparr>ss_observers := filter (\<lambda>ob. obs_oid ob \<noteq> oid) (ss_observers s)\<rparr>"

definition log_event :: "state_event \<Rightarrow> shared_state \<Rightarrow> shared_state \<times> notified" where
  "log_event ev s =
     (let s1 = s\<lparr>change_log := deque_append 1000 (change_log s) ev\<rparr> in (s1, notify_observers ev s1))"

section \<open>Operations\<close>

definition st_set ::
    "time \<Rightarrow> string \<Rightarrow> pyval \<Rightarrow> string \<Rightarrow> rat option \<Rightarrow> shared_state
     \<Rightarrow> state_entry \<times> shared_state \<times> notified" where
  "st_set now key v source ttl s =
     (let (old_value, entry) =
        (case dict_get (ss_store s) key of
           Some e \<Rightarrow>
             (ent_value e,
              e\<lparr>ent_value := v, ent_version := ent_version e + 1, ent_updated_at := now,
                ent_ttl := (case ttl of None \<Rightarrow> ent_ttl e | Some t \<Rightarrow> Some t),
                ent_created_by := source\<rparr>)
         | None \<Rightarrow>
             (PNone,
              \<lparr>ent_key = key, ent_value = v, ent_version = 1, ent_created_at = now,
               ent_updated_at = now, ent_ttl = ttl, ent_created_by = source\<rparr>));
          s1 = s\<lparr>ss_store := dict_put key entry (ss_store s)\<rparr>;
          (s2, ns) = log_event \<lparr>change_type = SET, ev_key = key, ev_value = v,
            ev_old_value = old_value, ev_version = ent_version entry, ev_timestamp = now,
            ev_source = source\<rparr> s1
      in (entry, s2, ns))"

definition st_get_entry :: "time \<Rightarrow> string \<Rightarrow> shared_state \<Rightarrow> state_entry option \<times> shared_state" where
  "st_get_entry now key s =
     (case dict_get (ss_store s) key of
        None \<Rightarrow> (None, s)
      | Some e \<Rightarrow> if is_expired now e then (None, delete_unlocked key s) else (Some e, s))"

definition st_get :: "time \<Rightarrow> string \<Rightarrow> shared_state \<Rightarrow> pyval \<times> shared_state" where
  "st_get now key s =
     (case dict_get (ss_store s) key of
        None \<Rightarrow> (PNone, s)
      | Some e \<Rightarrow> if is_expired now e then (PNone, delete_unlocked key s) else (ent_value e, s))"

definition st_exists :: "time \<Rightarrow> string \<Rightarrow> shared_state \<Rightarrow> bool \<times> shared_state" where
  "st_exists now key s =
     (case dict_get (ss_store s) key of
        None \<Rightarrow> (False, s)
      | Some e \<Rightarrow> if is_expired now e then (False, delete_unlocked key s) else (True, s))"

definition st_delete ::
    "time \<Rightarrow> string \<Rightarrow> string \<Rightarrow> shared_state \<Rightarrow> bool \<times> shared_state \<times> notified" where
  "st_delete now key source s =
     (case dict_get (ss_store s) key of
        None \<Rightarrow> (False, s, [])
      | Some e \<Rightarrow>
          (let (s2, ns) = log_event \<lparr>change_type = DELETE, ev_key = key, ev_value = PNone,
                 ev_old_value = ent_value e, ev_version = ent_version e, ev_timestamp = now,
                 ev_source = source\<rparr> (delete_unlocked key s)
           in (True, s2, ns)))"

definition st_keys :: "time \<Rightarrow> shared_state \<Rightarrow> string list \<times> shared_state" where
  "st_keys now s = (let s1 = sweep_expired_unlocked now s in (dict_keys (ss_store s1), s1))"

definition st_items :: "time \<Rightarrow> shared_state \<Rightarrow> (string, pyval) dict \<times> shared_state" where
  "st_items now s =
     (let s1 = sweep_expired_unlocked now s in (map (\<lambda>(k, e). (k, ent_value e)) (ss_store s1), s1))"

definition st_clear :: "shared_state \<Rightarrow> nat \<times> shared_state" where
  "st_clear s = (length (ss_store s), s\<lparr>ss_store := []\<rparr>)"

text \<open>The common tail of \<open>atomic_update\<close> and \<open>compare_and_set\<close>: overwrite a present entry.\<close>

definition overwrite ::
    "time \<Rightarrow> string \<Rightarrow> state_entry \<Rightarrow> pyval \<Rightarrow> string \<Rightarrow> shared_state \<Rightarrow> shared_state \<times> notified" where
  "overwrite now key e v source s =
     (let e1 = e\<lparr>ent_value := v, ent_version := ent_version e + 1, ent_updated_at := now,
                 ent_created_by := source\<rparr>
      in log_event \<lparr>change_type = SET, ev_key = key, ev_value = v, ev_old_value = ent_value e,
           ev_version = ent_version e1, ev_timestamp = now, ev_source = source\<rparr>
           (s\<lparr>ss_store := dict_put key e1 (ss_store s)\<rparr>))"

text \<open>The updater may raise; the lock is then released and the entry is as before.\<close>

definition st_atomic_update ::
    "time \<Rightarrow> string \<Rightarrow> (pyval \<Rightarrow> exn + pyval) \<Rightarrow> string \<Rightarrow> shared_state
     \<Rightarrow> (exn + pyval) \<times> shared_state \<times> notified" where
  "st_atomic_update now key updater source s =
     (case dict_get (ss_store s) key of
        None \<Rightarrow> (Inr PNone, s, [])
      | Some e \<Rightarrow>
          if is_expired now e then (Inr PNone, delete_unlocked key s, [])
          else (case updater (ent_value e) of
                  Inl err \<Rightarrow> (Inl err, s, [])
                | Inr v \<Rightarrow> (let (s1, ns) = overwrite now key e v source s in (Inr v, s1, ns))))"

definition st_compare_and_set ::
    "time \<Rightarrow> string \<Rightarrow> pyval \<Rightarrow> pyval \<Rightarrow> string \<Rightarrow> shared_state \<Rightarrow> bool \<times> shared_state \<times> notified" where
  "st_compare_and_set now key expected v source s =
     (case dict_get (ss_store s) key of
        None \<Rightarrow> (False, s, [])
      | Some e \<Rightarrow>
          if is_expired now e then (False, delete_unlocked key s, [])
          else if \<not> py_eq (ent_value e) expected then (False, s, [])
          else (let (s1, ns) = overwrite now key e v source s in (True, s1, ns)))"

section \<open>History, statistics, cleanup\<close>

definition get_change_history :: "int \<Rightarrow> shared_state \<Rightarrow> state_event list" where
  "get_change_history limit s = py_last limit (change_log s)"

definition ss_get_stats :: "time \<Rightarrow> shared_state \<Rightarrow> (string, nat) dict" where
  "ss_get_stats now s =
     [(''total_keys'', length (ss_store s)),
      (''expired_pending'', length (filter (is_expired now) (dict_values (ss_store s)))),
      (''total_changes'', length (change_log s)),
      (''observer_count'', length (ss_observers s))]"

fun log_events :: "state_event list \<Rightarrow> shared_state \<Rightarrow> shared_state \<times> notified" where
  "log_events [] s = (s, [])"
| "log_events (ev # evs) s =
     (let (s1, ns) = log_event ev s; (s2, ms) = log_events evs s1 in (s2, ns @ ms))"

definition expiry_event :: "time \<Rightarrow> state_entry \<Rightarrow> state_event" where
  "expiry_event now e = \<lparr>change_type = EXPIRED, ev_key = ent_key e, ev_value = PNone,
     ev_old_value = ent_value e, ev_version = ent_version e, ev_timestamp = now,
     ev_source = ''ttl_cleanup''\<rparr>"

definition cleanup_expired :: "time \<Rightarrow> shared_state \<Rightarrow> shared_state \<times> notified" where
  "cleanup_expired now s =
     (let gone = filter (\<lambda>(k, e). is_expired now e) (ss_store s)
      in log_events (map (\<lambda>(k, e). expiry_event now e) gone)
           (fold delete_unlocked (dict_keys gone) s))"

definition start_ttl_cleanup :: "shared_state \<Rightarrow> shared_state" where
  "start_ttl_cleanup s = (if cleanup_task s then s else s\<lparr>cleanup_task := True\<rparr>)"

definition stop_ttl_cleanup :: "shared_state \<Rightarrow> shared_state" where
  "stop_ttl_cleanup s = (if cleanup_task s then s\<lparr>cleanup_task := False\<rparr> else s)"

section \<open>The observable map\<close>

text \<open>What a reader at time \<open>t\<close> sees: the values of the entries that have not expired by then.\<close>

definition view_entry :: "time \<Rightarrow> shared_state \<Rightarrow> string \<Rightarrow> state_entry option" where
  "view_entry t s k =
     (case dict_get (ss_store s) k of
        None \<Rightarrow> None | Some e \<Rightarrow> if is_expired t e then None else Some e)"

definition view :: "time \<Rightarrow> shared_state \<Rightarrow> string \<Rightarrow> pyval option" where
  "view t s k = map_option ent_value (view_entry t s k)"

lemma is_expired_mono: "is_expired now e \<Longrightarrow> now \<le> t \<Longrightarrow> is_expired t e"
  by (auto simp: is_expired_def split: option.splits)

lemma fold_delete_unlocked [simp]:
  "fold delete_unlocked ks s = s\<lparr>ss_store := fold dict_del ks (ss_store s)\<rparr>"
  by (induction ks arbitrary: s) (simp_all add: delete_unlocked_def)

lemma get_sweep:
  assumes "dict_wf d"
  shows "dict_get (fold dict_del (dict_keys (filter (\<lambda>(k, e). is_expired now e) d)) d) k =
     (case dict_get d k of None \<Rightarrow> None | Some e \<Rightarrow> if is_expired now e then None else Some e)"
  using dict_mem_get [OF assms]
  by (force simp: pydict.get_dels split: option.splits)

lemma view_entry_delete_unlocked:
  "view_entry t (delete_unlocked key s) = (view_entry t s)(key := None)"
  by (auto simp: view_entry_def delete_unlocked_def)

lemma view_delete_unlocked: "view t (delete_unlocked key s) = (view t s)(key := None)"
  by (auto simp: view_def view_entry_delete_unlocked)

lemma view_drop_expired:
  assumes "dict_get (ss_store s) key = Some e" and "is_expired now e" and "now \<le> t"
  shows "view t (delete_unlocked key s) = view t s"
  using is_expired_mono [OF assms(2,3)] assms(1)
  by (auto simp: view_delete_unlocked view_def view_entry_def)

lemma view_sweep:
  "dict_wf (ss_store s) \<Longrightarrow> now \<le> t \<Longrightarrow> view t (sweep_expired_unlocked now s) = view t s"
  by (auto simp: fun_eq_iff view_def view_entry_def sweep_expired_unlocked_def get_sweep
      dest: is_expired_mono split: option.splits)

lemma log_event_simps [simp]:
  "ss_store (fst (log_event ev s)) = ss_store s"
  "ss_observers (fst (log_event ev s)) = ss_observers s"
  "change_log (fst (log_event ev s)) = deque_append 1000 (change_log s) ev"
  "cleanup_task (fst (log_event ev s)) = cleanup_task s"
  "snd (log_event ev s) = notify_observers ev s"
  by (simp_all add: log_event_def Let_def notify_observers_def)

lemma log_events_simps [simp]:
  "ss_store (fst (log_events evs s)) = ss_store s"
  "ss_observers (fst (log_events evs s)) = ss_observers s"
  "change_log (fst (log_events evs s)) = fold (\<lambda>ev l. deque_append 1000 l ev) evs (change_log s)"
  "snd (log_events evs s) = concat (map (\<lambda>ev. notify_observers ev s) evs)"
  by (induction evs arbitrary: s) (auto simp: split_beta Let_def notify_observers_def)

text \<open>A time-to-live that a fresh write does not outlive at once.\<close>

definition ttl_ok :: "rat option \<Rightarrow> bool" where
  "ttl_ok ttl = (case ttl of None \<Rightarrow> True | Some t \<Rightarrow> 0 \<le> t)"

lemma fresh_not_expired: "ent_updated_at e = now \<Longrightarrow> ttl_ok (ent_ttl e) \<Longrightarrow> \<not> is_expired now e"
  by (auto simp: is_expired_def ttl_ok_def split: option.splits)

definition effective_ttl :: "string \<Rightarrow> rat option \<Rightarrow> shared_state \<Rightarrow> rat option" where
  "effective_ttl key ttl s =
     (case ttl of Some t \<Rightarrow> Some t
      | None \<Rightarrow> (case dict_get (ss_store s) key of None \<Rightarrow> None | Some e \<Rightarrow> ent_ttl e))"

lemma st_set_store:
  "st_set now key v src ttl s = (e, s', ns) \<Longrightarrow>
     ss_store s' = dict_put key e (ss_store s) \<and> ent_value e = v \<and> ent_updated_at e = now \<and>
     ent_ttl e = effective_ttl key ttl s \<and>
     ent_version e = (case dict_get (ss_store s) key of None \<Rightarrow> 1 | Some e' \<Rightarrow> ent_version e' + 1)"
  by (cases "dict_get (ss_store s) key")
     (auto simp: st_set_def Let_def effective_ttl_def log_event_def split: option.splits)

lemma st_set_last_log:
  assumes "st_set now key v src ttl s = (e, s', ns)"
  shows "ev_old_value (last (change_log s')) =
    (case dict_get (ss_store s) key of None \<Rightarrow> PNone | Some e' \<Rightarrow> ent_value e')"
  using assms by (cases "dict_get (ss_store s) key")
    (auto simp: st_set_def Let_def log_event_def last_deque_append)

lemma view_set:
  assumes "st_set now key v src ttl s = (e, s', ns)" and "ttl_ok (effective_ttl key ttl s)"
  shows "view now s' = (view now s)(key \<mapsto> v)"
  using st_set_store [OF assms(1)] assms(2) fresh_not_expired [of e now]
  by (auto simp: fun_eq_iff view_def view_entry_def)

lemma overwrite_store:
  "overwrite now key e v src s = (s', ns) \<Longrightarrow>
     ss_store s' = dict_put key (e\<lparr>ent_value := v, ent_version := ent_version e + 1,
       ent_updated_at := now, ent_created_by := src\<rparr>) (ss_store s)"
  by (auto simp: overwrite_def log_event_def Let_def)

lemma view_overwrite:
  assumes "overwrite now key e v src s = (s', ns)" and "ttl_ok (ent_ttl e)"
  shows "view now s' = (view now s)(key \<mapsto> v)"
  using overwrite_store [OF assms(1)] assms(2)
    fresh_not_expired [of "e\<lparr>ent_value := v, ent_version := ent_version e + 1,
      ent_updated_at := now, ent_created_by := src\<rparr>" now]
  by (auto simp: fun_eq_iff view_def view_entry_def)

section \<open>Invariant and runs\<close>

definition entry_ok :: "time \<Rightarrow> string \<Rightarrow> state_entry \<Rightarrow> bool" where
  "entry_ok now k e \<longleftrightarrow> ent_key e = k \<and> 1 \<le> ent_version e \<and>
     ent_created_at e \<le> ent_updated_at e \<and> ent_updated_at e \<le> now"

definition ss_inv :: "time \<Rightarrow> shared_state \<Rightarrow> bool" where
  "ss_inv now s \<longleftrightarrow> dict_wf (ss_store s) \<and>
     (\<forall>k e. dict_get (ss_store s) k = Some e \<longrightarrow> entry_ok now k e) \<and> length (change_log s) \<le> 1000"

lemma ss_inv_init: "ss_inv now ss_init"
  by (simp add: ss_inv_def ss_init_def)

lemma ss_inv_later: "ss_inv now s \<Longrightarrow> now \<le> t \<Longrightarrow> ss_inv t s"
  by (force simp: ss_inv_def entry_ok_def)

lemma ss_inv_cong:
  "ss_inv now s \<Longrightarrow> ss_store s' = ss_store s \<Longrightarrow> length (change_log s') \<le> 1000 \<Longrightarrow> ss_inv now s'"
  by (simp add: ss_inv_def)

lemma ss_inv_dels:
  "ss_inv now s \<Longrightarrow> ss_inv now (s\<lparr>ss_store := fold dict_del ks (ss_store s)\<rparr>)"
  by (auto simp: ss_inv_def pydict.get_dels pydict.wf_dels)

lemma ss_inv_delete_unlocked: "ss_inv now s \<Longrightarrow> ss_inv now (delete_unlocked k s)"
  using ss_inv_dels [of now s "[k]"] by (simp add: delete_unlocked_def)

lemma ss_inv_put:
  "ss_inv now s \<Longrightarrow> entry_ok now k e \<Longrightarrow> ss_inv now (s\<lparr>ss_store := dict_put k e (ss_store s)\<rparr>)"
  by (simp add: ss_inv_def)

lemma ss_inv_log_event: "ss_inv now s \<Longrightarrow> ss_inv now (fst (log_event ev s))"
  by (erule ss_inv_cong) (simp_all add: length_deque_append)

lemma ss_inv_log_events: "ss_inv now s \<Longrightarrow> ss_inv now (fst (log_events evs s))"
  by (induction evs arbitrary: s) (auto simp: split_beta Let_def intro: ss_inv_log_event)

lemma entry_ok_of: "ss_inv now s \<Longrightarrow> dict_get (ss_store s) k = Some e \<Longrightarrow> entry_ok now k e"
  by (simp add: ss_inv_def)

lemma ss_inv_set:
  assumes "ss_inv now s"
  shows "ss_inv now (fst (snd (st_set now key v src ttl s)))"
  using assms entry_ok_of [OF assms, of key]
  by (auto simp: st_set_def Let_def split_beta entry_ok_def
      intro!: ss_inv_log_event ss_inv_put split: option.splits)

lemma ss_inv_overwrite:
  assumes "ss_inv now s" and "dict_get (ss_store s) key = Some e"
  shows "ss_inv now (fst (overwrite now key e v src s))"
  using entry_ok_of [OF assms]
  by (auto simp: overwrite_def Let_def entry_ok_def intro!: ss_inv_log_event ss_inv_put assms(1))

text \<open>A step of the store: one operation at one clock reading.\<close>

inductive ss_step :: "time \<Rightarrow> shared_state \<Rightarrow> shared_state \<Rightarrow> bool" where
  ss_set: "ss_step now s (fst (snd (st_set now key v src ttl s)))"
| ss_get: "ss_step now s (snd (st_get now key s))"
| ss_get_entry: "ss_step now s (snd (st_get_entry now key s))"
| ss_exists: "ss_step now s (snd (st_exists now key s))"
| ss_delete: "ss_step now s (fst (snd (st_delete now key src s)))"
| ss_keys: "ss_step now s (snd (st_keys now s))"
| ss_items: "ss_step now s (snd (st_items now s))"
| ss_clear: "ss_step now s (snd (st_clear s))"
| ss_atomic: "ss_step now s (fst (snd (st_atomic_update now key f src s)))"
| ss_cas: "ss_step now s (fst (snd (st_compare_and_set now key x v src s)))"
| ss_observe: "ss_step now s (observe ob s)"
| ss_unobserve: "ss_step now s (unobserve oid s)"
| ss_cleanup: "ss_step now s (fst (cleanup_expired now s))"
| ss_start: "ss_step now s (start_ttl_cleanup s)"
| ss_stop: "ss_step now s (stop_ttl_cleanup s)"

text \<open>Runs with a clock that does not go backwards.\<close>

inductive ss_run :: "time \<Rightarrow> shared_state \<Rightarrow> bool" where
  ss_run_init: "ss_run t ss_init"
| ss_run_step: "ss_run t s \<Longrightarrow> t \<le> t' \<Longrightarrow> ss_step t' s s' \<Longrightarrow> ss_run t' s'"

lemma ss_inv_step: "ss_step now s s' \<Longrightarrow> ss_inv now s \<Longrightarrow> ss_inv now s'"
proof (induction rule: ss_step.induct)
  case (ss_observe now s ob)
  then show ?case by (simp add: observe_def ss_inv_def)
next
  case (ss_unobserve now s oid)
  then show ?case by (simp add: unobserve_def ss_inv_def)
next
  case (ss_start now s)
  then show ?case by (simp add: start_ttl_cleanup_def ss_inv_def)
next
  case (ss_stop now s)
  then show ?case by (simp add: stop_ttl_cleanup_def ss_inv_def)
next
  case (ss_clear now s)
  then show ?case by (simp add: st_clear_def ss_inv_def)
next
  case (ss_cleanup now s)
  then show ?case by (simp add: cleanup_expired_def Let_def ss_inv_log_events ss_inv_dels)
qed (auto simp: ss_inv_set st_get_def st_get_entry_def st_exists_def st_delete_def st_keys_def
    st_items_def st_atomic_update_def st_compare_and_set_def sweep_expired_unlocked_def Let_def
    split_beta ss_inv_delete_unlocked ss_inv_overwrite ss_inv_log_event ss_inv_dels
    split: option.splits sum.splits)

lemma ss_inv_run: "ss_run t s \<Longrightarrow> ss_inv t s"
  by (induction rule: ss_run.induct) (auto intro: ss_inv_init ss_inv_step ss_inv_later)

section \<open>Versions\<close>

text \<open>What one step does to one entry: nothing, its removal, or a write with the next version.\<close>

definition entry_change :: "state_entry option \<Rightarrow> state_entry option \<Rightarrow> bool" where
  "entry_change old new \<longleftrightarrow> new = old \<or> new = None \<or>
     (\<exists>e. new = Some e \<and>
        ent_version e = (case old of None \<Rightarrow> 1 | Some e0 \<Rightarrow> ent_version e0 + 1))"

lemma entry_change_simps [simp]: "entry_change x x" "entry_change x None"
  by (simp_all add: entry_change_def)

lemma entry_change_dels: "entry_change (dict_get d k) (dict_get (fold dict_del ks d) k)"
  by (simp add: pydict.get_dels)

lemma entry_change_del: "entry_change (dict_get d k) (dict_get (dict_del k' d) k)"
  by simp

lemma entry_change_overwrite:
  assumes "dict_get (ss_store s) key = Some e" and "dict_get (ss_store s) k = old"
  shows "entry_change old (dict_get (ss_store (fst (overwrite now key e v src s))) k)"
  using overwrite_store [OF prod.collapse [symmetric], of now key e v src s] assms
  by (auto simp: entry_change_def)

lemma entry_change_set:
  "entry_change (dict_get (ss_store s) k)
     (dict_get (ss_store (fst (snd (st_set now key v src ttl s)))) k)"
proof -
  obtain e s' ns where eq: "st_set now key v src ttl s = (e, s', ns)" by (metis prod_cases3)
  from st_set_store [OF eq] show ?thesis by (auto simp: eq entry_change_def)
qed

lemma entry_change_step:
  "ss_step now s s' \<Longrightarrow> entry_change (dict_get (ss_store s) k) (dict_get (ss_store s') k)"
  by (induction rule: ss_step.induct)
     (auto simp: entry_change_set st_get_def st_get_entry_def st_exists_def st_delete_def st_keys_def
        st_items_def st_clear_def st_atomic_update_def st_compare_and_set_def observe_def unobserve_def
        cleanup_expired_def start_ttl_cleanup_def stop_ttl_cleanup_def sweep_expired_unlocked_def
        Let_def split_beta delete_unlocked_def entry_change_overwrite pydict.get_dels
        split: option.splits sum.splits)

text \<open>Runs during which the key stays in the store.\<close>

inductive ss_run_with :: "string \<Rightarrow> shared_state \<Rightarrow> shared_state \<Rightarrow> bool" for k where
  with_refl: "ss_run_with k s s"
| with_step: "ss_run_with k s s1 \<Longrightarrow> ss_step t s1 s2 \<Longrightarrow> dict_get (ss_store s2) k \<noteq> None \<Longrightarrow>
     ss_run_with k s s2"

lemma versions_grow:
  "ss_run_with k s s' \<Longrightarrow> dict_get (ss_store s) k = Some e \<Longrightarrow>
     \<exists>e'. dict_get (ss_store s') k = Some e' \<and> ent_version e \<le> ent_version e' \<and>
       (ent_version e' = ent_version e \<longrightarrow> e' = e)"
proof (induction rule: ss_run_with.induct)
  case (with_step s s1 t s2)
  then obtain e1 where e1: "dict_get (ss_store s1) k = Some e1" "ent_version e \<le> ent_version e1"
    "ent_version e1 = ent_version e \<longrightarrow> e1 = e" by auto
  from entry_change_step [OF with_step.hyps(2), of k] with_step.hyps(3) e1 show ?case
    by (auto simp: entry_change_def)
qed auto

section \<open>The store as an interface\<close>

text \<open>What a client relies on: writes at a key determine what is read there, and nowhere else.\<close>

locale kv_store =
  fixes wr :: "'k \<Rightarrow> 'v \<Rightarrow> 's \<Rightarrow> 's"
    and erase :: "'k \<Rightarrow> 's \<Rightarrow> 's"
    and look :: "'s \<Rightarrow> 'k \<Rightarrow> 'v option"
    and ok :: "'s \<Rightarrow> bool"
  assumes look_write: "ok s \<Longrightarrow> look (wr k v s) k' = (if k' = k then Some v else look s k')"
    and look_erase: "ok s \<Longrightarrow> look (erase k s) k' = (if k' = k then None else look s k')"
    and ok_write: "ok s \<Longrightarrow> ok (wr k v s)"
    and ok_erase: "ok s \<Longrightarrow> ok (erase k s)"
begin

lemma ok_writes: "ok s \<Longrightarrow> ok (fold (\<lambda>(k, v). wr k v) kvs s)"
  by (induction kvs arbitrary: s) (auto intro: ok_write)

lemma look_writes:
  "ok s \<Longrightarrow> look (fold (\<lambda>(k, v). wr k v) kvs s) k =
     (case map_of (rev kvs) k of None \<Rightarrow> look s k | Some v \<Rightarrow> Some v)"
  by (induction kvs arbitrary: s) (auto simp: look_write ok_write map_add_def split: option.splits)

lemma look_erase_write: "ok s \<Longrightarrow> look (erase k (wr k v s)) k' = (if k' = k then None else look s k')"
  by (simp add: look_write look_erase ok_write)

end

text \<open>No entry of the store has a negative time-to-live.\<close>

definition ttls_ok :: "shared_state \<Rightarrow> bool" where
  "ttls_ok s \<longleftrightarrow> (\<forall>k e. dict_get (ss_store s) k = Some e \<longrightarrow> ttl_ok (ent_ttl e))"

definition state_write :: "time \<Rightarrow> string \<Rightarrow> string \<Rightarrow> pyval \<Rightarrow> shared_state \<Rightarrow> shared_state" where
  "state_write now src key v s = fst (snd (st_set now key v src None s))"

definition state_erase :: "time \<Rightarrow> string \<Rightarrow> string \<Rightarrow> shared_state \<Rightarrow> shared_state" where
  "state_erase now src key s = fst (snd (st_delete now key src s))"

lemma ttls_ok_effective: "ttls_ok s \<Longrightarrow> ttl_ok (effective_ttl key None s)"
  by (auto simp: ttls_ok_def effective_ttl_def ttl_ok_def split: option.splits)

lemma ttls_ok_set:
  assumes "ttls_ok s" and "ttl_ok (effective_ttl key ttl s)"
    and "st_set now key v src ttl s = (e, s', ns)"
  shows "ttls_ok s'"
  using st_set_store [OF assms(3)] assms(1,2) by (auto simp: ttls_ok_def)

lemma view_delete:
  assumes "st_delete now key src s = (r, s', ns)"
  shows "view t s' = (view t s)(key := None) \<and> (r \<longleftrightarrow> dict_get (ss_store s) key \<noteq> None)"
proof (cases "dict_get (ss_store s) key")
  case None
  with assms show ?thesis by (auto simp: st_delete_def view_def view_entry_def)
next
  case (Some e)
  with assms have "ss_store s' = ss_store (delete_unlocked key s) \<and> r"
    by (auto simp: st_delete_def log_event_def Let_def)
  then have "view t s' = view t (delete_unlocked key s) \<and> r"
    by (auto simp: fun_eq_iff view_def view_entry_def)
  with Some show ?thesis by (simp add: view_delete_unlocked)
qed

lemma ttls_ok_delete: "ttls_ok s \<Longrightarrow> ttls_ok (fst (snd (st_delete now key src s)))"
  by (auto simp: ttls_ok_def st_delete_def delete_unlocked_def split_beta Let_def split: option.splits)

interpretation ss_at: kv_store "state_write now src" "state_erase now src" "view now" ttls_ok for now src
proof unfold_locales
  fix s :: shared_state and k k' v
  assume ok: "ttls_ok s"
  obtain e s' ns where eq: "st_set now k v src None s = (e, s', ns)" by (metis prod_cases3)
  show "view now (state_write now src k v s) k' = (if k' = k then Some v else view now s k')"
    using view_set [OF eq ttls_ok_effective [OF ok]] by (simp add: state_write_def eq)
  show "ttls_ok (state_write now src k v s)"
    using ttls_ok_set [OF ok ttls_ok_effective [OF ok] eq] by (simp add: state_write_def eq)
  show "view now (state_erase now src k s) k' = (if k' = k then None else view now s k')"
    by (cases "st_delete now k src s") (auto simp: state_erase_def dest: view_delete [where t = now])
  show "ttls_ok (state_erase now src k s)"
    using ttls_ok_delete [OF ok] by (simp add: state_erase_def)
qed

section \<open>Properties\<close>

lemma view_atomic_update:
  assumes "ttls_ok s" and "st_atomic_update now key f src s = (r, s', ns)"
  shows "(case view now s key of
            None \<Rightarrow> r = Inr PNone \<and> view now s' = view now s
          | Some u \<Rightarrow> r = f u \<and>
              view now s' = (case f u of Inl _ \<Rightarrow> view now s | Inr v \<Rightarrow> (view now s)(key \<mapsto> v)))"
proof (cases "dict_get (ss_store s) key")
  case None
  with assms(2) show ?thesis by (simp add: st_atomic_update_def view_def view_entry_def)
next
  case (Some e)
  with assms(1) have ttl: "ttl_ok (ent_ttl e)" by (auto simp: ttls_ok_def)
  show ?thesis
  proof (cases "is_expired now e")
    case True
    with Some assms(2) view_drop_expired [OF Some True order_refl] show ?thesis
      by (auto simp: st_atomic_update_def view_def view_entry_def)
  next
    case False
    with Some have "view now s key = Some (ent_value e)" by (simp add: view_def view_entry_def)
    with Some False assms(2) show ?thesis
      by (auto simp: st_atomic_update_def Let_def dest: view_overwrite [OF _ ttl]
          split: sum.splits prod.splits)
  qed
qed

lemma view_compare_and_set:
  assumes "ttls_ok s" and "st_compare_and_set now key x v src s = (r, s', ns)"
  shows "(r \<longleftrightarrow> (\<exists>u. view now s key = Some u \<and> py_eq u x)) \<and>
    view now s' = (if r then (view now s)(key \<mapsto> v) else view now s)"
proof (cases "dict_get (ss_store s) key")
  case None
  with assms(2) show ?thesis by (auto simp: st_compare_and_set_def view_def view_entry_def)
next
  case (Some e)
  with assms(1) have ttl: "ttl_ok (ent_ttl e)" by (auto simp: ttls_ok_def)
  show ?thesis
  proof (cases "is_expired now e")
    case True
    with Some assms(2) view_drop_expired [OF Some True order_refl] show ?thesis
      by (auto simp: st_compare_and_set_def view_def view_entry_def)
  next
    case False
    with Some have "view now s key = Some (ent_value e)" by (simp add: view_def view_entry_def)
    with Some False assms(2) show ?thesis
      by (auto simp: st_compare_and_set_def Let_def dest: view_overwrite [OF _ ttl]
          split: if_splits prod.splits)
  qed
qed

text \<open>
  C3. Refinement of the writes: seen through the entries that have not expired, setting, deleting,
  updating and comparing-and-setting are the updates of an abstract map. Compare-and-set succeeds
  exactly when the key holds an equal value; an update of a missing key or with a raising updater
  changes nothing; other keys are never affected.
\<close>

theorem state_writes_refine_map:
  assumes "ttls_ok s" and "ttl_ok ttl"
    and "st_set now key v src ttl s = (e, s1, n1)"
    and "st_delete now key src s = (deleted, s2, n2)"
    and "st_atomic_update now key f src s = (r, s3, n3)"
    and "st_compare_and_set now key x v src s = (swapped, s4, n4)"
  shows "view now s1 = (view now s)(key \<mapsto> v) \<and>
    view now s2 = (view now s)(key := None) \<and>
    (case view now s key of
       None \<Rightarrow> r = Inr PNone \<and> view now s3 = view now s
     | Some u \<Rightarrow> r = f u \<and>
         view now s3 = (case f u of Inl _ \<Rightarrow> view now s | Inr w \<Rightarrow> (view now s)(key \<mapsto> w))) \<and>
    (swapped \<longleftrightarrow> (\<exists>u. view now s key = Some u \<and> py_eq u x)) \<and>
    view now s4 = (if swapped then (view now s)(key \<mapsto> v) else view now s)"
proof -
  have "ttl_ok (effective_ttl key ttl s)"
    using assms(1,2) by (auto simp: ttls_ok_def effective_ttl_def ttl_ok_def split: option.splits)
  then show ?thesis
    using view_set [OF assms(3)] view_delete [OF assms(4), of now]
      view_atomic_update [OF assms(1,5)] view_compare_and_set [OF assms(1,6)] by blast
qed

theorem state_writes_refine_map_witness:
  "view 0 (fst (snd (st_set 0 ''k'' (PInt 1) ''x'' None ss_init))) ''k'' = Some (PInt 1)"
  using state_writes_refine_map [of ss_init None 0 "''k''" "PInt 1" "''x''"
      "fst (st_set 0 ''k'' (PInt 1) ''x'' None ss_init)"
      "fst (snd (st_set 0 ''k'' (PInt 1) ''x'' None ss_init))"
      "snd (snd (st_set 0 ''k'' (PInt 1) ''x'' None ss_init))"
      False ss_init "[]" "\<lambda>v. Inr v" "Inr PNone" ss_init "[]" PNone False ss_init "[]"]
  by (simp add: ttls_ok_def ttl_ok_def ss_init_def st_delete_def st_atomic_update_def
      st_compare_and_set_def)

text \<open>
  C4. Refinement of the reads: they answer from the abstract map, and although they drop expired
  entries, no reader at that time or later sees a difference, and nothing is logged.
\<close>

theorem state_reads_observe_map:
  assumes "ss_run t s" and "t \<le> now" and "now \<le> later"
    and "st_get now key s = (v, s1)" and "st_exists now key s = (b, s2)"
    and "st_keys now s = (ks, s3)" and "st_items now s = (kvs, s4)"
  shows "v = (case view now s key of None \<Rightarrow> PNone | Some u \<Rightarrow> u) \<and>
    (b \<longleftrightarrow> view now s key \<noteq> None) \<and> set ks = dom (view now s) \<and> distinct ks \<and>
    dict_get kvs = view now s \<and>
    (\<forall>s' \<in> {s1, s2, s3, s4}. view later s' = view later s \<and> change_log s' = change_log s)"
proof -
  have inv: "ss_inv now s" by (rule ss_inv_later [OF ss_inv_run [OF assms(1)] assms(2)])
  then have wf: "dict_wf (ss_store s)" by (simp add: ss_inv_def)
  have get: "dict_get (ss_store (sweep_expired_unlocked now s)) k = view_entry now s k" for k
    using get_sweep [OF wf, of now k] by (simp add: sweep_expired_unlocked_def view_entry_def)
  have "set ks = dom (view now s)"
    using assms(6) by (auto simp: st_keys_def Let_def get view_def dict_in_keys simp del: set_map
        simp flip: set_map split: option.splits)
  moreover have "distinct ks"
    using assms(6) wf by (auto simp: st_keys_def Let_def sweep_expired_unlocked_def
        dest: pydict.wf_dels simp flip: dict_wf_def)
  moreover have "dict_get kvs = view now s"
    using assms(7) get by (auto simp: fun_eq_iff st_items_def Let_def view_def dict_get_def map_of_map
        split_beta simp flip: get)
  moreover have "v = (case view now s key of None \<Rightarrow> PNone | Some u \<Rightarrow> u) \<and>
      view later s1 = view later s \<and> change_log s1 = change_log s"
    using assms(4) view_drop_expired [OF _ _ assms(3)]
    by (auto simp: st_get_def view_def view_entry_def delete_unlocked_def split: option.splits if_splits)
  moreover have "(b \<longleftrightarrow> view now s key \<noteq> None) \<and>
      view later s2 = view later s \<and> change_log s2 = change_log s"
    using assms(5) view_drop_expired [OF _ _ assms(3)]
    by (auto simp: st_exists_def view_def view_entry_def delete_unlocked_def split: option.splits if_splits)
  moreover have "s3 = sweep_expired_unlocked now s \<and> s4 = sweep_expired_unlocked now s"
    using assms(6,7) by (simp add: st_keys_def st_items_def Let_def)
  moreover have "change_log (sweep_expired_unlocked now s) = change_log s"
    by (simp add: sweep_expired_unlocked_def)
  ultimately show ?thesis using view_sweep [OF wf assms(3)] by simp
qed

text \<open>An example run for the witnesses: one key with a time-to-live of one second, set at time 0.\<close>

definition demo_state :: shared_state where
  "demo_state = fst (snd (st_set 0 ''k'' (PInt 1) ''x'' (Some 1)
     (observe \<lparr>obs_oid = 7, obs_raises = (\<lambda>_. True)\<rparr> ss_init)))"

lemma demo_state_run: "ss_run 0 demo_state"
  unfolding demo_state_def
  by (rule ss_run_step [OF ss_run_step [OF ss_run_init order_refl ss_observe] order_refl ss_set])

lemma demo_state_eq:
  "demo_state =
     \<lparr>ss_store = [(''k'', \<lparr>ent_key = ''k'', ent_value = PInt 1, ent_version = 1, ent_created_at = 0,
                    ent_updated_at = 0, ent_ttl = Some 1, ent_created_by = ''x''\<rparr>)],
      change_log = [\<lparr>change_type = SET, ev_key = ''k'', ev_value = PInt 1, ev_old_value = PNone,
                    ev_version = 1, ev_timestamp = 0, ev_source = ''x''\<rparr>],
      ss_observers = [\<lparr>obs_oid = 7, obs_raises = (\<lambda>_. True)\<rparr>], cleanup_task = False\<rparr>"
  by (simp add: demo_state_def st_set_def ss_init_def observe_def log_event_def deque_append_def
      dict_put_def Let_def)

theorem state_reads_observe_map_witness:
  "fst (st_get 1 ''k'' demo_state) = PInt 1 \<and> fst (st_get 2 ''k'' demo_state) = PNone"
proof -
  have "fst (st_get now ''k'' demo_state) = (case view now demo_state ''k'' of None \<Rightarrow> PNone | Some u \<Rightarrow> u)"
    if "0 \<le> now" for now
    by (rule state_reads_observe_map [OF demo_state_run that order_refl prod.collapse [symmetric]
          prod.collapse [symmetric] prod.collapse [symmetric] prod.collapse [symmetric], THEN conjunct1])
  from this [of 1] this [of 2] show ?thesis
    by (simp add: demo_state_eq view_def view_entry_def is_expired_def)
qed

text \<open>
  Optimistic concurrency: as long as a key stays in the store, its version never decreases, and
  an unchanged version means an unchanged entry, whatever operations ran in between, so a
  reader that finds the version it remembers has missed no write.
\<close>

theorem same_version_same_entry:
  assumes "ss_run_with k s s'"
    and "dict_get (ss_store s) k = Some e" and "dict_get (ss_store s') k = Some e'"
  shows "ent_version e \<le> ent_version e' \<and> (ent_version e' = ent_version e \<longrightarrow> e' = e)"
  using versions_grow [OF assms(1,2)] assms(3) by auto

theorem same_version_same_entry_witness:
  "fst (st_set 3 ''k'' (PInt 9) ''y'' None demo_state) \<noteq> snd (hd (ss_store demo_state))"
proof -
  let ?r = "st_set 3 ''k'' (PInt 9) ''y'' None demo_state"
  have store: "dict_get (ss_store (fst (snd ?r))) ''k'' = Some (fst ?r)" "ent_version (fst ?r) = 2"
    by (simp_all add: demo_state_eq st_set_def Let_def log_event_def dict_put_def)
  have "ss_run_with ''k'' demo_state (fst (snd ?r))"
    by (rule with_step [OF with_refl ss_set]) (simp add: store)
  from same_version_same_entry [OF this, of "snd (hd (ss_store demo_state))"] store
  show ?thesis by (auto simp: demo_state_eq)
qed

text \<open>
  Every store reached by any operations under a clock that does not go backwards is well
  formed: one entry per key, filed under its own key, versions from 1, creation before update
  before now, and at most 1000 logged changes.
\<close>

theorem state_runs_keep_invariant: "ss_run t s \<Longrightarrow> ss_inv t s"
  by (rule ss_inv_run)

theorem state_runs_keep_invariant_witness: "ss_inv 0 demo_state"
  by (rule state_runs_keep_invariant [OF demo_state_run])

text \<open>
  Writing to a key whose entry has expired, but which no reader or sweep has removed yet, is
  not a fresh start: the entry is counted up from its old version, the expired value is
  reported as the old one, and without a new time-to-live the old one applies again; had any
  reader looked first, the version would be 1 and the entry would never expire.
\<close>

theorem set_revives_expired_entry:
  assumes "dict_get (ss_store s) key = Some e" and "is_expired now e"
    and "st_set now key v src None s = (e1, s1, ns)"
    and "st_set now key v src None (snd (st_get now key s)) = (e2, s2, ms)"
  shows "ent_version e1 = ent_version e + 1 \<and> ent_ttl e1 = ent_ttl e \<and> ent_ttl e1 \<noteq> None \<and>
    ev_old_value (last (change_log s1)) = ent_value e \<and>
    ent_version e2 = 1 \<and> ent_ttl e2 = None \<and> ev_old_value (last (change_log s2)) = PNone"
proof -
  have gone: "dict_get (ss_store (snd (st_get now key s))) key = None"
    using assms(1,2) by (simp add: st_get_def delete_unlocked_def)
  have "ent_ttl e \<noteq> None" using assms(2) by (auto simp: is_expired_def split: option.splits)
  with st_set_store [OF assms(3)] st_set_last_log [OF assms(3)]
    st_set_store [OF assms(4)] st_set_last_log [OF assms(4)] assms(1) gone
  show ?thesis by (simp add: effective_ttl_def)
qed

theorem set_revives_expired_entry_witness:
  "ent_version (fst (st_set 5 ''k'' PNone ''y'' None demo_state)) = 2"
  using set_revives_expired_entry [of demo_state "''k''" "snd (hd (ss_store demo_state))" 5 PNone "''y''"
      "fst (st_set 5 ''k'' PNone ''y'' None demo_state)"
      "fst (snd (st_set 5 ''k'' PNone ''y'' None demo_state))"
      "snd (snd (st_set 5 ''k'' PNone ''y'' None demo_state))"
      "fst (st_set 5 ''k'' PNone ''y'' None (snd (st_get 5 ''k'' demo_state)))"
      "fst (snd (st_set 5 ''k'' PNone ''y'' None (snd (st_get 5 ''k'' demo_state))))"
      "snd (snd (st_set 5 ''k'' PNone ''y'' None (snd (st_get 5 ''k'' demo_state))))"]
  by (simp add: demo_state_eq is_expired_def)

lemma view_cleanup:
  assumes "dict_wf (ss_store s)" and "now \<le> t"
  shows "view t (fst (cleanup_expired now s)) = view t s"
  using view_sweep [OF assms]
  by (simp add: fun_eq_iff view_def view_entry_def cleanup_expired_def sweep_expired_unlocked_def Let_def)

text \<open>
  The periodic cleanup removes exactly the expired entries: no reader then or later sees a
  difference, none of the remaining entries has expired, and every observer receives one
  \<open>EXPIRED\<close> event per removed entry, in order, whether or not observers raise.
\<close>

theorem cleanup_reports_each_expired_entry:
  assumes "ss_run t s" and "t \<le> now" and "now \<le> later"
    and "cleanup_expired now s = (s', ns)"
  shows "view later s' = view later s \<and>
    (\<forall>k e. dict_get (ss_store s') k = Some e \<longleftrightarrow>
       dict_get (ss_store s) k = Some e \<and> \<not> is_expired now e) \<and>
    (\<forall>ob \<in> set (ss_observers s). \<forall>k e. dict_get (ss_store s) k = Some e \<longrightarrow> is_expired now e \<longrightarrow>
       (obs_oid ob, expiry_event now e, obs_raises ob (expiry_event now e)) \<in> set ns) \<and>
    length ns = length (filter (is_expired now) (dict_values (ss_store s))) * length (ss_observers s)"
proof -
  have "ss_inv now s" by (rule ss_inv_later [OF ss_inv_run [OF assms(1)] assms(2)])
  then have wf: "dict_wf (ss_store s)" by (simp add: ss_inv_def)
  let ?gone = "filter (\<lambda>(k, e). is_expired now e) (ss_store s)"
  have s': "s' = fst (cleanup_expired now s)" and ns: "ns = snd (cleanup_expired now s)"
    using assms(4) by simp_all
  have "length ns = length ?gone * length (ss_observers s)"
    by (simp add: ns cleanup_expired_def Let_def notify_observers_def length_concat comp_def
        split_beta sum_list_triv)
  also have "length ?gone = length (filter (is_expired now) (dict_values (ss_store s)))"
    by (simp add: filter_map comp_def case_prod_unfold)
  finally have len: "length ns =
    length (filter (is_expired now) (dict_values (ss_store s))) * length (ss_observers s)" .
  have got: "(obs_oid ob, expiry_event now e, obs_raises ob (expiry_event now e)) \<in> set ns"
    if "ob \<in> set (ss_observers s)" and "dict_get (ss_store s) k = Some e" and "is_expired now e"
    for ob k e
    using that dict_get_mem [OF that(2)]
    by (force simp: ns cleanup_expired_def Let_def notify_observers_def)
  have "dict_get (ss_store s') k = view_entry now s k" for k
    using get_sweep [OF wf, of now k] by (simp add: s' cleanup_expired_def Let_def view_entry_def)
  then have left: "dict_get (ss_store s') k = Some e \<longleftrightarrow>
      dict_get (ss_store s) k = Some e \<and> \<not> is_expired now e" for k e
    by (auto simp: view_entry_def split: option.splits)
  show ?thesis using view_cleanup [OF wf assms(3)] got left len by (simp add: s')
qed

theorem cleanup_reports_each_expired_entry_witness:
  "map fst (snd (cleanup_expired 2 demo_state)) = [7]"
proof -
  have "length (snd (cleanup_expired 2 demo_state)) = 1"
    using cleanup_reports_each_expired_entry [OF demo_state_run, of 2 2
        "fst (cleanup_expired 2 demo_state)" "snd (cleanup_expired 2 demo_state)"]
    by (simp add: demo_state_eq is_expired_def)
  then show ?thesis
    by (simp add: demo_state_eq cleanup_expired_def notify_observers_def is_expired_def Let_def)
qed

end
