(* ===== verification/TaskQueue.thy ===== *)
theory TaskQueue
  imports Prelude Runs
begin

text \<open>
  The priority task queue of \<^verbatim>\<open>src/agent/coordination/task_queue.py\<close>: dependencies, retries
  and dead letters.

  A queue is the record \<open>task_queue\<close>: the tasks by identifier in insertion order, the configured
  bound, the running counter, and the timers handed to the event loop (their callbacks do nothing).
  The queue never calls a handler, so a handler is only an identity. The default identifier and
  creation time of a task are part of the task. Python's overflow of a float power in the
  retry delay is not modelled.
\<close>

section \<open>Data model\<close>

datatype TaskStatus =
  PENDING | WAITING_DEPS | RUNNING | COMPLETED | FAILED | TIMEOUT | DEAD_LETTER | CANCELLED

record retry_policy =
  max_retries :: int
  base_delay :: rat
  max_delay :: rat
  backoff_factor :: rat

definition default_policy :: retry_policy where
  "default_policy = \<lparr>max_retries = 3, base_delay = 1, max_delay = 60, backoff_factor = 2\<rparr>"

record queue_task =
  qt_id :: string
  qt_name :: string
  qt_handler :: "nat option"
  qt_args :: "pyval list"
  qt_kwargs :: "(string, pyval) dict"
  qt_priority :: int
  qt_status :: TaskStatus
  qt_dependencies :: "string list"
  qt_timeout :: "rat option"
  qt_policy :: retry_policy
  retries_used :: nat
  qt_result :: pyval
  qt_error :: "string option"
  qt_created_at :: time
  started_at :: "time option"
  completed_at :: "time option"
  qt_metadata :: "(string, pyval) dict"

record task_queue =
  tq_tasks :: "(string, queue_task) dict"
  max_concurrent :: int
  running_count :: int
  tq_timers :: "rat list"

definition tq_init :: "int \<Rightarrow> task_queue" where
  "tq_init n = \<lparr>tq_tasks = [], max_concurrent = n, running_count = 0, tq_timers = []\<rparr>"

text \<open>A task built with the defaults of the dataclass.\<close>

definition new_task :: "string \<Rightarrow> string \<Rightarrow> int \<Rightarrow> string list \<Rightarrow> time \<Rightarrow> queue_task" where
  "new_task tid name prio deps now =
     \<lparr>qt_id = tid, qt_name = name, qt_handler = None, qt_args = [], qt_kwargs = [],
      qt_priority = prio, qt_status = PENDING, qt_dependencies = deps, qt_timeout = None,
      qt_policy = default_policy, retries_used = 0, qt_result = PNone, qt_error = None,
      qt_created_at = now, started_at = None, completed_at = None, qt_metadata = []\<rparr>"

section \<open>Dependencies\<close>

fun check_deps :: "string list \<Rightarrow> (string, queue_task) dict \<Rightarrow> bool" where
  "check_deps [] d = True"
| "check_deps (dep # deps) d =
     (case dict_get d dep of
        None \<Rightarrow> False
      | Some t \<Rightarrow> if qt_status t \<noteq> COMPLETED then False else check_deps deps d)"

definition check_dependencies :: "queue_task \<Rightarrow> task_queue \<Rightarrow> bool" where
  "check_dependencies t q = check_deps (qt_dependencies t) (tq_tasks q)"

definition set_task :: "string \<Rightarrow> (queue_task \<Rightarrow> queue_task) \<Rightarrow> task_queue \<Rightarrow> task_queue" where
  "set_task tid f q = q\<lparr>tq_tasks := dict_mut tid f (tq_tasks q)\<rparr>"

definition unblock_one :: "string \<Rightarrow> task_queue \<Rightarrow> task_queue" where
  "unblock_one tid q =
     (case dict_get (tq_tasks q) tid of
        None \<Rightarrow> q
      | Some t \<Rightarrow> if qt_status t = WAITING_DEPS \<and> check_dependencies t q
                  then set_task tid (\<lambda>t. t\<lparr>qt_status := PENDING\<rparr>) q else q)"

definition unblock_dependents :: "task_queue \<Rightarrow> task_queue" where
  "unblock_dependents q = fold unblock_one (dict_keys (tq_tasks q)) q"

section \<open>The life cycle of a task\<close>

definition add_task :: "queue_task \<Rightarrow> task_queue \<Rightarrow> string \<times> task_queue" where
  "add_task t q =
     (let t1 = (if \<not> check_dependencies t q then t\<lparr>qt_status := WAITING_DEPS\<rparr> else t)
      in (qt_id t1, q\<lparr>tq_tasks := dict_put (qt_id t1) t1 (tq_tasks q)\<rparr>))"

definition cancel_task :: "time \<Rightarrow> string \<Rightarrow> task_queue \<Rightarrow> bool \<times> task_queue" where
  "cancel_task now tid q =
     (case dict_get (tq_tasks q) tid of
        None \<Rightarrow> (False, q)
      | Some t \<Rightarrow>
          if qt_status t \<notin> {PENDING, WAITING_DEPS} then (False, q)
          else (True, set_task tid (\<lambda>t. t\<lparr>qt_status := CANCELLED, completed_at := Some now\<rparr>) q))"

definition get_task :: "string \<Rightarrow> task_queue \<Rightarrow> queue_task option" where
  "get_task tid q = dict_get (tq_tasks q) tid"

definition ready_key :: "queue_task \<Rightarrow> int \<times> time" where
  "ready_key t = (- qt_priority t, qt_created_at t)"

definition get_ready_tasks :: "task_queue \<Rightarrow> queue_task list" where
  "get_ready_tasks q =
     sort_key ready_key (filter (\<lambda>t. qt_status t = PENDING) (dict_values (tq_tasks q)))"

definition mark_running :: "time \<Rightarrow> string \<Rightarrow> task_queue \<Rightarrow> task_queue" where
  "mark_running now tid q =
     (case dict_get (tq_tasks q) tid of
        None \<Rightarrow> q
      | Some _ \<Rightarrow>
          (set_task tid (\<lambda>t. t\<lparr>qt_status := RUNNING, started_at := Some now\<rparr>) q)
            \<lparr>running_count := running_count q + 1\<rparr>)"

definition mark_completed :: "time \<Rightarrow> string \<Rightarrow> pyval \<Rightarrow> task_queue \<Rightarrow> task_queue" where
  "mark_completed now tid res q =
     (case dict_get (tq_tasks q) tid of
        None \<Rightarrow> q
      | Some _ \<Rightarrow>
          unblock_dependents
            ((set_task tid (\<lambda>t. t\<lparr>qt_status := COMPLETED, qt_result := res,
                                  completed_at := Some now\<rparr>) q)
               \<lparr>running_count := max 0 (running_count q - 1)\<rparr>))"

definition retry_delay :: "queue_task \<Rightarrow> rat" where
  "retry_delay t =
     min (base_delay (qt_policy t) * backoff_factor (qt_policy t) ^ (retries_used t - 1))
       (max_delay (qt_policy t))"

definition retry_task :: "string \<Rightarrow> task_queue \<Rightarrow> task_queue" where
  "retry_task tid q =
     (case dict_get (tq_tasks q) tid of
        None \<Rightarrow> q
      | Some t \<Rightarrow>
          (set_task tid (\<lambda>t. t\<lparr>retries_used := Suc (retries_used t), qt_status := PENDING,
                               qt_error := None, started_at := None, completed_at := None\<rparr>) q)
            \<lparr>tq_timers := tq_timers q @ [retry_delay (t\<lparr>retries_used := Suc (retries_used t)\<rparr>)]\<rparr>)"

definition mark_failed :: "time \<Rightarrow> string \<Rightarrow> string \<Rightarrow> task_queue \<Rightarrow> task_queue" where
  "mark_failed now tid err q =
     (case dict_get (tq_tasks q) tid of
        None \<Rightarrow> q
      | Some t \<Rightarrow>
          (let q1 = (set_task tid (\<lambda>t. t\<lparr>qt_status := FAILED, qt_error := Some err,
                                        completed_at := Some now\<rparr>) q)
                      \<lparr>running_count := max 0 (running_count q - 1)\<rparr>
           in if int (retries_used t) < max_retries (qt_policy t) then retry_task tid q1
              else set_task tid (\<lambda>t. t\<lparr>qt_status := DEAD_LETTER\<rparr>) q1))"

section \<open>Dead letters and statistics\<close>

definition dead_letter_count :: "task_queue \<Rightarrow> nat" where
  "dead_letter_count q = length (filter (\<lambda>t. qt_status t = DEAD_LETTER) (dict_values (tq_tasks q)))"

definition clear_dead_letters :: "task_queue \<Rightarrow> nat \<times> task_queue" where
  "clear_dead_letters q =
     (let ids = dict_keys (filter (\<lambda>(_, t). qt_status t = DEAD_LETTER) (tq_tasks q))
      in (length ids, q\<lparr>tq_tasks := fold dict_del ids (tq_tasks q)\<rparr>))"

definition all_statuses :: "TaskStatus list" where
  "all_statuses = [PENDING, WAITING_DEPS, RUNNING, COMPLETED, FAILED, TIMEOUT, DEAD_LETTER, CANCELLED]"

definition tq_stats :: "task_queue \<Rightarrow> (TaskStatus, nat) dict" where
  "tq_stats q =
     fold (\<lambda>t counts. dict_mut (qt_status t) Suc counts) (dict_values (tq_tasks q))
       (map (\<lambda>st. (st, 0)) all_statuses)"

definition tq_len :: "task_queue \<Rightarrow> nat" where
  "tq_len q = length (tq_tasks q)"

section \<open>Dependencies as sets\<close>

definition ids_with :: "TaskStatus \<Rightarrow> (string, queue_task) dict \<Rightarrow> string set" where
  "ids_with st d = {k. \<exists>t. dict_get d k = Some t \<and> qt_status t = st}"

lemma finite_ids_with: "finite (ids_with st d)"
proof (rule finite_subset)
  show "ids_with st d \<subseteq> set (dict_keys d)"
    by (auto simp: ids_with_def dict_in_keys simp del: set_map)
qed simp

lemma check_deps_iff: "check_deps deps d \<longleftrightarrow> set deps \<subseteq> ids_with COMPLETED d"
  by (induction deps) (auto simp: ids_with_def split: option.splits)

lemma set_task_simps [simp]:
  "dict_get (tq_tasks (set_task tid f q)) k =
     (if k = tid then map_option f (dict_get (tq_tasks q) tid) else dict_get (tq_tasks q) k)"
  "running_count (set_task tid f q) = running_count q"
  "dict_keys (tq_tasks (set_task tid f q)) = dict_keys (tq_tasks q)"
  "dict_wf (tq_tasks (set_task tid f q)) = dict_wf (tq_tasks q)"
  "tq_timers (set_task tid f q) = tq_timers q"
  by (simp_all add: set_task_def)

text \<open>What the completion of a task does to each other task.\<close>

definition unblocked :: "(string, queue_task) dict \<Rightarrow> queue_task \<Rightarrow> queue_task" where
  "unblocked d t =
     (if qt_status t = WAITING_DEPS \<and> check_deps (qt_dependencies t) d
      then t\<lparr>qt_status := PENDING\<rparr> else t)"

lemma unblock_one_get:
  "dict_get (tq_tasks (unblock_one a q)) k =
     (if k = a then map_option (unblocked (tq_tasks q)) (dict_get (tq_tasks q) a)
      else dict_get (tq_tasks q) k)"
  by (auto simp: unblock_one_def unblocked_def check_dependencies_def split: option.splits)

lemma unblock_one_completed:
  "ids_with COMPLETED (tq_tasks (unblock_one a q)) = ids_with COMPLETED (tq_tasks q)"
  by (force simp: ids_with_def unblock_one_get unblocked_def)

lemma unblocked_cong:
  "ids_with COMPLETED d = ids_with COMPLETED d' \<Longrightarrow> unblocked d t = unblocked d' t"
  by (simp add: unblocked_def check_deps_iff)

lemma unblocked_idem: "unblocked d (unblocked d t) = unblocked d t"
  by (simp add: unblocked_def)

lemma fold_unblock_get:
  "dict_get (tq_tasks (fold unblock_one ks q)) k =
     (if k \<in> set ks then map_option (unblocked (tq_tasks q)) (dict_get (tq_tasks q) k)
      else dict_get (tq_tasks q) k)"
proof (induction ks arbitrary: q)
  case (Cons a ks)
  have "unblocked (tq_tasks (unblock_one a q)) = unblocked (tq_tasks q)"
    by (rule ext) (rule unblocked_cong [OF unblock_one_completed])
  with Cons.IH [of "unblock_one a q"] show ?case
    by (auto simp: unblock_one_get unblocked_idem option.map_comp comp_def)
qed simp

lemma unblock_dependents_get [simp]:
  "dict_get (tq_tasks (unblock_dependents q)) k =
     map_option (unblocked (tq_tasks q)) (dict_get (tq_tasks q) k)"
  by (auto simp: unblock_dependents_def fold_unblock_get dict_in_keys simp del: set_map)

lemma unblock_one_simps [simp]:
  "running_count (unblock_one a q) = running_count q"
  "dict_keys (tq_tasks (unblock_one a q)) = dict_keys (tq_tasks q)"
  "tq_timers (unblock_one a q) = tq_timers q"
  by (auto simp: unblock_one_def split: option.splits)

lemma fold_unblock_simps:
  "running_count (fold unblock_one ks q) = running_count q"
  "dict_keys (tq_tasks (fold unblock_one ks q)) = dict_keys (tq_tasks q)"
  by (induction ks arbitrary: q) simp_all

lemma unblock_dependents_simps [simp]:
  "running_count (unblock_dependents q) = running_count q"
  "dict_keys (tq_tasks (unblock_dependents q)) = dict_keys (tq_tasks q)"
  "dict_wf (tq_tasks (unblock_dependents q)) = dict_wf (tq_tasks q)"
  by (simp_all add: unblock_dependents_def fold_unblock_simps dict_wf_def)

section \<open>Disciplined clients\<close>

text \<open>
  The protocol of the class documentation: fresh tasks are added, only ready tasks are started,
  only running tasks are completed or failed.
\<close>

datatype tq_label = LAdd string | LCancel string | LRun string | LDone string | LFail string | LClear

inductive tq_step :: "task_queue \<Rightarrow> tq_label \<Rightarrow> task_queue \<Rightarrow> bool" where
  tq_add: "dict_get (tq_tasks q) (qt_id t) = None \<Longrightarrow> qt_status t = PENDING \<Longrightarrow> retries_used t = 0 \<Longrightarrow>
     tq_step q (LAdd (qt_id t)) (snd (add_task t q))"
| tq_cancel: "tq_step q (LCancel tid) (snd (cancel_task now tid q))"
| tq_run: "t \<in> set (get_ready_tasks q) \<Longrightarrow> tq_step q (LRun (qt_id t)) (mark_running now (qt_id t) q)"
| tq_done: "dict_get (tq_tasks q) tid = Some t \<Longrightarrow> qt_status t = RUNNING \<Longrightarrow>
     tq_step q (LDone tid) (mark_completed now tid res q)"
| tq_fail: "dict_get (tq_tasks q) tid = Some t \<Longrightarrow> qt_status t = RUNNING \<Longrightarrow>
     tq_step q (LFail tid) (mark_failed now tid err q)"
| tq_clear: "tq_step q LClear (snd (clear_dead_letters q))"

inductive tq_run :: "tq_label list \<Rightarrow> task_queue \<Rightarrow> bool" where
  tq_run_init: "tq_run [] (tq_init n)"
| tq_run_step: "tq_run ls q \<Longrightarrow> tq_step q l q' \<Longrightarrow> tq_run (ls @ [l]) q'"

definition task_ok :: "(string, queue_task) dict \<Rightarrow> string \<Rightarrow> queue_task \<Rightarrow> bool" where
  "task_ok d k t \<longleftrightarrow>
     qt_id t = k \<and> qt_status t \<notin> {FAILED, TIMEOUT} \<and>
     (qt_status t \<in> {PENDING, RUNNING, COMPLETED} \<longrightarrow> check_deps (qt_dependencies t) d) \<and>
     (qt_status t = WAITING_DEPS \<longrightarrow> \<not> check_deps (qt_dependencies t) d) \<and>
     int (retries_used t) \<le> max 0 (max_retries (qt_policy t)) \<and>
     (qt_status t = DEAD_LETTER \<longrightarrow> max_retries (qt_policy t) \<le> int (retries_used t))"

definition tq_inv :: "task_queue \<Rightarrow> bool" where
  "tq_inv q \<longleftrightarrow> dict_wf (tq_tasks q) \<and>
     running_count q = int (card (ids_with RUNNING (tq_tasks q))) \<and>
     (\<forall>k t. dict_get (tq_tasks q) k = Some t \<longrightarrow> task_ok (tq_tasks q) k t)"

lemma tq_inv_init: "tq_inv (tq_init n)"
  by (simp add: tq_inv_def tq_init_def ids_with_def)

lemma tq_invD: "tq_inv q \<Longrightarrow> dict_get (tq_tasks q) k = Some t \<Longrightarrow> task_ok (tq_tasks q) k t"
  by (simp add: tq_inv_def)

lemma ready_get:
  assumes "dict_wf (tq_tasks q)"
  shows "t \<in> set (get_ready_tasks q) \<longleftrightarrow>
    qt_status t = PENDING \<and> (\<exists>k. dict_get (tq_tasks q) k = Some t)"
  by (auto simp: get_ready_tasks_def dict_mem_get [OF assms, symmetric] image_iff Bex_def)

text \<open>Putting one task that was not and is not completed.\<close>

lemma ids_with_upd:
  assumes "\<And>k. dict_get d' k = (if k = tid then Some t else dict_get d k)"
  shows "ids_with st d' = (if qt_status t = st then insert tid (ids_with st d) else ids_with st d - {tid})"
  using assms by (auto simp: ids_with_def)

lemma tq_inv_upd:
  assumes inv: "tq_inv q" and wf: "dict_wf (tq_tasks q')"
    and get: "\<And>k. dict_get (tq_tasks q') k = (if k = tid then Some t else dict_get (tq_tasks q) k)"
    and new: "qt_status t \<noteq> COMPLETED" and old: "tid \<notin> ids_with COMPLETED (tq_tasks q)"
    and count: "running_count q' = int (card (ids_with RUNNING (tq_tasks q')))"
    and ok: "task_ok (tq_tasks q) tid t"
  shows "tq_inv q'"
proof -
  have "ids_with COMPLETED (tq_tasks q') = ids_with COMPLETED (tq_tasks q)"
    using ids_with_upd [OF get] new old by auto
  then have deps: "check_deps ds (tq_tasks q') = check_deps ds (tq_tasks q)" for ds
    by (simp add: check_deps_iff)
  show ?thesis using inv wf get count ok by (auto simp: tq_inv_def task_ok_def deps)
qed

lemma running_card:
  assumes "tq_inv q" and "dict_get (tq_tasks q) tid = Some t" and "qt_status t = RUNNING"
  shows "max 0 (running_count q - 1) = int (card (ids_with RUNNING (tq_tasks q) - {tid}))"
proof -
  have mem: "tid \<in> ids_with RUNNING (tq_tasks q)" using assms by (simp add: ids_with_def)
  then have "0 < card (ids_with RUNNING (tq_tasks q))"
    using finite_ids_with card_gt_0_iff by blast
  with mem assms(1) show ?thesis
    by (simp add: tq_inv_def card_Diff_singleton finite_ids_with of_nat_diff)
qed

lemma tq_inv_add:
  assumes inv: "tq_inv q" and fresh: "dict_get (tq_tasks q) (qt_id t) = None"
    and t: "qt_status t = PENDING" "retries_used t = 0"
  shows "tq_inv (snd (add_task t q))"
proof -
  let ?t = "if \<not> check_dependencies t q then t\<lparr>qt_status := WAITING_DEPS\<rparr> else t"
  have q': "tq_tasks (snd (add_task t q)) = dict_put (qt_id t) ?t (tq_tasks q)"
    "running_count (snd (add_task t q)) = running_count q"
    by (simp_all add: add_task_def Let_def)
  have get: "dict_get (tq_tasks (snd (add_task t q))) k =
      (if k = qt_id t then Some ?t else dict_get (tq_tasks q) k)" for k
    by (simp add: q')
  have absent: "qt_id t \<notin> ids_with st (tq_tasks q)" for st using fresh by (simp add: ids_with_def)
  show ?thesis
  proof (rule tq_inv_upd [OF inv _ get])
    show "running_count (snd (add_task t q)) =
        int (card (ids_with RUNNING (tq_tasks (snd (add_task t q)))))"
      using inv t absent [of RUNNING] ids_with_upd [OF get, of RUNNING]
      by (simp add: q' tq_inv_def)
  qed (use inv t absent in \<open>auto simp: q' tq_inv_def task_ok_def check_dependencies_def\<close>)
qed

lemma tq_inv_cancel:
  assumes inv: "tq_inv q"
  shows "tq_inv (snd (cancel_task now tid q))"
proof (cases "\<exists>t. dict_get (tq_tasks q) tid = Some t \<and> qt_status t \<in> {PENDING, WAITING_DEPS}")
  case True
  then obtain t where t: "dict_get (tq_tasks q) tid = Some t" "qt_status t \<in> {PENDING, WAITING_DEPS}"
    by blast
  let ?t = "t\<lparr>qt_status := CANCELLED, completed_at := Some now\<rparr>"
  have q': "snd (cancel_task now tid q) =
      set_task tid (\<lambda>t. t\<lparr>qt_status := CANCELLED, completed_at := Some now\<rparr>) q"
    using t by (simp add: cancel_task_def)
  have get: "dict_get (tq_tasks (snd (cancel_task now tid q))) k =
      (if k = tid then Some ?t else dict_get (tq_tasks q) k)" for k
    by (simp add: q' t)
  have absent: "tid \<notin> ids_with COMPLETED (tq_tasks q)" "tid \<notin> ids_with RUNNING (tq_tasks q)"
    using t by (auto simp: ids_with_def)
  show ?thesis
  proof (rule tq_inv_upd [OF inv _ get])
    show "running_count (snd (cancel_task now tid q)) =
        int (card (ids_with RUNNING (tq_tasks (snd (cancel_task now tid q)))))"
      using inv absent ids_with_upd [OF get, of RUNNING] by (simp add: q' tq_inv_def)
  qed (use inv absent tq_invD [OF inv t(1)] in \<open>auto simp: q' tq_inv_def task_ok_def\<close>)
next
  case False
  then have "snd (cancel_task now tid q) = q"
    by (auto simp: cancel_task_def split: option.splits)
  with inv show ?thesis by simp
qed

lemma tq_inv_mark_running:
  assumes inv: "tq_inv q" and t: "t \<in> set (get_ready_tasks q)"
  shows "tq_inv (mark_running now (qt_id t) q)"
proof -
  from inv have wf: "dict_wf (tq_tasks q)" by (simp add: tq_inv_def)
  from t obtain k where k: "dict_get (tq_tasks q) k = Some t" and pend: "qt_status t = PENDING"
    by (auto simp: ready_get [OF wf])
  from tq_invD [OF inv k] k have get_t: "dict_get (tq_tasks q) (qt_id t) = Some t"
    by (simp add: task_ok_def)
  let ?q = "mark_running now (qt_id t) q" and ?t = "t\<lparr>qt_status := RUNNING, started_at := Some now\<rparr>"
  have get: "dict_get (tq_tasks ?q) k = (if k = qt_id t then Some ?t else dict_get (tq_tasks q) k)" for k
    by (simp add: mark_running_def get_t)
  have absent: "qt_id t \<notin> ids_with COMPLETED (tq_tasks q)" "qt_id t \<notin> ids_with RUNNING (tq_tasks q)"
    using get_t pend by (auto simp: ids_with_def)
  show ?thesis
  proof (rule tq_inv_upd [OF inv _ get])
    show "running_count ?q = int (card (ids_with RUNNING (tq_tasks ?q)))"
      using inv absent ids_with_upd [OF get, of RUNNING]
      by (simp add: mark_running_def get_t tq_inv_def finite_ids_with)
  qed (use wf absent pend tq_invD [OF inv get_t] in \<open>auto simp: mark_running_def get_t task_ok_def\<close>)
qed

text \<open>What a failure makes of a running task: a ready task with one more retry, or a dead letter.\<close>

definition failed_task :: "time \<Rightarrow> string \<Rightarrow> queue_task \<Rightarrow> queue_task" where
  "failed_task now err t =
     (if int (retries_used t) < max_retries (qt_policy t)
      then t\<lparr>qt_status := PENDING, retries_used := Suc (retries_used t), qt_error := None,
             started_at := None, completed_at := None\<rparr>
      else t\<lparr>qt_status := DEAD_LETTER, qt_error := Some err, completed_at := Some now\<rparr>)"

lemma mark_failed_get:
  assumes "dict_get (tq_tasks q) tid = Some t"
  shows "dict_get (tq_tasks (mark_failed now tid err q)) k =
      (if k = tid then Some (failed_task now err t) else dict_get (tq_tasks q) k)"
    and "running_count (mark_failed now tid err q) = max 0 (running_count q - 1)"
    and "dict_wf (tq_tasks (mark_failed now tid err q)) = dict_wf (tq_tasks q)"
    and "tq_timers (mark_failed now tid err q) = tq_timers q @
      (if int (retries_used t) < max_retries (qt_policy t)
       then [retry_delay (failed_task now err t)] else [])"
  using assms by (auto simp: mark_failed_def retry_task_def failed_task_def Let_def retry_delay_def)

lemma tq_inv_fail:
  assumes inv: "tq_inv q" and t: "dict_get (tq_tasks q) tid = Some t" "qt_status t = RUNNING"
  shows "tq_inv (mark_failed now tid err q)"
proof -
  note get = mark_failed_get(1) [OF t(1), of now err]
  have absent: "tid \<notin> ids_with COMPLETED (tq_tasks q)" using t by (auto simp: ids_with_def)
  have status: "qt_status (failed_task now err t) \<noteq> RUNNING" by (simp add: failed_task_def)
  show ?thesis
  proof (rule tq_inv_upd [OF inv _ get])
    show "running_count (mark_failed now tid err q) =
        int (card (ids_with RUNNING (tq_tasks (mark_failed now tid err q))))"
      using running_card [OF inv t] ids_with_upd [OF get, of RUNNING] status
      by (simp add: mark_failed_get(2) [OF t(1)])
  qed (use inv absent tq_invD [OF inv t(1)] t in
      \<open>auto simp: mark_failed_get(3) [OF t(1)] tq_inv_def task_ok_def failed_task_def\<close>)
qed

lemma ids_with_unblocked:
  assumes "\<And>k. dict_get d' k = map_option (unblocked d) (dict_get d k)"
  shows "ids_with COMPLETED d' = ids_with COMPLETED d" and "ids_with RUNNING d' = ids_with RUNNING d"
proof -
  have "x \<in> ids_with st d' \<longleftrightarrow> x \<in> ids_with st d" if "st \<in> {COMPLETED, RUNNING}" for st x
    using that by (cases "dict_get d x") (auto simp: ids_with_def assms unblocked_def)
  then show "ids_with COMPLETED d' = ids_with COMPLETED d" and "ids_with RUNNING d' = ids_with RUNNING d"
    by blast+
qed

definition completed_task :: "time \<Rightarrow> pyval \<Rightarrow> queue_task \<Rightarrow> queue_task" where
  "completed_task now res t = t\<lparr>qt_status := COMPLETED, qt_result := res, completed_at := Some now\<rparr>"

lemma mark_completed_get:
  assumes t: "dict_get (tq_tasks q) tid = Some t"
  shows "ids_with COMPLETED (tq_tasks (mark_completed now tid res q)) =
      insert tid (ids_with COMPLETED (tq_tasks q))"
    and "ids_with RUNNING (tq_tasks (mark_completed now tid res q)) =
      ids_with RUNNING (tq_tasks q) - {tid}"
    and "running_count (mark_completed now tid res q) = max 0 (running_count q - 1)"
    and "dict_wf (tq_tasks (mark_completed now tid res q)) = dict_wf (tq_tasks q)"
    and "dict_get (tq_tasks (mark_completed now tid res q)) k =
      (if k = tid then Some (completed_task now res t)
       else map_option (\<lambda>u. if qt_status u = WAITING_DEPS \<and>
                set (qt_dependencies u) \<subseteq> insert tid (ids_with COMPLETED (tq_tasks q))
              then u\<lparr>qt_status := PENDING\<rparr> else u) (dict_get (tq_tasks q) k))"
proof -
  let ?q = "set_task tid (\<lambda>t. t\<lparr>qt_status := COMPLETED, qt_result := res, completed_at := Some now\<rparr>) q"
  let ?d = "tq_tasks ?q"
  have get1: "dict_get ?d k = (if k = tid then Some (completed_task now res t) else dict_get (tq_tasks q) k)" for k
    by (simp add: t completed_task_def)
  have q': "tq_tasks (mark_completed now tid res q) = tq_tasks (unblock_dependents
      (?q\<lparr>running_count := max 0 (running_count q - 1)\<rparr>))"
    by (simp add: mark_completed_def t)
  have get: "dict_get (tq_tasks (mark_completed now tid res q)) k =
      map_option (unblocked ?d) (dict_get ?d k)" for k
    unfolding q' unblock_dependents_get by simp
  have comp: "ids_with COMPLETED ?d = insert tid (ids_with COMPLETED (tq_tasks q))"
    and run: "ids_with RUNNING ?d = ids_with RUNNING (tq_tasks q) - {tid}"
    using ids_with_upd [OF get1] by (simp_all add: completed_task_def)
  show "ids_with COMPLETED (tq_tasks (mark_completed now tid res q)) =
      insert tid (ids_with COMPLETED (tq_tasks q))"
    and "ids_with RUNNING (tq_tasks (mark_completed now tid res q)) =
      ids_with RUNNING (tq_tasks q) - {tid}"
    using ids_with_unblocked [OF get] comp run by simp_all
  show "running_count (mark_completed now tid res q) = max 0 (running_count q - 1)"
    and "dict_wf (tq_tasks (mark_completed now tid res q)) = dict_wf (tq_tasks q)"
    by (simp_all add: mark_completed_def t)
  show "dict_get (tq_tasks (mark_completed now tid res q)) k =
      (if k = tid then Some (completed_task now res t)
       else map_option (\<lambda>u. if qt_status u = WAITING_DEPS \<and>
                set (qt_dependencies u) \<subseteq> insert tid (ids_with COMPLETED (tq_tasks q))
              then u\<lparr>qt_status := PENDING\<rparr> else u) (dict_get (tq_tasks q) k))"
    unfolding get get1
    by (cases "dict_get (tq_tasks q) k")
       (simp_all add: unblocked_def check_deps_iff comp completed_task_def)
qed

lemma tq_inv_done:
  assumes inv: "tq_inv q" and t: "dict_get (tq_tasks q) tid = Some t" "qt_status t = RUNNING"
  shows "tq_inv (mark_completed now tid res q)"
proof -
  note q' = mark_completed_get [OF t(1), of now res]
  have deps: "check_deps ds (tq_tasks (mark_completed now tid res q)) \<longleftrightarrow>
      set ds \<subseteq> insert tid (ids_with COMPLETED (tq_tasks q))" for ds
    by (simp add: check_deps_iff q'(1))
  have "task_ok (tq_tasks (mark_completed now tid res q)) k u"
    if u: "dict_get (tq_tasks (mark_completed now tid res q)) k = Some u" for k u
  proof (cases "k = tid")
    case True
    with u tq_invD [OF inv t(1)] t(2) show ?thesis
      by (simp add: q'(5) task_ok_def deps completed_task_def) (auto simp: check_deps_iff completed_task_def)
  next
    case False
    with u obtain u0 where u0: "dict_get (tq_tasks q) k = Some u0"
      by (cases "dict_get (tq_tasks q) k") (simp_all add: q'(5))
    with False u have u_eq: "u = (if qt_status u0 = WAITING_DEPS \<and>
        set (qt_dependencies u0) \<subseteq> insert tid (ids_with COMPLETED (tq_tasks q))
      then u0\<lparr>qt_status := PENDING\<rparr> else u0)"
      by (simp add: q'(5))
    show ?thesis
      using tq_invD [OF inv u0] unfolding task_ok_def deps check_deps_iff [of _ "tq_tasks q"] u_eq
      by (auto split del: if_split split: if_splits)
  qed
  with inv running_card [OF inv t] show ?thesis
    by (simp add: tq_inv_def q'(2,3,4))
qed

lemma clear_get:
  assumes "dict_wf (tq_tasks q)"
  shows "dict_get (tq_tasks (snd (clear_dead_letters q))) k =
    (case dict_get (tq_tasks q) k of
       None \<Rightarrow> None | Some t \<Rightarrow> if qt_status t = DEAD_LETTER then None else Some t)"
  using dict_mem_get [OF assms]
  by (force simp: clear_dead_letters_def Let_def pydict.get_dels split: option.splits)

lemma tq_inv_clear:
  assumes inv: "tq_inv q"
  shows "tq_inv (snd (clear_dead_letters q))"
proof -
  from inv have wf: "dict_wf (tq_tasks q)" by (simp add: tq_inv_def)
  have ids: "ids_with st (tq_tasks (snd (clear_dead_letters q))) = ids_with st (tq_tasks q)"
    if "st \<noteq> DEAD_LETTER" for st
    using that by (auto simp: ids_with_def clear_get [OF wf] split: option.splits if_splits)
  have "running_count (snd (clear_dead_letters q)) = running_count q"
    "dict_wf (tq_tasks (snd (clear_dead_letters q)))"
    using wf by (simp_all add: clear_dead_letters_def Let_def pydict.wf_dels)
  with inv show ?thesis
    by (auto simp: tq_inv_def ids clear_get [OF wf] task_ok_def check_deps_iff
        split: option.splits if_splits)
qed

lemma tq_inv_step: "tq_step q l q' \<Longrightarrow> tq_inv q \<Longrightarrow> tq_inv q'"
  by (induction rule: tq_step.induct)
     (auto intro: tq_inv_add tq_inv_cancel tq_inv_mark_running tq_inv_done tq_inv_fail tq_inv_clear)

lemma tq_inv_run: "tq_run ls q \<Longrightarrow> tq_inv q"
  by (induction rule: tq_run.induct) (auto intro: tq_inv_init tq_inv_step)

section \<open>Failures and retries\<close>

definition failures :: "queue_task \<Rightarrow> nat" where
  "failures t = retries_used t + (if qt_status t = DEAD_LETTER then 1 else 0)"

lemma failures_unblocked [simp]: "failures (unblocked d t) = failures t"
  by (simp add: failures_def unblocked_def)

definition added_task :: "task_queue \<Rightarrow> queue_task \<Rightarrow> queue_task" where
  "added_task q t = (if \<not> check_dependencies t q then t\<lparr>qt_status := WAITING_DEPS\<rparr> else t)"

lemma add_task_get:
  "dict_get (tq_tasks (snd (add_task t q))) k =
     (if k = qt_id t then Some (added_task q t) else dict_get (tq_tasks q) k)"
  by (simp add: add_task_def Let_def added_task_def)

definition cancelled_task :: "time \<Rightarrow> string \<Rightarrow> string \<Rightarrow> queue_task \<Rightarrow> queue_task" where
  "cancelled_task now tid k t =
     (if k = tid \<and> qt_status t \<in> {PENDING, WAITING_DEPS}
      then t\<lparr>qt_status := CANCELLED, completed_at := Some now\<rparr> else t)"

lemma cancel_task_get:
  "dict_get (tq_tasks (snd (cancel_task now tid q))) k =
     map_option (cancelled_task now tid k) (dict_get (tq_tasks q) k)"
proof (cases "k = tid")
  case True
  then show ?thesis
    by (cases "dict_get (tq_tasks q) tid") (simp_all add: cancel_task_def cancelled_task_def)
next
  case False
  then have "cancelled_task now tid k = (\<lambda>t. t)" by (simp add: cancelled_task_def fun_eq_iff)
  with False show ?thesis
    by (cases "dict_get (tq_tasks q) tid") (simp_all add: cancel_task_def option.map_ident)
qed

text \<open>One step counts one failure of the task it fails, and none of any other task.\<close>

lemma failures_step:
  assumes "tq_step q l q'" and "tq_inv q" and "l \<noteq> LClear" and "dict_get (tq_tasks q') k = Some t'"
  shows "(\<exists>t. dict_get (tq_tasks q) k = Some t \<and>
            failures t' = failures t + (if l = LFail k then 1 else 0)) \<or>
    (dict_get (tq_tasks q) k = None \<and> l = LAdd k \<and> failures t' = 0)"
  using assms
proof (induction rule: tq_step.induct)
  case (tq_add q t)
  show ?case
  proof (cases "k = qt_id t")
    case True
    with tq_add.prems(3) have "t' = added_task q t" by (simp add: add_task_get)
    with tq_add.hyps(2,3) have "failures t' = 0" by (simp add: failures_def added_task_def)
    with True tq_add.hyps(1) show ?thesis by simp
  next
    case False
    with tq_add.prems(3) show ?thesis by (simp add: add_task_get)
  qed
next
  case (tq_cancel q tid now)
  from tq_cancel.prems(3) obtain t where t: "dict_get (tq_tasks q) k = Some t"
    and t': "t' = cancelled_task now tid k t"
    by (auto simp: cancel_task_get)
  then show ?case by (simp add: cancelled_task_def failures_def)
next
  case (tq_run t q now)
  then obtain j where j: "dict_get (tq_tasks q) j = Some t" "qt_status t = PENDING"
    by (auto simp: tq_inv_def ready_get)
  with tq_invD [OF tq_run.prems(1) j(1)] have "dict_get (tq_tasks q) (qt_id t) = Some t"
    by (simp add: task_ok_def)
  with tq_run.prems(3) j(2) show ?case
    by (auto simp: mark_running_def failures_def split: if_splits)
next
  case (tq_done q tid t now res)
  show ?case
  proof (cases "k = tid")
    case True
    with tq_done.prems(3) have t': "t' = completed_task now res t"
      by (simp add: mark_completed_get(5) [OF tq_done.hyps(1)])
    have "failures t' = failures t"
      unfolding t' failures_def completed_task_def using tq_done.hyps(2) by simp
    with True tq_done.hyps(1) show ?thesis by simp
  next
    case False
    with tq_done.prems(3) obtain u where "dict_get (tq_tasks q) k = Some u"
      by (cases "dict_get (tq_tasks q) k") (simp_all add: mark_completed_get(5) [OF tq_done.hyps(1)])
    with False tq_done.prems(3) have "failures t' = failures u"
      by (auto simp: mark_completed_get(5) [OF tq_done.hyps(1)] failures_def split: if_splits)
    with \<open>dict_get (tq_tasks q) k = Some u\<close> show ?thesis by simp
  qed
next
  case (tq_fail q tid t now err)
  show ?case
  proof (cases "k = tid")
    case True
    with tq_fail.prems(3) have "t' = failed_task now err t"
      by (simp add: mark_failed_get(1) [OF tq_fail.hyps(1)])
    then have "failures t' = failures t + 1"
      using tq_fail.hyps(2) by (simp add: failed_task_def failures_def)
    with True tq_fail.hyps(1) show ?thesis by simp
  next
    case False
    with tq_fail.prems(3) show ?thesis by (simp add: mark_failed_get(1) [OF tq_fail.hyps(1)])
  qed
next
  case (tq_clear q)
  then show ?case by simp
qed

lemma failures_run:
  "tq_run ls q \<Longrightarrow> LClear \<notin> set ls \<Longrightarrow>
     (case dict_get (tq_tasks q) k of
        None \<Rightarrow> count_list ls (LFail k) = 0
      | Some t \<Rightarrow> failures t = count_list ls (LFail k))"
proof (induction rule: tq_run.induct)
  case (tq_run_init n)
  then show ?case by (simp add: tq_init_def)
next
  case (tq_run_step ls q l q')
  then have inv: "tq_inv q" and l: "l \<noteq> LClear" by (auto intro: tq_inv_run)
  show ?case
  proof (cases "dict_get (tq_tasks q') k")
    case None
    from tq_run_step.hyps(2) l None have "l \<noteq> LFail k \<and> dict_get (tq_tasks q) k = None"
      by (induction rule: tq_step.induct)
         (auto simp: mark_failed_get(1) mark_completed_get(5) mark_running_def cancel_task_def
            add_task_def Let_def split: if_splits option.splits)
    with None tq_run_step show ?thesis by simp
  next
    case (Some t')
    with failures_step [OF tq_run_step.hyps(2) inv l Some] tq_run_step show ?thesis by auto
  qed
qed

section \<open>Progress\<close>

text \<open>Every task's dependencies were in the queue before it.\<close>

fun deps_earlier :: "string set \<Rightarrow> (string, queue_task) dict \<Rightarrow> bool" where
  "deps_earlier S [] = True"
| "deps_earlier S ((k, t) # d) \<longleftrightarrow> set (qt_dependencies t) \<subseteq> S \<and> deps_earlier (insert k S) d"

lemma deps_earlier_snoc:
  "deps_earlier S (d @ [(k, t)]) \<longleftrightarrow>
     deps_earlier S d \<and> set (qt_dependencies t) \<subseteq> S \<union> set (dict_keys d)"
  by (induction S d rule: deps_earlier.induct) auto

lemma deps_earlier_mut:
  "(\<And>t. qt_dependencies (f t) = qt_dependencies t) \<Longrightarrow>
     deps_earlier S (dict_mut k f d) = deps_earlier S d"
  by (induction S d rule: deps_earlier.induct) (auto simp: dict_mut_def)

lemma deps_earlier_unblock:
  "deps_earlier S (tq_tasks (unblock_dependents q)) = deps_earlier S (tq_tasks q)"
proof -
  have "deps_earlier S (tq_tasks (fold unblock_one ks q)) = deps_earlier S (tq_tasks q)" for ks
    by (induction ks arbitrary: q)
       (auto simp: unblock_one_def set_task_def deps_earlier_mut split: option.splits)
  then show ?thesis by (simp add: unblock_dependents_def)
qed

inductive tq_orderly :: "task_queue \<Rightarrow> bool" where
  orderly_init: "tq_orderly (tq_init n)"
| orderly_add: "tq_orderly q \<Longrightarrow> dict_get (tq_tasks q) (qt_id t) = None \<Longrightarrow> qt_status t = PENDING \<Longrightarrow>
     retries_used t = 0 \<Longrightarrow> set (qt_dependencies t) \<subseteq> set (dict_keys (tq_tasks q)) \<Longrightarrow>
     tq_orderly (snd (add_task t q))"
| orderly_work: "tq_orderly q \<Longrightarrow> tq_step q l q' \<Longrightarrow>
     (\<exists>tid. l = LRun tid \<or> l = LDone tid \<or> l = LFail tid) \<Longrightarrow> tq_orderly q'"

lemma orderly_run: "tq_orderly q \<Longrightarrow> \<exists>ls. tq_run ls q"
proof (induction rule: tq_orderly.induct)
  case (orderly_init n)
  show ?case by (blast intro: tq_run_init)
next
  case (orderly_add q t)
  then show ?case by (blast intro: tq_run_step tq_add)
next
  case (orderly_work q l q')
  then show ?case by (blast intro: tq_run_step)
qed

definition no_cancelled :: "task_queue \<Rightarrow> bool" where
  "no_cancelled q \<longleftrightarrow> (\<forall>k t. dict_get (tq_tasks q) k = Some t \<longrightarrow> qt_status t \<noteq> CANCELLED)"

lemma orderly_work_step:
  assumes "tq_step q l q'" and "\<exists>tid. l = LRun tid \<or> l = LDone tid \<or> l = LFail tid"
    and "deps_earlier S (tq_tasks q)" and "no_cancelled q"
  shows "deps_earlier S (tq_tasks q') \<and> no_cancelled q'"
  using assms
proof (induction rule: tq_step.induct)
  case (tq_run t q now)
  then show ?case
    by (auto simp: mark_running_def no_cancelled_def set_task_def deps_earlier_mut split: option.splits)
next
  case (tq_done q tid t now res)
  have "no_cancelled (mark_completed now tid res q)"
    using tq_done.prems(3) unfolding no_cancelled_def mark_completed_get(5) [OF tq_done.hyps(1)]
    by (auto simp: completed_task_def split: if_splits)
  moreover have "deps_earlier S (tq_tasks (mark_completed now tid res q))"
    using tq_done.prems(2)
    by (simp add: mark_completed_def tq_done.hyps deps_earlier_unblock)
       (simp add: set_task_def deps_earlier_mut)
  ultimately show ?case by simp
next
  case (tq_fail q tid t now err)
  have "no_cancelled (mark_failed now tid err q)"
    using tq_fail.prems(3) unfolding no_cancelled_def mark_failed_get(1) [OF tq_fail.hyps(1)]
    by (auto simp: failed_task_def)
  moreover have "deps_earlier S (tq_tasks (mark_failed now tid err q))"
    using tq_fail.prems(2) tq_fail.hyps(1)
    by (auto simp: mark_failed_def retry_task_def Let_def set_task_def deps_earlier_mut)
  ultimately show ?case by simp
qed auto

lemma orderly_inv:
  "tq_orderly q \<Longrightarrow> deps_earlier {} (tq_tasks q) \<and> no_cancelled q"
proof (induction rule: tq_orderly.induct)
  case (orderly_init n)
  show ?case by (simp add: tq_init_def no_cancelled_def)
next
  case (orderly_add q t)
  have "tq_tasks (snd (add_task t q)) = tq_tasks q @ [(qt_id t, added_task q t)]"
    using orderly_add.hyps(2) by (simp add: add_task_def Let_def added_task_def dict_put_absent)
  moreover have "set (qt_dependencies (added_task q t)) \<subseteq> set (dict_keys (tq_tasks q))"
    using orderly_add.hyps(5) by (simp add: added_task_def)
  ultimately have "deps_earlier {} (tq_tasks (snd (add_task t q)))"
    using orderly_add.IH by (simp add: deps_earlier_snoc)
  moreover have "qt_status (added_task q t) \<noteq> CANCELLED"
    using orderly_add.hyps(3) by (simp add: added_task_def)
  ultimately show ?case
    using orderly_add.IH by (simp add: no_cancelled_def add_task_get)
next
  case (orderly_work q l q')
  with orderly_work_step [OF orderly_work.hyps(2,3)] show ?case by blast
qed

lemma all_completed:
  assumes "dict_wf d" and "deps_earlier S e" and "set e \<subseteq> set d" and "S \<subseteq> ids_with COMPLETED d"
    and "\<And>k t. dict_get d k = Some t \<Longrightarrow> qt_status t = COMPLETED \<or>
      qt_status t = WAITING_DEPS \<and> \<not> check_deps (qt_dependencies t) d"
  shows "\<forall>t \<in> set (dict_values e). qt_status t = COMPLETED"
  using assms(2-4)
proof (induction S e rule: deps_earlier.induct)
  case (2 S k t e)
  then have t: "dict_get d k = Some t" by (simp add: dict_mem_get [OF assms(1)])
  have "check_deps (qt_dependencies t) d" using 2 by (auto simp: check_deps_iff)
  with assms(5) [OF t] have "qt_status t = COMPLETED" by blast
  moreover from this t have "insert k S \<subseteq> ids_with COMPLETED d"
    using 2 by (auto simp: ids_with_def)
  ultimately show ?case using 2 by simp
qed simp

section \<open>Dependencies that can no longer complete\<close>

abbreviation tq_steps :: "task_queue \<Rightarrow> tq_label list \<Rightarrow> task_queue \<Rightarrow> bool" where
  "tq_steps \<equiv> lts_run tq_step"

lemmas tq_steps_refl = run_Nil [where step = tq_step]

lemma tq_run_append: "tq_steps q ls q' \<Longrightarrow> tq_run ks q \<Longrightarrow> \<exists>ls. tq_run ls q'"
  by (induction rule: lts_run.induct) (auto intro: tq_run_step)

definition dead_id :: "string \<Rightarrow> task_queue \<Rightarrow> bool" where
  "dead_id k q \<longleftrightarrow> (\<forall>t. dict_get (tq_tasks q) k = Some t \<longrightarrow> qt_status t \<in> {DEAD_LETTER, CANCELLED})"

lemma dead_id_step:
  "tq_step q l q' \<Longrightarrow> tq_inv q \<Longrightarrow> dead_id k q \<Longrightarrow> l \<noteq> LAdd k \<Longrightarrow> dead_id k q'"
proof (induction rule: tq_step.induct)
  case (tq_add q t)
  then show ?case by (simp add: dead_id_def add_task_get)
next
  case (tq_cancel q tid now)
  then show ?case
    by (cases "dict_get (tq_tasks q) k") (auto simp: dead_id_def cancel_task_get cancelled_task_def)
next
  case (tq_run t q now)
  then obtain j where j: "dict_get (tq_tasks q) j = Some t" "qt_status t = PENDING"
    by (auto simp: tq_inv_def ready_get)
  with tq_invD [OF tq_run.prems(1) j(1)] have "dict_get (tq_tasks q) (qt_id t) = Some t"
    by (simp add: task_ok_def)
  with j(2) tq_run.prems(2) have "qt_id t \<noteq> k" by (auto simp: dead_id_def)
  with tq_run.prems(2) show ?case
    by (auto simp: dead_id_def mark_running_def split: option.splits)
next
  case (tq_done q tid t now res)
  then have "tid \<noteq> k" by (auto simp: dead_id_def)
  with tq_done.prems(2) show ?case
    by (cases "dict_get (tq_tasks q) k")
       (auto simp: dead_id_def mark_completed_get(5) [OF tq_done.hyps(1)] split: if_splits)
next
  case (tq_fail q tid t now err)
  then have "tid \<noteq> k" by (auto simp: dead_id_def)
  with tq_fail.prems(2) show ?case
    by (auto simp: dead_id_def mark_failed_get(1) [OF tq_fail.hyps(1)])
next
  case (tq_clear q)
  then show ?case
    by (auto simp: dead_id_def tq_inv_def clear_get split: option.splits if_splits)
qed

interpretation dead_task: invariant_system "some_step tq_step (\<lambda>l. l \<noteq> LAdd k)" "\<lambda>q. tq_inv q \<and> dead_id k q" for k
  by unfold_locales (auto simp: some_step_def intro: tq_inv_step dead_id_step)

lemma dead_id_steps:
  "tq_steps q ls q' \<Longrightarrow> tq_run ks q \<Longrightarrow> dead_id k q \<Longrightarrow> LAdd k \<notin> set ls \<Longrightarrow> dead_id k q'"
proof -
  assume run: "tq_steps q ls q'" and "tq_run ks q" "dead_id k q" and adds: "LAdd k \<notin> set ls"
  then have "tq_inv q \<and> dead_id k q" by (simp add: tq_inv_run)
  moreover have "(some_step tq_step (\<lambda>l. l \<noteq> LAdd k))\<^sup>*\<^sup>* q q'"
    by (rule run_steps [OF run]) (use adds in \<open>auto simp: list_all_iff\<close>)
  ultimately show ?thesis using dead_task.good_run by blast
qed

section \<open>Properties\<close>

text \<open>An example run: a task and a dependent of it, the first one started.\<close>

definition demo_queue :: task_queue where
  "demo_queue = snd (add_task (new_task ''b'' ''B'' 5 [''a''] 1) (snd (add_task (new_task ''a'' ''A'' 0 [] 0) (tq_init 5))))"

lemma demo_queue_eq:
  "demo_queue = \<lparr>tq_tasks = [(''a'', new_task ''a'' ''A'' 0 [] 0),
      (''b'', (new_task ''b'' ''B'' 5 [''a''] 1)\<lparr>qt_status := WAITING_DEPS\<rparr>)],
    max_concurrent = 5, running_count = 0, tq_timers = []\<rparr>"
  by (simp add: demo_queue_def add_task_def Let_def tq_init_def check_dependencies_def new_task_def
      dict_put_def)

lemma demo_queue_run: "tq_run [LAdd ''a'', LAdd ''b''] demo_queue"
proof -
  let ?a = "new_task ''a'' ''A'' 0 [] 0" and ?b = "new_task ''b'' ''B'' 5 [''a''] 1"
  have "tq_run ([] @ [LAdd (qt_id ?a)]) (snd (add_task ?a (tq_init 5)))"
    by (rule tq_run_step [OF tq_run_init tq_add]) (simp_all add: tq_init_def new_task_def)
  then have "tq_run (([] @ [LAdd (qt_id ?a)]) @ [LAdd (qt_id ?b)]) demo_queue"
    unfolding demo_queue_def
    by (rule tq_run_step [OF _ tq_add])
       (simp_all add: tq_init_def new_task_def add_task_def check_dependencies_def dict_put_def Let_def)
  then show ?thesis by (simp add: new_task_def)
qed

text \<open>
  C5. Dependencies: in every queue a disciplined client can reach, a ready, running or completed
  task has all its dependencies completed, a task waits for its dependencies exactly as long as
  one of them is not completed, the running counter counts the running tasks, and no task is
  left in the states \<open>FAILED\<close> or \<open>TIMEOUT\<close>.
\<close>

theorem tasks_wait_exactly_for_dependencies:
  assumes "tq_run ls q" and "dict_get (tq_tasks q) k = Some t"
  shows "(qt_status t \<in> {PENDING, RUNNING, COMPLETED} \<longrightarrow> check_dependencies t q) \<and>
    (qt_status t = WAITING_DEPS \<longrightarrow> \<not> check_dependencies t q) \<and>
    (t \<in> set (get_ready_tasks q) \<longleftrightarrow> qt_status t = PENDING) \<and>
    qt_status t \<notin> {FAILED, TIMEOUT} \<and>
    running_count q = int (length (filter (\<lambda>t. qt_status t = RUNNING) (dict_values (tq_tasks q))))"
proof -
  from tq_inv_run [OF assms(1)] have inv: "tq_inv q" and wf: "dict_wf (tq_tasks q)"
    by (simp_all add: tq_inv_def)
  let ?running = "filter (\<lambda>(k, t). qt_status t = RUNNING) (tq_tasks q)"
  have "ids_with RUNNING (tq_tasks q) = set (map fst ?running)"
    using dict_mem_get [OF wf] by (force simp: ids_with_def)
  moreover have "distinct (map fst ?running)"
    using wf by (simp add: dict_wf_def distinct_map_filter)
  ultimately have "card (ids_with RUNNING (tq_tasks q)) = length (map fst ?running)"
    by (metis distinct_card)
  also have "\<dots> = length (filter (\<lambda>t. qt_status t = RUNNING) (dict_values (tq_tasks q)))"
    by (simp add: filter_map comp_def case_prod_unfold)
  finally show ?thesis
    using inv tq_invD [OF inv assms(2)] assms(2)
    by (auto simp: tq_inv_def task_ok_def check_dependencies_def ready_get [OF wf])
qed

theorem tasks_wait_exactly_for_dependencies_witness:
  "\<not> check_dependencies ((new_task ''b'' ''B'' 5 [''a''] 1)\<lparr>qt_status := WAITING_DEPS\<rparr>) demo_queue"
  using tasks_wait_exactly_for_dependencies [OF demo_queue_run, of "''b''"
      "(new_task ''b'' ''B'' 5 [''a''] 1)\<lparr>qt_status := WAITING_DEPS\<rparr>"]
  by (simp add: demo_queue_eq)

text \<open>
  C6. Progress: when every task is added after the tasks it depends on and none is cancelled or
  dead, a queue with nothing ready and nothing running has completed every task: it cannot
  deadlock.
\<close>

theorem orderly_queue_never_deadlocks:
  assumes "tq_orderly q" and "dead_letter_count q = 0"
    and "get_ready_tasks q = []" and "running_count q = 0"
  shows "\<forall>t \<in> set (dict_values (tq_tasks q)). qt_status t = COMPLETED"
proof -
  from orderly_run [OF assms(1)] have inv: "tq_inv q" by (blast intro: tq_inv_run)
  then have wf: "dict_wf (tq_tasks q)" by (simp add: tq_inv_def)
  show ?thesis
  proof (rule all_completed [OF wf, of "{}"])
    fix k t
    assume t: "dict_get (tq_tasks q) k = Some t"
    then have "t \<in> set (dict_values (tq_tasks q))" by (force dest: dict_get_mem)
    with assms(2) have "qt_status t \<noteq> DEAD_LETTER"
      by (auto simp: dead_letter_count_def filter_empty_conv)
    moreover have "qt_status t \<noteq> RUNNING"
      using inv assms(4) t finite_ids_with by (auto simp: tq_inv_def ids_with_def)
    moreover have "qt_status t \<noteq> PENDING"
      using assms(3) ready_get [OF wf, of t] t by auto
    moreover have "qt_status t \<noteq> CANCELLED"
      using orderly_inv [OF assms(1)] t by (auto simp: no_cancelled_def)
    ultimately show "qt_status t = COMPLETED \<or>
        qt_status t = WAITING_DEPS \<and> \<not> check_deps (qt_dependencies t) (tq_tasks q)"
      using tq_invD [OF inv t] by (cases "qt_status t") (auto simp: task_ok_def)
  qed (use orderly_inv [OF assms(1)] in simp_all)
qed

theorem orderly_queue_never_deadlocks_witness:
  "map qt_status (dict_values (tq_tasks (mark_completed 1 ''a'' PNone (mark_running 0 ''a''
      (snd (add_task (new_task ''a'' ''A'' 0 [] 0) (tq_init 5))))))) = [COMPLETED]"
proof -
  let ?q0 = "snd (add_task (new_task ''a'' ''A'' 0 [] 0) (tq_init 5))"
  let ?q1 = "mark_running 0 ''a'' ?q0" and ?q2 = "mark_completed 1 ''a'' PNone (mark_running 0 ''a'' ?q0)"
  have q0: "?q0 = \<lparr>tq_tasks = [(''a'', new_task ''a'' ''A'' 0 [] 0)], max_concurrent = 5,
      running_count = 0, tq_timers = []\<rparr>"
    by (simp add: add_task_def Let_def tq_init_def check_dependencies_def new_task_def dict_put_def)
  have q1: "?q1 = \<lparr>tq_tasks = [(''a'', (new_task ''a'' ''A'' 0 [] 0)\<lparr>qt_status := RUNNING,
      started_at := Some 0\<rparr>)], max_concurrent = 5, running_count = 1, tq_timers = []\<rparr>"
    unfolding q0 by (simp add: mark_running_def set_task_def dict_mut_def)
  have q2: "?q2 = \<lparr>tq_tasks = [(''a'', (new_task ''a'' ''A'' 0 [] 0)\<lparr>qt_status := COMPLETED,
      started_at := Some 0, qt_result := PNone, completed_at := Some 1\<rparr>)], max_concurrent = 5,
      running_count = 0, tq_timers = []\<rparr>"
    unfolding q1 by (simp add: mark_completed_def set_task_def dict_mut_def unblock_dependents_def
        unblock_one_def)
  have o0: "tq_orderly ?q0"
    by (rule orderly_add [OF orderly_init]) (simp_all add: tq_init_def new_task_def)
  have "tq_step ?q0 (LRun (qt_id (new_task ''a'' ''A'' 0 [] 0))) (mark_running 0 (qt_id (new_task ''a'' ''A'' 0 [] 0)) ?q0)"
    by (rule tq_run, unfold q0) (simp add: get_ready_tasks_def new_task_def)
  then have "tq_orderly ?q1"
    by (intro orderly_work [OF o0, where l = "LRun ''a''"]) (simp_all add: new_task_def)
  moreover have "tq_step ?q1 (LDone ''a'') ?q2"
    by (rule tq_done, unfold q1) (simp, simp add: new_task_def)
  ultimately have "tq_orderly ?q2" by (rule orderly_work) blast
  from orderly_queue_never_deadlocks [OF this] show ?thesis
    unfolding q2 by (simp add: dead_letter_count_def get_ready_tasks_def)
qed

text \<open>
  The ready list is a stable sort of the pending tasks: higher priorities first, earlier
  creation first among equals, and insertion order among equal pairs.
\<close>

theorem ready_tasks_sorted_and_stable:
  "mset (get_ready_tasks q) = mset (filter (\<lambda>t. qt_status t = PENDING) (dict_values (tq_tasks q))) \<and>
   sorted_wrt (\<lambda>t u. qt_priority u < qt_priority t \<or>
       qt_priority u = qt_priority t \<and> qt_created_at t \<le> qt_created_at u) (get_ready_tasks q) \<and>
   filter (\<lambda>t. qt_priority t = p \<and> qt_created_at t = c) (get_ready_tasks q) =
     filter (\<lambda>t. qt_status t = PENDING \<and> qt_priority t = p \<and> qt_created_at t = c)
       (dict_values (tq_tasks q))"
proof -
  let ?pending = "filter (\<lambda>t. qt_status t = PENDING) (dict_values (tq_tasks q))"
  have "sorted (map ready_key (get_ready_tasks q))"
    unfolding get_ready_tasks_def by (rule sorted_sort_key)
  then have "sorted_wrt (\<lambda>t u. ready_key t \<le> ready_key u) (get_ready_tasks q)"
    by (simp add: sorted_map)
  then have "sorted_wrt (\<lambda>t u. qt_priority u < qt_priority t \<or>
       qt_priority u = qt_priority t \<and> qt_created_at t \<le> qt_created_at u) (get_ready_tasks q)"
    by (rule sorted_wrt_mono_rel [rotated]) (auto simp: ready_key_def less_eq_prod_def)
  moreover have "filter (\<lambda>t. ready_key t = (- p, c)) (get_ready_tasks q) =
      filter (\<lambda>t. ready_key t = (- p, c)) ?pending"
    unfolding get_ready_tasks_def by (rule sort_key_stable)
  then have "filter (\<lambda>t. qt_priority t = p \<and> qt_created_at t = c) (get_ready_tasks q) =
      filter (\<lambda>t. qt_status t = PENDING \<and> qt_priority t = p \<and> qt_created_at t = c)
       (dict_values (tq_tasks q))"
    by (simp add: ready_key_def conj_commute conj_left_commute)
  ultimately show ?thesis by (simp add: get_ready_tasks_def)
qed



text \<open>
  The backoff delay, though bounded by \<open>max_delay\<close> and handed to the event loop, delays
  nothing: a failed task with retries left is ready again in the very state after the failure.
\<close>

theorem retry_is_ready_at_once:
  assumes "tq_run ls q" and "dict_get (tq_tasks q) tid = Some t" and "qt_status t = RUNNING"
    and "int (retries_used t) < max_retries (qt_policy t)"
    and "q' = mark_failed now tid err q"
  shows "\<exists>t'. dict_get (tq_tasks q') tid = Some t' \<and> t' \<in> set (get_ready_tasks q') \<and>
    retries_used t' = Suc (retries_used t) \<and> qt_error t' = None \<and>
    tq_timers q' = tq_timers q @ [retry_delay t'] \<and> retry_delay t' \<le> max_delay (qt_policy t')"
proof -
  have "dict_wf (tq_tasks q')"
    using tq_inv_run [OF assms(1)] by (simp add: assms(5) mark_failed_get(3) [OF assms(2)] tq_inv_def)
  then have "failed_task now err t \<in> set (get_ready_tasks q')"
    using assms(4) mark_failed_get(1) [OF assms(2), of now err tid]
    by (auto simp: ready_get assms(5) failed_task_def)
  then show ?thesis
    using mark_failed_get(1) [OF assms(2), of now err tid] mark_failed_get(4) [OF assms(2), of now err]
      assms(4)
    by (auto simp: assms(5) failed_task_def retry_delay_def)
qed

theorem retry_is_ready_at_once_witness:
  "tq_timers (mark_failed 1 ''a'' ''e'' (mark_running 0 ''a'' demo_queue)) = [1]"
proof -
  let ?q = "mark_running 0 (qt_id (new_task ''a'' ''A'' 0 [] 0)) demo_queue"
  let ?t = "(new_task ''a'' ''A'' 0 [] 0)\<lparr>qt_status := RUNNING, started_at := Some 0\<rparr>"
  have "tq_run ([LAdd ''a'', LAdd ''b''] @ [LRun (qt_id (new_task ''a'' ''A'' 0 [] 0))]) ?q"
    by (rule tq_run_step [OF demo_queue_run tq_run])
       (simp add: demo_queue_eq get_ready_tasks_def new_task_def)
  moreover have t: "dict_get (tq_tasks ?q) ''a'' = Some ?t" and timers: "tq_timers ?q = []"
    by (simp_all add: mark_running_def demo_queue_eq new_task_def)
  ultimately have "tq_timers (mark_failed 1 ''a'' ''e'' ?q) = [retry_delay (failed_task 1 ''e'' ?t)]"
    using retry_is_ready_at_once [OF _ t _ _ refl, where now = 1 and err = "''e''"]
      mark_failed_get(1) [OF t, where now = 1 and err = "''e''" and k = "''a''"]
    by (auto simp: new_task_def default_policy_def)
  then show ?thesis
    by (simp add: failed_task_def retry_delay_def new_task_def default_policy_def)
qed

text \<open>
  A dependency that was cancelled or is a dead letter blocks its dependents for good: unless a
  task with the same identifier is added again, no continuation of the run, clearing the
  dead letters included, makes a dependent ready, running or completed.
\<close>

theorem dead_dependency_blocks_dependents:
  assumes "tq_run ks q" and "tq_steps q ls q'" and "LAdd dep \<notin> set ls"
    and "dict_get (tq_tasks q) dep = Some d" and "qt_status d \<in> {CANCELLED, DEAD_LETTER}"
    and "dict_get (tq_tasks q') k = Some t" and "dep \<in> set (qt_dependencies t)"
  shows "qt_status t \<in> {WAITING_DEPS, CANCELLED, DEAD_LETTER} \<and> t \<notin> set (get_ready_tasks q')"
proof -
  from tq_run_append [OF assms(2,1)] have inv: "tq_inv q'" by (blast intro: tq_inv_run)
  have "dead_id dep q'"
    using dead_id_steps [OF assms(2,1) _ assms(3)] assms(4,5) by (auto simp: dead_id_def)
  then have "\<not> check_deps (qt_dependencies t) (tq_tasks q')"
    using assms(7) by (auto simp: check_deps_iff dead_id_def ids_with_def)
  with tq_invD [OF inv assms(6)] have "qt_status t \<in> {WAITING_DEPS, CANCELLED, DEAD_LETTER}"
    by (cases "qt_status t") (auto simp: task_ok_def)
  then show ?thesis by (auto simp: get_ready_tasks_def)
qed

theorem dead_dependency_blocks_dependents_witness:
  "(new_task ''b'' ''B'' 5 [''a''] 1)\<lparr>qt_status := WAITING_DEPS\<rparr>
     \<notin> set (get_ready_tasks (snd (cancel_task 2 ''a'' demo_queue)))"
proof -
  let ?q = "snd (cancel_task 2 ''a'' demo_queue)"
  have run: "tq_run ([LAdd ''a'', LAdd ''b''] @ [LCancel ''a'']) ?q"
    by (rule tq_run_step [OF demo_queue_run tq_cancel])
  have "dict_get (tq_tasks ?q) ''a'' =
      Some ((new_task ''a'' ''A'' 0 [] 0)\<lparr>qt_status := CANCELLED, completed_at := Some 2\<rparr>)"
    "dict_get (tq_tasks ?q) ''b'' = Some ((new_task ''b'' ''B'' 5 [''a''] 1)\<lparr>qt_status := WAITING_DEPS\<rparr>)"
    by (simp_all add: cancel_task_get cancelled_task_def demo_queue_eq new_task_def)
  from dead_dependency_blocks_dependents [OF run tq_steps_refl _ this(1) _ this(2)] show ?thesis
    by (simp add: new_task_def)
qed

text \<open>
  C20. Completing a running task releases exactly the waiting tasks for which it was the last missing
  dependency, and changes nothing else of any other task.
\<close>

theorem completion_releases_exactly_last_dependents:
  assumes "tq_run ls q" and "dict_get (tq_tasks q) tid = Some t" and "qt_status t = RUNNING"
    and "q' = mark_completed now tid res q" and "k \<noteq> tid" and "dict_get (tq_tasks q) k = Some u"
  shows "\<exists>u'. dict_get (tq_tasks q') k = Some u' \<and>
    (qt_status u' = PENDING \<and> qt_status u = WAITING_DEPS \<longleftrightarrow>
       qt_status u = WAITING_DEPS \<and> tid \<in> set (qt_dependencies u) \<and>
       (\<forall>dep \<in> set (qt_dependencies u). dep = tid \<or>
          (\<exists>d. dict_get (tq_tasks q) dep = Some d \<and> qt_status d = COMPLETED))) \<and>
    u'\<lparr>qt_status := qt_status u\<rparr> = u \<and> qt_status u' \<in> {qt_status u, PENDING}"
proof -
  let ?u = "if qt_status u = WAITING_DEPS \<and>
      set (qt_dependencies u) \<subseteq> insert tid (ids_with COMPLETED (tq_tasks q))
    then u\<lparr>qt_status := PENDING\<rparr> else u"
  have get: "dict_get (tq_tasks q') k = Some ?u"
    using assms(5,6) by (simp add: assms(4) mark_completed_get(5) [OF assms(2)])
  have waits: "\<not> set (qt_dependencies u) \<subseteq> ids_with COMPLETED (tq_tasks q)"
    if "qt_status u = WAITING_DEPS"
    using tq_invD [OF tq_inv_run [OF assms(1)] assms(6)] that
    by (simp add: task_ok_def check_deps_iff)
  have same: "?u\<lparr>qt_status := qt_status u\<rparr> = u" by simp
  show ?thesis
  proof (intro exI conjI, rule get)
    show "(qt_status ?u = PENDING \<and> qt_status u = WAITING_DEPS) \<longleftrightarrow>
       (qt_status u = WAITING_DEPS \<and> tid \<in> set (qt_dependencies u) \<and>
       (\<forall>dep \<in> set (qt_dependencies u). dep = tid \<or>
          (\<exists>d. dict_get (tq_tasks q) dep = Some d \<and> qt_status d = COMPLETED)))"
      using waits unfolding ids_with_def by (auto simp: subset_iff)
    show "?u\<lparr>qt_status := qt_status u\<rparr> = u" by (rule same)
  qed simp
qed

theorem completion_releases_exactly_last_dependents_witness:
  "\<exists>u'. dict_get (tq_tasks (mark_completed 1 ''a'' PNone (mark_running 0 ''a'' demo_queue))) ''b'' = Some u' \<and>
     qt_status u' = PENDING"
proof -
  let ?q = "mark_running 0 (qt_id (new_task ''a'' ''A'' 0 [] 0)) demo_queue"
  let ?t = "(new_task ''a'' ''A'' 0 [] 0)\<lparr>qt_status := RUNNING, started_at := Some 0\<rparr>"
  have run: "tq_run ([LAdd ''a'', LAdd ''b''] @ [LRun (qt_id (new_task ''a'' ''A'' 0 [] 0))]) ?q"
    by (rule tq_run_step [OF demo_queue_run tq_run])
       (simp add: demo_queue_eq get_ready_tasks_def new_task_def)
  have "dict_get (tq_tasks ?q) ''a'' = Some ?t"
    "dict_get (tq_tasks ?q) ''b'' = Some ((new_task ''b'' ''B'' 5 [''a''] 1)\<lparr>qt_status := WAITING_DEPS\<rparr>)"
    by (simp_all add: mark_running_def demo_queue_eq new_task_def)
  from completion_releases_exactly_last_dependents [OF run this(1) _ refl _ this(2), of 1 PNone]
  show ?thesis by (auto simp: new_task_def)
qed

end
