(* ===== verification/Coordinator.thy ===== *)
theory Coordinator
  imports MessageBus SharedState TaskQueue
begin

text \<open>
  Agent life cycle and task routing: \<^verbatim>\<open>src/agent/coordination/coordinator.py\<close> and the
  orchestrator on top of it in \<^verbatim>\<open>src/agent/orchestrator.py\<close>.

  The record \<open>coordinator\<close> holds the registry of agents and the three primitives it works on. The
  constructor takes an optional queue; \<open>queue or task_queue\<close> asks Python for the truth of the
  queue, which its \<open>__len__\<close> decides, so both the injected queue and the module's singleton are
  kept, with the choice made. Every operation takes the clock reading and the identifier of the
  message it publishes; \<open>heartbeat_check\<close> is one round of the monitoring loop.
\<close>

section \<open>Data model\<close>

datatype AgentStatus = REGISTERED | STARTING | ACTIVE | IDLE | DEGRADED | STOPPING | STOPPED

definition status_value :: "AgentStatus \<Rightarrow> string" where
  "status_value st = (case st of REGISTERED \<Rightarrow> ''registered'' | STARTING \<Rightarrow> ''starting''
     | ACTIVE \<Rightarrow> ''active'' | IDLE \<Rightarrow> ''idle'' | DEGRADED \<Rightarrow> ''degraded''
     | STOPPING \<Rightarrow> ''stopping'' | STOPPED \<Rightarrow> ''stopped'')"

record agent_info =
  ag_name :: string
  ag_status :: AgentStatus
  ag_capabilities :: "string list"
  registered_at :: time
  last_heartbeat :: time
  tasks_completed :: nat
  tasks_failed :: nat
  ag_metadata :: "(string, pyval) dict"

record coordinator =
  co_bus :: bus
  co_state :: shared_state
  co_injected :: "task_queue option"
  co_singleton :: task_queue
  co_uses_injected :: bool
  co_agents :: "(string, agent_info) dict"
  co_monitor :: bool
  co_running :: bool

definition heartbeat_interval :: rat where
  "heartbeat_interval = 15"

definition heartbeat_timeout :: rat where
  "heartbeat_timeout = 45"

definition queue_truth :: "task_queue option \<Rightarrow> bool" where
  "queue_truth q = (case q of None \<Rightarrow> False | Some q \<Rightarrow> tq_len q \<noteq> 0)"

definition co_init :: "bus \<Rightarrow> shared_state \<Rightarrow> task_queue option \<Rightarrow> task_queue \<Rightarrow> coordinator" where
  "co_init b st injected singleton =
     \<lparr>co_bus = b, co_state = st, co_injected = injected, co_singleton = singleton,
      co_uses_injected = queue_truth injected, co_agents = [], co_monitor = False,
      co_running = False\<rparr>"

definition co_queue :: "coordinator \<Rightarrow> task_queue" where
  "co_queue c =
     (if co_uses_injected c then (case co_injected c of None \<Rightarrow> co_singleton c | Some q \<Rightarrow> q)
      else co_singleton c)"

definition co_set_queue :: "task_queue \<Rightarrow> coordinator \<Rightarrow> coordinator" where
  "co_set_queue q c =
     (if co_uses_injected c then c\<lparr>co_injected := Some q\<rparr> else c\<lparr>co_singleton := q\<rparr>)"

section \<open>Messages and state keys\<close>

definition co_message :: "time \<Rightarrow> string \<Rightarrow> string \<Rightarrow> (string, pyval) dict \<Rightarrow> MessageType \<Rightarrow> message" where
  "co_message now mid topic payload ty =
     \<lparr>msg_topic = topic, msg_sender = ''coordinator'', msg_payload = payload, msg_type = ty,
      msg_id = mid, msg_timestamp = now, msg_priority = 0, msg_reply_to = None\<rparr>"

definition co_publish :: "message \<Rightarrow> coordinator \<Rightarrow> coordinator" where
  "co_publish m c = c\<lparr>co_bus := publish m (co_bus c)\<rparr>"

definition agent_key :: "string \<Rightarrow> string \<Rightarrow> string" where
  "agent_key name field = ''agent.'' @ name @ CHR ''.'' # field"

definition co_state_set :: "time \<Rightarrow> string \<Rightarrow> string \<Rightarrow> pyval \<Rightarrow> coordinator \<Rightarrow> coordinator" where
  "co_state_set now src key v c =
     c\<lparr>co_state := fst (snd (st_set now key v src None (co_state c)))\<rparr>"

section \<open>Agents\<close>

definition register_agent ::
    "time \<Rightarrow> string \<Rightarrow> string \<Rightarrow> string list option \<Rightarrow> (string, pyval) dict option
     \<Rightarrow> coordinator \<Rightarrow> agent_info \<times> coordinator" where
  "register_agent now mid name capabilities metadata c =
     (let info = \<lparr>ag_name = name, ag_status = REGISTERED,
                  ag_capabilities = (case capabilities of None \<Rightarrow> [] | Some cs \<Rightarrow> cs),
                  registered_at = now, last_heartbeat = now, tasks_completed = 0,
                  tasks_failed = 0,
                  ag_metadata = (case metadata of None \<Rightarrow> [] | Some d \<Rightarrow> d)\<rparr>;
          caps = PList (map PStr (ag_capabilities info));
          c1 = c\<lparr>co_agents := dict_put name info (co_agents c)\<rparr>;
          c2 = co_state_set now ''coordinator'' (agent_key name ''status'')
                 (PStr (status_value REGISTERED)) c1;
          c3 = co_state_set now ''coordinator'' (agent_key name ''capabilities'') caps c2
      in (info, co_publish (co_message now mid ''coordinator.agent.registered''
                  [(''agent'', PStr name), (''capabilities'', caps)] AGENT_MSG) c3))"

definition deregister_agent ::
    "time \<Rightarrow> string \<Rightarrow> string \<Rightarrow> coordinator \<Rightarrow> bool \<times> coordinator" where
  "deregister_agent now mid name c =
     (if dict_get (co_agents c) name = None then (False, c)
      else
        (let c1 = c\<lparr>co_agents := dict_mut name (\<lambda>i. i\<lparr>ag_status := STOPPING\<rparr>) (co_agents c)\<rparr>;
             c2 = co_state_set now ''coordinator'' (agent_key name ''status'')
                    (PStr (status_value STOPPED)) c1;
             c3 = co_publish (co_message now mid ''coordinator.agent.deregistered''
                    [(''agent'', PStr name)] AGENT_MSG) c2
         in (True, c3\<lparr>co_agents := dict_del name (co_agents c3)\<rparr>)))"

definition get_agent :: "string \<Rightarrow> coordinator \<Rightarrow> agent_info option" where
  "get_agent name c = dict_get (co_agents c) name"

definition list_agents :: "coordinator \<Rightarrow> agent_info list" where
  "list_agents c = dict_values (co_agents c)"

definition co_heartbeat :: "time \<Rightarrow> string \<Rightarrow> coordinator \<Rightarrow> coordinator" where
  "co_heartbeat now name c =
     (case dict_get (co_agents c) name of
        None \<Rightarrow> c
      | Some _ \<Rightarrow>
          co_state_set now name (agent_key name ''heartbeat'') (PFloat now)
            (c\<lparr>co_agents := dict_mut name
                 (\<lambda>i. i\<lparr>last_heartbeat := now,
                        ag_status := (if ag_status i \<in> {REGISTERED, DEGRADED} then ACTIVE
                                      else ag_status i)\<rparr>) (co_agents c)\<rparr>))"

definition degrade :: "time \<Rightarrow> agent_info \<Rightarrow> agent_info" where
  "degrade now i =
     (if now - last_heartbeat i > heartbeat_timeout \<and> ag_status i \<noteq> DEGRADED
      then i\<lparr>ag_status := DEGRADED\<rparr> else i)"

definition heartbeat_check :: "time \<Rightarrow> coordinator \<Rightarrow> coordinator" where
  "heartbeat_check now c =
     (if co_running c \<and> co_monitor c
      then c\<lparr>co_agents := map (\<lambda>(n, i). (n, degrade now i)) (co_agents c)\<rparr> else c)"

section \<open>Life cycle\<close>

definition co_start :: "coordinator \<Rightarrow> coordinator" where
  "co_start c =
     (if co_running c then c
      else c\<lparr>co_running := True, co_bus := bus_start (co_bus c), co_monitor := True\<rparr>)"

text \<open>\<open>mid\<close> gives the identifier of each agent's deregistration message.\<close>

definition co_stop :: "time \<Rightarrow> (string \<Rightarrow> string) \<Rightarrow> coordinator \<Rightarrow> coordinator \<times> exn option" where
  "co_stop now mid c =
     (let c1 = c\<lparr>co_running := False\<rparr>;
          c2 = fold (\<lambda>n c. snd (deregister_agent now (mid n) n c)) (dict_keys (co_agents c1)) c1;
          c3 = c2\<lparr>co_monitor := False\<rparr>;
          (b, err) = bus_stop (co_bus c3)
      in (c3\<lparr>co_bus := b\<rparr>, err))"

section \<open>Task routing\<close>

definition submit_task ::
    "time \<Rightarrow> string \<Rightarrow> queue_task \<Rightarrow> string option \<Rightarrow> coordinator \<Rightarrow> (exn + string) \<times> coordinator" where
  "submit_task now mid t target c =
     (if (case target of None \<Rightarrow> False | Some n \<Rightarrow> n \<noteq> [] \<and> dict_get (co_agents c) n = None)
      then (Inl ValueError, c)
      else
        (let (tid, q) = add_task t (co_queue c);
             m = co_message now mid ''coordinator.task.submitted''
                   [(''task_id'', PStr tid),
                    (''target'', case target of None \<Rightarrow> PNone | Some n \<Rightarrow> PStr n)] TASK_REQUEST
         in (Inr tid, co_publish m (co_set_queue q c))))"

definition complete_task :: "time \<Rightarrow> string \<Rightarrow> string \<Rightarrow> pyval \<Rightarrow> coordinator \<Rightarrow> coordinator" where
  "complete_task now mid tid res c =
     co_publish (co_message now mid ''coordinator.task.completed''
                   [(''task_id'', PStr tid), (''result'', res)] TASK_RESULT)
       (co_set_queue (mark_completed now tid res (co_queue c)) c)"

definition fail_task :: "time \<Rightarrow> string \<Rightarrow> string \<Rightarrow> string \<Rightarrow> coordinator \<Rightarrow> coordinator" where
  "fail_task now mid tid err c =
     co_publish (co_message now mid ''coordinator.task.failed''
                   [(''task_id'', PStr tid), (''error'', PStr err)] TASK_RESULT)
       (co_set_queue (mark_failed now tid err (co_queue c)) c)"

record co_stats =
  st_agents :: nat
  st_active :: nat
  st_queue :: "(TaskStatus, nat) dict"
  st_dead_letters :: nat

definition co_get_stats :: "coordinator \<Rightarrow> co_stats" where
  "co_get_stats c =
     \<lparr>st_agents = length (co_agents c),
      st_active = length (filter (\<lambda>i. ag_status i = ACTIVE) (dict_values (co_agents c))),
      st_queue = tq_stats (co_queue c), st_dead_letters = dead_letter_count (co_queue c)\<rparr>"

section \<open>The orchestrator\<close>

text \<open>
  \<open>OmegaOrchestrator\<close> in its default wiring, where its bus, queue and store are those of its
  coordinator: starting and stopping reach the bus twice, and the report reads the shared parts.
\<close>

definition or_start :: "coordinator \<Rightarrow> coordinator" where
  "or_start c = (let c1 = co_start c in c1\<lparr>co_bus := bus_start (co_bus c1)\<rparr>)"

definition or_stop :: "time \<Rightarrow> (string \<Rightarrow> string) \<Rightarrow> coordinator \<Rightarrow> coordinator \<times> exn option" where
  "or_stop now mid c =
     (case co_stop now mid c of
        (c1, Some err) \<Rightarrow> (c1, Some err)
      | (c1, None) \<Rightarrow> (let (b, err) = bus_stop (co_bus c1) in (c1\<lparr>co_bus := b\<rparr>, err)))"

definition or_submit_task ::
    "time \<Rightarrow> string \<Rightarrow> string \<Rightarrow> string \<Rightarrow> nat option \<Rightarrow> int \<Rightarrow> pyval list
     \<Rightarrow> (string, pyval) dict option \<Rightarrow> rat option \<Rightarrow> string list option
     \<Rightarrow> coordinator \<Rightarrow> (exn + string) \<times> coordinator" where
  "or_submit_task now mid tid name handler prio args kwargs timeout deps c =
     submit_task now mid
       ((new_task tid name prio (case deps of None \<Rightarrow> [] | Some ds \<Rightarrow> ds) now)
          \<lparr>qt_handler := handler, qt_args := args,
           qt_kwargs := (case kwargs of None \<Rightarrow> [] | Some d \<Rightarrow> d), qt_timeout := timeout\<rparr>)
       None c"

definition or_health_report ::
    "time \<Rightarrow> coordinator \<Rightarrow> co_stats \<times> (TaskStatus, nat) dict \<times> (string, nat) dict" where
  "or_health_report now c = (co_get_stats c, tq_stats (co_queue c), ss_get_stats now (co_state c))"

section \<open>Lemmas\<close>

lemma co_set_queue_simps [simp]:
  "co_bus (co_set_queue q c) = co_bus c" "co_state (co_set_queue q c) = co_state c"
  "co_agents (co_set_queue q c) = co_agents c" "co_running (co_set_queue q c) = co_running c"
  "co_uses_injected (co_set_queue q c) = co_uses_injected c"
  "co_queue (co_set_queue q c) = q" "co_monitor (co_set_queue q c) = co_monitor c"
  by (simp_all add: co_set_queue_def co_queue_def)

lemma co_publish_simps [simp]:
  "bus_queue (co_bus (co_publish m c)) = bus_queue (co_bus c) @ [m]"
  "co_state (co_publish m c) = co_state c" "co_agents (co_publish m c) = co_agents c"
  "co_running (co_publish m c) = co_running c" "co_queue (co_publish m c) = co_queue c"
  "co_injected (co_publish m c) = co_injected c" "co_singleton (co_publish m c) = co_singleton c"
  "co_uses_injected (co_publish m c) = co_uses_injected c" "co_monitor (co_publish m c) = co_monitor c"
  by (simp_all add: co_publish_def mbus.pending_pub co_queue_def split: option.split)

lemma co_state_set_simps [simp]:
  "co_bus (co_state_set now src k v c) = co_bus c" "co_agents (co_state_set now src k v c) = co_agents c"
  "co_running (co_state_set now src k v c) = co_running c"
  "co_queue (co_state_set now src k v c) = co_queue c"
  "co_injected (co_state_set now src k v c) = co_injected c"
  "co_singleton (co_state_set now src k v c) = co_singleton c"
  "co_uses_injected (co_state_set now src k v c) = co_uses_injected c"
  "co_monitor (co_state_set now src k v c) = co_monitor c"
  by (simp_all add: co_state_set_def co_queue_def split: option.split)

text \<open>The coordinator never gives a time-to-live, so what it writes does not expire.\<close>

definition no_ttl :: "shared_state \<Rightarrow> bool" where
  "no_ttl s \<longleftrightarrow> (\<forall>k e. dict_get (ss_store s) k = Some e \<longrightarrow> ent_ttl e = None)"

lemma no_ttl_ttls_ok: "no_ttl s \<Longrightarrow> ttls_ok s"
  by (auto simp: no_ttl_def ttls_ok_def ttl_ok_def)

lemma no_ttl_view: "no_ttl s \<Longrightarrow> view t s = view t' s"
  by (auto simp: fun_eq_iff view_def view_entry_def no_ttl_def is_expired_def split: option.splits)

lemma no_ttl_set:
  assumes "no_ttl s"
  shows "no_ttl (fst (snd (st_set now k v src None s)))"
proof -
  obtain e s' ns where eq: "st_set now k v src None s = (e, s', ns)" by (metis prod_cases3)
  from st_set_store [OF eq] assms show ?thesis
    by (auto simp: eq no_ttl_def effective_ttl_def split: option.splits)
qed

lemma co_state_set_view:
  assumes "no_ttl (co_state c)"
  shows "no_ttl (co_state (co_state_set now src k v c))"
    and "view t (co_state (co_state_set now src k v c)) = (view t (co_state c))(k \<mapsto> v)"
proof -
  show n: "no_ttl (co_state (co_state_set now src k v c))"
    using no_ttl_set [OF assms] by (simp add: co_state_set_def)
  have "view now (co_state (co_state_set now src k v c)) = (view now (co_state c))(k \<mapsto> v)"
    using ss_at.look_write [OF no_ttl_ttls_ok [OF assms], of now src k v]
    by (auto simp: fun_eq_iff co_state_set_def state_write_def)
  then show "view t (co_state (co_state_set now src k v c)) = (view t (co_state c))(k \<mapsto> v)"
    using no_ttl_view [OF n, of t now] no_ttl_view [OF assms, of t now] by simp
qed

lemma agent_key_inj [simp]: "agent_key n f = agent_key m f \<longleftrightarrow> n = m"
  by (simp add: agent_key_def)

lemma agent_key_field:
  assumes "CHR ''.'' \<notin> set f" and "CHR ''.'' \<notin> set g" and "f \<noteq> g"
  shows "agent_key n f \<noteq> agent_key m g"
proof
  assume "agent_key n f = agent_key m g"
  then have "takeWhile (\<lambda>c. c \<noteq> CHR ''.'') (rev (agent_key n f)) =
      takeWhile (\<lambda>c. c \<noteq> CHR ''.'') (rev (agent_key m g))" by simp
  moreover have "takeWhile (\<lambda>c. c \<noteq> CHR ''.'') (rev h @ CHR ''.'' # xs) = rev h"
    if "CHR ''.'' \<notin> set h" for h xs
    using that by (simp add: takeWhile_append takeWhile_eq_all_conv)
  ultimately show False using assms by (simp add: agent_key_def)
qed

lemma agent_key_fields [simp]:
  "agent_key n ''status'' \<noteq> agent_key m ''capabilities''"
  "agent_key n ''status'' \<noteq> agent_key m ''heartbeat''"
  by (rule agent_key_field; simp)+

section \<open>Runs of the coordinator\<close>

inductive co_step :: "coordinator \<Rightarrow> coordinator \<Rightarrow> bool" where
  co_register: "co_step c (snd (register_agent now mid name caps md c))"
| co_deregister: "co_step c (snd (deregister_agent now mid name c))"
| co_beat: "co_step c (co_heartbeat now name c)"
| co_check: "co_step c (heartbeat_check now c)"
| co_starts: "co_step c (co_start c)"
| co_stops: "co_step c (fst (co_stop now mids c))"
| co_submit: "co_step c (snd (submit_task now mid t target c))"
| co_complete: "co_step c (complete_task now mid tid res c)"
| co_fail: "co_step c (fail_task now mid tid err c)"
| co_dispatch: "co_step c (c\<lparr>co_bus := fst (dispatch_step (co_bus c))\<rparr>)"

definition co_run :: "coordinator \<Rightarrow> bool" where
  "co_run c \<longleftrightarrow> (\<exists>injected singleton. co_step\<^sup>*\<^sup>* (co_init bus_init ss_init injected singleton) c)"

lemma co_run_init: "co_run (co_init bus_init ss_init injected singleton)"
  by (auto simp: co_run_def)

lemma co_run_step: "co_run c \<Longrightarrow> co_step c c' \<Longrightarrow> co_run c'"
  by (auto simp: co_run_def intro: rtranclp.rtrancl_into_rtrancl)

text \<open>The registry and the shared store tell the same agents apart.\<close>

definition registry_agrees :: "coordinator \<Rightarrow> bool" where
  "registry_agrees c \<longleftrightarrow> dict_wf (co_agents c) \<and> no_ttl (co_state c) \<and>
     (\<forall>t n. view t (co_state c) (agent_key n ''status'') = Some (PStr ''registered'') \<longleftrightarrow>
        dict_get (co_agents c) n \<noteq> None)"

lemma registry_agrees_cong:
  "registry_agrees c \<Longrightarrow> co_agents c' = co_agents c \<Longrightarrow> co_state c' = co_state c \<Longrightarrow> registry_agrees c'"
  by (simp add: registry_agrees_def)

lemma registry_register:
  "registry_agrees c \<Longrightarrow> registry_agrees (snd (register_agent now mid name caps md c))"
  by (auto simp: registry_agrees_def register_agent_def Let_def co_state_set_view status_value_def)

lemma registry_deregister:
  "registry_agrees c \<Longrightarrow> registry_agrees (snd (deregister_agent now mid name c))"
  by (auto simp: registry_agrees_def deregister_agent_def Let_def co_state_set_view status_value_def)

lemma registry_mut:
  "registry_agrees c \<Longrightarrow> registry_agrees (c\<lparr>co_agents := dict_mut n f (co_agents c)\<rparr>)"
  by (simp add: registry_agrees_def)

lemma registry_heartbeat:
  assumes "registry_agrees c"
  shows "registry_agrees (co_heartbeat now name c)"
proof (cases "dict_get (co_agents c) name")
  case None
  with assms show ?thesis by (simp add: co_heartbeat_def)
next
  case (Some i)
  let ?c = "c\<lparr>co_agents := dict_mut name (\<lambda>i. i\<lparr>last_heartbeat := now,
    ag_status := (if ag_status i \<in> {REGISTERED, DEGRADED} then ACTIVE else ag_status i)\<rparr>) (co_agents c)\<rparr>"
  have "registry_agrees ?c" by (rule registry_mut [OF assms])
  then have "registry_agrees (co_state_set now name (agent_key name ''heartbeat'') (PFloat now) ?c)"
    by (simp add: registry_agrees_def co_state_set_view)
  with Some show ?thesis by (simp add: co_heartbeat_def)
qed

lemma dict_get_map_snd: "dict_get (map (\<lambda>(n, i). (n, f i)) d) k = map_option f (dict_get d k)"
  by (induction d) auto

lemma dict_wf_map_snd: "dict_wf (map (\<lambda>(n, i). (n, f i)) d) = dict_wf d"
proof -
  have "dict_keys (map (\<lambda>(n, i). (n, f i)) d) = dict_keys d" by (induction d) auto
  then show ?thesis unfolding dict_wf_def by (rule arg_cong)
qed

lemma registry_check: "registry_agrees c \<Longrightarrow> registry_agrees (heartbeat_check now c)"
  by (simp add: registry_agrees_def heartbeat_check_def dict_get_map_snd dict_wf_map_snd)

lemma registry_deregisters:
  "registry_agrees c \<Longrightarrow>
     registry_agrees (fold (\<lambda>n c. snd (deregister_agent now (mid n) n c)) ns c)"
  by (induction ns arbitrary: c) (auto intro: registry_deregister)

lemma registry_step: "co_step c c' \<Longrightarrow> registry_agrees c \<Longrightarrow> registry_agrees c'"
proof (induction rule: co_step.induct)
  case (co_stops c now mids)
  let ?c = "fold (\<lambda>n c. snd (deregister_agent now (mids n) n c)) (dict_keys (co_agents c)) (c\<lparr>co_running := False\<rparr>)"
  have "registry_agrees (c\<lparr>co_running := False\<rparr>)"
    by (rule registry_agrees_cong [OF co_stops]) simp_all
  from registry_deregisters [OF this] have "registry_agrees ?c" by simp
  then show ?case
    by (rule registry_agrees_cong) (simp_all add: co_stop_def Let_def split_beta)
next
  case (co_starts c)
  then show ?case by (auto simp: co_start_def elim: registry_agrees_cong)
next
  case (co_submit c now mid t target)
  then show ?case
    by (rule registry_agrees_cong) (simp_all add: submit_task_def Let_def split_beta)
next
  case (co_complete c now mid tid res)
  then show ?case by (rule registry_agrees_cong) (simp_all add: complete_task_def)
next
  case (co_fail c now mid tid err)
  then show ?case by (rule registry_agrees_cong) (simp_all add: fail_task_def)
next
  case (co_dispatch c)
  then show ?case by (rule registry_agrees_cong) simp_all
qed (auto intro: registry_register registry_deregister registry_heartbeat registry_check)

interpretation co_sys: invariant_system co_step registry_agrees
  by unfold_locales (rule registry_step)

lemma registry_run: "co_run c \<Longrightarrow> registry_agrees c"
proof -
  have "registry_agrees (co_init bus_init ss_init injected singleton)" for injected singleton
    by (simp add: registry_agrees_def co_init_def no_ttl_def ss_init_def view_def view_entry_def)
  then show "co_run c \<Longrightarrow> registry_agrees c"
    unfolding co_run_def using co_sys.good_run by blast
qed

section \<open>Stopping\<close>

definition bye_message :: "time \<Rightarrow> (string \<Rightarrow> string) \<Rightarrow> string \<Rightarrow> message" where
  "bye_message now mid n = co_message now (mid n) ''coordinator.agent.deregistered''
     [(''agent'', PStr n)] AGENT_MSG"

lemma deregister_queue:
  "dict_get (co_agents c) n \<noteq> None \<Longrightarrow>
     bus_queue (co_bus (snd (deregister_agent now (mid n) n c))) =
       bus_queue (co_bus c) @ [bye_message now mid n]"
  by (simp add: deregister_agent_def Let_def bye_message_def)

lemma deregister_agents:
  "co_agents (snd (deregister_agent now m n c)) = (if dict_get (co_agents c) n = None then co_agents c
     else dict_del n (dict_mut n (\<lambda>i. i\<lparr>ag_status := STOPPING\<rparr>) (co_agents c)))"
  by (simp add: deregister_agent_def Let_def)

lemma deregister_all_queue:
  "distinct ns \<Longrightarrow> (\<forall>n \<in> set ns. dict_get (co_agents c) n \<noteq> None) \<Longrightarrow>
     bus_queue (co_bus (fold (\<lambda>n c. snd (deregister_agent now (mid n) n c)) ns c)) =
       bus_queue (co_bus c) @ map (bye_message now mid) ns"
proof (induction ns arbitrary: c)
  case (Cons a ns)
  let ?c = "snd (deregister_agent now (mid a) a c)"
  have "\<forall>n \<in> set ns. dict_get (co_agents ?c) n \<noteq> None"
    using Cons.prems unfolding deregister_agents by auto
  with Cons.IH [of ?c] Cons.prems deregister_queue [of c a now mid] show ?case by simp
qed simp

lemma deregister_all_agents:
  "dict_get (co_agents (fold (\<lambda>n c. snd (deregister_agent now (mid n) n c)) ns c)) k =
     (if k \<in> set ns then None else dict_get (co_agents c) k)"
  by (induction ns arbitrary: c) (auto simp: deregister_agents)

lemma deregister_bus:
  "bus_running (co_bus (snd (deregister_agent now m n c))) = bus_running (co_bus c)"
  "bus_task (co_bus (snd (deregister_agent now m n c))) = bus_task (co_bus c)"
  "co_running (snd (deregister_agent now m n c)) = co_running c"
  by (simp_all add: deregister_agent_def Let_def co_publish_def publish_def)

lemma deregister_all_bus:
  "bus_task (co_bus (fold (\<lambda>n c. snd (deregister_agent now (mid n) n c)) ns c)) = bus_task (co_bus c)"
  "co_running (fold (\<lambda>n c. snd (deregister_agent now (mid n) n c)) ns c) = co_running c"
  by (induction ns arbitrary: c) (simp_all add: deregister_bus)

section \<open>Properties\<close>

definition demo_coordinator :: coordinator where
  "demo_coordinator = snd (register_agent 0 ''m'' ''s'' None None
     (co_start (co_init bus_init ss_init (Some (tq_init 5)) (tq_init 5))))"

lemma demo_coordinator_run: "co_run demo_coordinator"
  unfolding demo_coordinator_def
  by (rule co_run_step [OF co_run_step [OF co_run_init co_starts] co_register])

text \<open>
  C18. In every run of the coordinator, the shared store says \<open>registered\<close> of exactly the agents of
  the registry, at every later reading: registering and deregistering keep the two in step, and
  the other states an agent passes through are never published there, so that an active or
  degraded agent is still \<open>registered\<close> in the store.
\<close>

theorem registry_and_store_agree:
  assumes "co_run c"
  shows "view t (co_state c) (agent_key n ''status'') = Some (PStr ''registered'') \<longleftrightarrow>
    (\<exists>i. get_agent n c = Some i)"
  using registry_run [OF assms] by (simp add: registry_agrees_def get_agent_def)

theorem registry_and_store_agree_witness:
  "view 9 (co_state demo_coordinator) (agent_key ''s'' ''status'') = Some (PStr ''registered'')"
  using registry_and_store_agree [OF demo_coordinator_run, of 9 "''s''"]
  by (simp add: demo_coordinator_def get_agent_def register_agent_def Let_def)

text \<open>
  Stopping deregisters every agent and publishes one deregistration message each, in
  registration order; they are left behind in the queue of a bus whose dispatch loop has just been
  cancelled, so no subscriber sees them unless the bus is started again.
\<close>

theorem stop_leaves_goodbyes_undelivered:
  assumes "co_run c" and "bus_task (co_bus c) \<noteq> Failed" and "co_stop now mid c = (c', err)"
  shows "co_agents c' = [] \<and> \<not> co_running c' \<and> \<not> co_monitor c' \<and> err = None \<and>
    bus_queue (co_bus c') = bus_queue (co_bus c) @ map (bye_message now mid) (dict_keys (co_agents c)) \<and>
    \<not> bus_running (co_bus c') \<and> dispatch_step (co_bus c') = (co_bus c', [])"
proof -
  let ?ns = "dict_keys (co_agents c)" and ?c1 = "c\<lparr>co_running := False\<rparr>"
  let ?c2 = "fold (\<lambda>n c. snd (deregister_agent now (mid n) n c)) ?ns ?c1"
  have wf: "dict_wf (co_agents c)" using registry_run [OF assms(1)] by (simp add: registry_agrees_def)
  have "bus_queue (co_bus ?c2) = bus_queue (co_bus ?c1) @ map (bye_message now mid) ?ns"
    by (rule deregister_all_queue)
       (use wf in \<open>auto simp: dict_wf_def dict_in_keys simp del: set_map\<close>)
  moreover have "dict_get (co_agents ?c2) k = None" for k
    using dict_in_keys [of k "co_agents c"] by (simp add: deregister_all_agents del: set_map)
  then have "co_agents ?c2 = []"
    by (simp add: dict_empty_iff)
  moreover have "bus_task (co_bus ?c2) \<noteq> Failed" "\<not> co_running ?c2"
    using assms(2) by (simp_all add: deregister_all_bus)
  ultimately show ?thesis
    using assms(3)
    by (cases "bus_task (co_bus ?c2)")
       (auto simp: co_stop_def Let_def bus_stop_def dispatch_step_def)
qed

theorem stop_leaves_goodbyes_undelivered_witness:
  "bus_queue (co_bus (fst (co_stop 1 id demo_coordinator))) =
     bus_queue (co_bus demo_coordinator) @ [bye_message 1 id ''s'']"
proof -
  have "bus_task (co_bus demo_coordinator) \<noteq> Failed" "dict_keys (co_agents demo_coordinator) = [''s'']"
    by (simp_all add: demo_coordinator_def register_agent_def Let_def co_start_def co_init_def
        co_publish_def publish_def bus_start_def bus_init_def co_state_set_def dict_put_def)
  then show ?thesis
    using stop_leaves_goodbyes_undelivered [OF demo_coordinator_run _ prod.collapse [symmetric], of 1 id]
    by simp
qed

text \<open>
  C19. Health: one round of the monitor degrades exactly the agents unheard of for more than 45
  seconds and leaves the others and all time stamps alone, and a heartbeat brings a degraded agent
  back to \<open>ACTIVE\<close>, so an agent that beats at least every 45 seconds is never degraded by the
  next round.
\<close>

theorem monitor_degrades_exactly_silent_agents:
  assumes "co_running c" and "co_monitor c" and "get_agent n c = Some i"
    and "last_heartbeat i \<le> beat" and "tick - beat \<le> heartbeat_timeout"
  shows "get_agent n (heartbeat_check now c) =
      Some (i\<lparr>ag_status := (if now - last_heartbeat i > 45 then DEGRADED else ag_status i)\<rparr>) \<and>
    (\<exists>j. get_agent n (heartbeat_check tick (co_heartbeat beat n c)) = Some j \<and>
      last_heartbeat j = beat \<and>
      ag_status j = (if ag_status i \<in> {REGISTERED, DEGRADED} then ACTIVE else ag_status i))"
proof -
  have one: "get_agent n (heartbeat_check now c) = Some (degrade now i)"
    using assms(1-3) by (simp add: get_agent_def heartbeat_check_def dict_get_map_snd)
  let ?j = "i\<lparr>last_heartbeat := beat,
    ag_status := (if ag_status i \<in> {REGISTERED, DEGRADED} then ACTIVE else ag_status i)\<rparr>"
  have "get_agent n (co_heartbeat beat n c) = Some ?j" "co_running (co_heartbeat beat n c)"
    "co_monitor (co_heartbeat beat n c)"
    using assms(1-3) by (simp_all add: get_agent_def co_heartbeat_def)
  then have "get_agent n (heartbeat_check tick (co_heartbeat beat n c)) = Some (degrade tick ?j)"
    by (simp add: get_agent_def heartbeat_check_def dict_get_map_snd)
  moreover have "degrade tick ?j = ?j" using assms(5) by (simp add: degrade_def)
  ultimately show ?thesis using one by (auto simp: degrade_def heartbeat_timeout_def)
qed

theorem monitor_degrades_exactly_silent_agents_witness:
  "\<exists>j. get_agent ''s'' (heartbeat_check 100 (co_heartbeat 60 ''s'' demo_coordinator)) = Some j \<and>
     ag_status j = ACTIVE"
  using monitor_degrades_exactly_silent_agents
    [of demo_coordinator "''s''" "fst (register_agent 0 ''m'' ''s'' None None demo_coordinator)" 60 100 50]
  by (force simp: demo_coordinator_def get_agent_def register_agent_def Let_def co_start_def co_init_def
      heartbeat_timeout_def)

text \<open>
  A queue without tasks is false in Python, so a coordinator constructed with a fresh queue of
  its own silently works on the module's queue: what is submitted is found there, and the injected
  queue stays empty.
\<close>

theorem empty_injected_queue_is_ignored:
  assumes "tq_len q = 0" and "c = co_init b st (Some q) singleton"
    and "submit_task now mid t None c = (res, c')"
  shows "res = Inr (qt_id t) \<and> co_injected c' = Some q \<and> get_task tid q = None \<and>
    co_singleton c' = snd (add_task t singleton) \<and> get_task (qt_id t) (co_singleton c') \<noteq> None"
proof -
  have c: "\<not> co_uses_injected c" "co_injected c = Some q" "co_queue c = singleton"
    by (simp_all add: assms(1,2) co_init_def queue_truth_def co_queue_def)
  have "fst (add_task t singleton) = qt_id t" by (simp add: add_task_def Let_def)
  with c assms(3) have "res = Inr (qt_id t) \<and> co_injected c' = Some q \<and>
      co_singleton c' = snd (add_task t singleton)"
    by (auto simp: submit_task_def Let_def split_beta co_set_queue_def)
  moreover have "get_task tid q = None" using assms(1) by (simp add: get_task_def tq_len_def)
  ultimately show ?thesis by (simp add: get_task_def add_task_get)
qed

theorem empty_injected_queue_is_ignored_witness:
  "tq_tasks (the (co_injected (snd (submit_task 0 ''m'' (new_task ''a'' ''A'' 0 [] 0) None
     (co_init bus_init ss_init (Some (tq_init 5)) (tq_init 5)))))) = []"
  using empty_injected_queue_is_ignored [OF _ refl prod.collapse [symmetric], where q = "tq_init 5"]
  by (simp add: tq_init_def tq_len_def)

text \<open>
  Routing: a task for an unknown agent is refused with \<open>ValueError\<close> and nothing changes; any
  other submission, completion or failure takes the queue through that operation alone and
  publishes exactly one message after those already pending, leaving agents and store alone.
\<close>

theorem routing_publishes_once_or_refuses:
  assumes "submit_task now mid t target c = (res, c1)"
    and "c2 = complete_task now mid tid v c" and "c3 = fail_task now mid tid err c"
  shows "(res = Inl ValueError \<longleftrightarrow> (\<exists>n. target = Some n \<and> n \<noteq> [] \<and> get_agent n c = None)) \<and>
    (res = Inl ValueError \<longrightarrow> c1 = c) \<and>
    (res \<noteq> Inl ValueError \<longrightarrow> res = Inr (qt_id t) \<and> co_queue c1 = snd (add_task t (co_queue c))) \<and>
    co_queue c2 = mark_completed now tid v (co_queue c) \<and>
    co_queue c3 = mark_failed now tid err (co_queue c) \<and>
    (\<forall>c' \<in> {c1, c2, c3}. co_agents c' = co_agents c \<and> co_state c' = co_state c) \<and>
    (\<forall>c' \<in> {c1, c2, c3} - {c}. \<exists>m. bus_queue (co_bus c') = bus_queue (co_bus c) @ [m])"
proof -
  have id: "fst (add_task t (co_queue c)) = qt_id t" by (simp add: add_task_def Let_def)
  let ?refused = "\<exists>n. target = Some n \<and> n \<noteq> [] \<and> get_agent n c = None"
  have "(res = Inl ValueError \<and> c1 = c \<and> ?refused) \<or>
    (res = Inr (qt_id t) \<and> co_queue c1 = snd (add_task t (co_queue c)) \<and> \<not> ?refused \<and>
     co_agents c1 = co_agents c \<and> co_state c1 = co_state c \<and>
     (\<exists>m. bus_queue (co_bus c1) = bus_queue (co_bus c) @ [m]))"
    using assms(1) id
    by (auto simp: submit_task_def get_agent_def Let_def split_beta split: if_splits option.splits)
  moreover have "co_queue c2 = mark_completed now tid v (co_queue c) \<and>
      co_queue c3 = mark_failed now tid err (co_queue c) \<and>
      (\<forall>c' \<in> {c2, c3}. co_agents c' = co_agents c \<and> co_state c' = co_state c \<and>
         (\<exists>m. bus_queue (co_bus c') = bus_queue (co_bus c) @ [m]))"
    by (simp add: assms(2,3) complete_task_def fail_task_def)
  ultimately show ?thesis by auto
qed

theorem routing_publishes_once_or_refuses_witness:
  "fst (submit_task 0 ''m'' (new_task ''a'' ''A'' 0 [] 0) (Some ''nobody'') demo_coordinator) = Inl ValueError"
  using routing_publishes_once_or_refuses [OF prod.collapse [symmetric] refl refl, of 0 "''m''"
      "new_task ''a'' ''A'' 0 [] 0" "Some ''nobody''" demo_coordinator]
  by (simp add: demo_coordinator_def get_agent_def register_agent_def Let_def co_start_def co_init_def)

end
