(* ===== verification/PyRegex.thy ===== *)
theory PyRegex
  imports Prelude
begin

text \<open>
  The fragment of Python's \<open>re\<close> that the scanners of the program use, as patterns and an executable
  search. Whether \<open>search\<close> finds a match does not depend on the order in which the engine of the
  standard library tries alternatives, so a pattern denotes the positions at which a match that
  starts at a given position can end. A repetition is followed for as many rounds as the text has
  characters, which is enough because every round that finds a new position moves forward.
\<close>

datatype rx =
    Eps
  | Lit string
  | Chars "(nat \<times> nat) list"
  | Dot
  | Boundary
  | Seq rx rx
  | Alt rx rx
  | Star rx

abbreviation (input) plus :: "rx \<Rightarrow> rx" where
  "plus r \<equiv> Seq r (Star r)"

abbreviation (input) cat :: "rx list \<Rightarrow> rx" where
  "cat rs \<equiv> foldr Seq rs Eps"

abbreviation (input) alts :: "rx list \<Rightarrow> rx" where
  "alts rs \<equiv> foldr Alt (butlast rs) (last rs)"

definition code_in :: "(nat \<times> nat) list \<Rightarrow> char \<Rightarrow> bool" where
  "code_in rs c = list_ex (\<lambda>(a, b). a \<le> of_char c \<and> of_char c \<le> b) rs"

text \<open>\<open>\d\<close>, \<open>\s\<close> and \<open>\w\<close> on the code points below 256.\<close>

definition rx_digit :: "(nat \<times> nat) list" where
  "rx_digit = [(48, 57)]"

definition rx_space :: "(nat \<times> nat) list" where
  "rx_space = [(9, 13), (28, 32), (133, 133), (160, 160)]"

definition rx_word :: "(nat \<times> nat) list" where
  "rx_word = [(48, 57), (65, 90), (95, 95), (97, 122), (170, 170), (178, 179), (181, 181), (185, 186),
     (188, 190), (192, 214), (216, 246), (248, 255)]"

definition word_at :: "string \<Rightarrow> nat \<Rightarrow> bool" where
  "word_at s i = (i < length s \<and> code_in rx_word (s ! i))"

definition at_boundary :: "string \<Rightarrow> nat \<Rightarrow> bool" where
  "at_boundary s i = ((0 < i \<and> word_at s (i - 1)) \<noteq> word_at s i)"

fun star_ends :: "(nat \<Rightarrow> nat list) \<Rightarrow> nat \<Rightarrow> nat list \<Rightarrow> nat list" where
  "star_ends f 0 xs = xs"
| "star_ends f (Suc n) xs = star_ends f n (remdups (xs @ concat (map f xs)))"

fun ends :: "rx \<Rightarrow> string \<Rightarrow> nat \<Rightarrow> nat list" where
  "ends Eps s i = [i]"
| "ends (Lit w) s i = (if prefix w (drop i s) \<and> i \<le> length s then [i + length w] else [])"
| "ends (Chars rs) s i = (if i < length s \<and> code_in rs (s ! i) then [Suc i] else [])"
| "ends Dot s i = (if i < length s \<and> of_char (s ! i) \<noteq> (10 :: nat) then [Suc i] else [])"
| "ends Boundary s i = (if at_boundary s i then [i] else [])"
| "ends (Seq r q) s i = remdups (concat (map (ends q s) (ends r s i)))"
| "ends (Alt r q) s i = ends r s i @ ends q s i"
| "ends (Star r) s i = star_ends (ends r s) (length s) [i]"

definition rx_search :: "rx \<Rightarrow> string \<Rightarrow> bool" where
  "rx_search r s = list_ex (\<lambda>i. ends r s i \<noteq> []) [0..<Suc (length s)]"

definition rx_fullmatch :: "rx \<Rightarrow> string \<Rightarrow> bool" where
  "rx_fullmatch r s = (length s \<in> set (ends r s 0))"

section \<open>Repetition\<close>

lemma ends_bounds: "i \<le> length s \<Longrightarrow> j \<in> set (ends r s i) \<Longrightarrow> i \<le> j \<and> j \<le> length s"
proof (induction r s i arbitrary: j rule: ends.induct)
  case (2 w s i)
  then show ?case by (auto dest: prefix_length_le split: if_splits)
next
  case (6 r q s i)
  from "6.prems"(2) obtain k where k: "k \<in> set (ends r s i)" "j \<in> set (ends q s k)" by auto
  with "6.IH"(1) [OF "6.prems"(1) k(1)] "6.IH"(2) [OF k(1) _ k(2)] show ?case by simp
next
  case (8 r s i)
  have "i \<le> k \<and> k \<le> length s"
    if "\<forall>x \<in> set xs. i \<le> x \<and> x \<le> length s" "k \<in> set (star_ends (ends r s) n xs)" for n xs k
    using that
  proof (induction n arbitrary: xs)
    case (Suc n)
    have "\<forall>x \<in> set (remdups (xs @ concat (map (ends r s) xs))). i \<le> x \<and> x \<le> length s"
    proof
      fix x
      assume "x \<in> set (remdups (xs @ concat (map (ends r s) xs)))"
      then consider "x \<in> set xs" | y where "y \<in> set xs" "x \<in> set (ends r s y)" by auto
      then show "i \<le> x \<and> x \<le> length s"
      proof cases
        case 2
        with Suc.prems(1) "8.IH" [of y x] show ?thesis by force
      qed (use Suc.prems(1) in blast)
    qed
    from Suc.IH [OF this] Suc.prems(2) show ?case by (simp only: star_ends.simps)
  qed simp
  from this [of "[i]" j "length s"] show ?case using "8.prems" by simp
qed (auto split: if_splits)

lemma set_star_ends:
  "set (star_ends f n xs) = {j. \<exists>i \<in> set xs. \<exists>m \<le> n. (i, j) \<in> {(a, b). b \<in> set (f a)} ^^ m}"
proof (induction n arbitrary: xs)
  case 0
  then show ?case by auto
next
  case (Suc n)
  let ?R = "{(a, b). b \<in> set (f a)}"
  have "j \<in> set (star_ends f (Suc n) xs) \<longleftrightarrow> (\<exists>i \<in> set xs. \<exists>m \<le> Suc n. (i, j) \<in> ?R ^^ m)" for j
  proof
    assume "j \<in> set (star_ends f (Suc n) xs)"
    then obtain i m where im: "i \<in> set xs \<or> (\<exists>k \<in> set xs. i \<in> set (f k))" "m \<le> n" "(i, j) \<in> ?R ^^ m"
      by (auto simp: Suc.IH)
    then show "\<exists>i \<in> set xs. \<exists>m \<le> Suc n. (i, j) \<in> ?R ^^ m"
    proof (elim disjE bexE)
      fix k
      assume "k \<in> set xs" "i \<in> set (f k)"
      with im(3) have "(k, j) \<in> ?R ^^ Suc m" by (intro relpow_Suc_I2) auto
      with \<open>k \<in> set xs\<close> im(2) show ?thesis by (intro bexI [of _ k] exI [of _ "Suc m"]) auto
    qed (use im in \<open>auto intro: le_SucI\<close>)
  next
    assume "\<exists>i \<in> set xs. \<exists>m \<le> Suc n. (i, j) \<in> ?R ^^ m"
    then obtain i m where im: "i \<in> set xs" "m \<le> Suc n" "(i, j) \<in> ?R ^^ m" by blast
    show "j \<in> set (star_ends f (Suc n) xs)"
    proof (cases m)
      case 0
      with im show ?thesis by (auto simp: Suc.IH intro!: exI [of _ 0])
    next
      case (Suc m')
      with im(3) obtain k where k: "k \<in> set (f i)" "(k, j) \<in> ?R ^^ m'"
        by (metis (mono_tags, lifting) case_prodD mem_Collect_eq relpow_Suc_D2)
      with im Suc show ?thesis by (auto simp: Suc.IH)
    qed
  qed
  then show ?case by blast
qed

lemma relpow_mono_rel:
  fixes R Q :: "('a \<times> 'a) set"
  shows "R \<subseteq> Q \<Longrightarrow> R ^^ m \<subseteq> Q ^^ m"
  by (induction m) (auto intro!: relcomp_mono)

text \<open>The rounds of a repetition are enough: it reaches every position some number of rounds reaches.\<close>

lemma relpow_forward:
  assumes "\<And>a b. (a, b) \<in> R \<Longrightarrow> a < b \<and> b \<le> (N :: nat)" and "(i, j) \<in> R ^^ m"
  shows "i + m \<le> j \<and> (0 < m \<longrightarrow> j \<le> N)"
  using assms(2)
proof (induction m arbitrary: j)
  case (Suc m)
  then obtain k where k: "(i, k) \<in> R ^^ m" "(k, j) \<in> R" by auto
  with Suc.IH [OF k(1)] assms(1) [OF k(2)] show ?case by auto
qed simp

theorem star_rounds_suffice:
  assumes "i \<le> length s"
  shows "set (ends (Star r) s i) = {j. (i, j) \<in> {(a, b). b \<in> set (ends r s a) \<and> a \<le> length s}\<^sup>*}"
proof -
  let ?R = "{(a, b). b \<in> set (ends r s a)}" and ?Q = "{(a, b). b \<in> set (ends r s a) \<and> a \<le> length s}"
  let ?S = "?Q - Id"
  have fwd: "a < b \<and> b \<le> length s" if "(a, b) \<in> ?S" for a b
    using that ends_bounds [of a s b r] by auto
  have "\<exists>m \<le> length s. (i, j) \<in> ?R ^^ m" if "(i, j) \<in> ?Q\<^sup>*" for j
  proof -
    have "(i, j) \<in> ?S\<^sup>*" using that by (simp add: rtrancl_r_diff_Id)
    then obtain m where m: "(i, j) \<in> ?S ^^ m" by (auto simp: rtrancl_power)
    then have "m \<le> length s" using relpow_forward [OF fwd m] by (cases "0 < m") auto
    moreover have "?S ^^ m \<subseteq> ?R ^^ m" by (rule relpow_mono_rel) auto
    ultimately show ?thesis using m by blast
  qed
  moreover have "(i, j) \<in> ?Q\<^sup>*" if "(i, j) \<in> ?R ^^ m" for j m
    using that
  proof (induction m arbitrary: j)
    case (Suc m)
    then obtain k where k: "(i, k) \<in> ?R ^^ m" "(k, j) \<in> ?R" by auto
    from Suc.IH [OF k(1)] have "(i, k) \<in> ?Q\<^sup>*" .
    moreover from this have "k \<le> length s"
      using assms by (induction rule: rtrancl_induct) (auto dest: ends_bounds)
    ultimately show ?case using k(2) by (auto intro: rtrancl_into_rtrancl)
  qed simp
  ultimately show ?thesis by (auto simp: set_star_ends)
qed

section \<open>Searching\<close>

lemma rx_search_Alt [simp]: "rx_search (Alt r q) s \<longleftrightarrow> rx_search r s \<or> rx_search q s"
  by (auto simp: rx_search_def list_ex_iff)

lemma rx_search_Lit [simp]: "rx_search (Lit w) s \<longleftrightarrow> py_in w s"
proof -
  have "rx_search (Lit w) s \<longleftrightarrow> (\<exists>i \<le> length s. prefix w (drop i s))"
    by (auto simp: rx_search_def list_ex_iff less_Suc_eq_le simp del: upt_Suc split: if_splits)
  also have "\<dots> \<longleftrightarrow> py_in w s"
  proof
    assume "\<exists>i \<le> length s. prefix w (drop i s)"
    then obtain i zs where "drop i s = w @ zs" by (auto simp: prefix_def)
    then have "s = take i s @ w @ zs" by (metis append_take_drop_id)
    then show "py_in w s" unfolding py_in_sublist sublist_def by blast
  next
    assume "py_in w s"
    then obtain ys zs where "s = ys @ w @ zs" unfolding py_in_sublist sublist_def by blast
    then show "\<exists>i \<le> length s. prefix w (drop i s)" by (intro exI [of _ "length ys"]) simp
  qed
  finally show ?thesis .
qed

text \<open>A match of a sequence is a match of its first part continued where that part ends.\<close>

lemma rx_search_SeqI:
  assumes "j \<in> set (ends r s i)" and "ends q s j \<noteq> []" and "i \<le> length s"
  shows "rx_search (Seq r q) s"
proof -
  have "ends (Seq r q) s i \<noteq> []" using assms(1,2) by (auto simp: concat_eq_Nil_conv)
  with assms(3) show ?thesis unfolding rx_search_def list_ex_iff by (intro bexI [of _ i]) auto
qed

lemma star_ends_extends: "set xs \<subseteq> set (star_ends f n xs)"
  by (induction n arbitrary: xs) fastforce+

lemma star_zero [simp]: "i \<in> set (ends (Star r) s i)"
  using star_ends_extends [of "[i]"] by auto

end
