(* ===== verification/Tables.thy ===== *)
theory Tables
  imports Prelude
begin

text \<open>
  Database tables with an integer primary key, as the ORM shows them to the code: rows in the order of
  insertion and a counter for the next identifier, which is not reused after a deletion. A row is built
  from the data of a request and its new identifier; an update changes columns of one row. The two
  locales hold what every table promises; the components instantiate them on their own rows.
\<close>

record 'r table =
  tb_rows :: "'r list"
  tb_next :: int

definition new_table :: "'r table" where
  "new_table = \<lparr>tb_rows = [], tb_next = 1\<rparr>"

text \<open>\<open>query.filter(P).first()\<close> and \<open>query.offset(skip).limit(limit).all()\<close>.\<close>

definition tb_first :: "('r \<Rightarrow> bool) \<Rightarrow> 'r table \<Rightarrow> 'r option" where
  "tb_first P t = List.find P (tb_rows t)"

definition tb_page :: "nat \<Rightarrow> nat \<Rightarrow> 'r table \<Rightarrow> 'r list" where
  "tb_page skip limit t = take limit (drop skip (tb_rows t))"

definition tb_insert :: "(int \<Rightarrow> 'r) \<Rightarrow> 'r table \<Rightarrow> 'r \<times> 'r table" where
  "tb_insert mk t =
     (let r = mk (tb_next t) in (r, t\<lparr>tb_rows := tb_rows t @ [r], tb_next := tb_next t + 1\<rparr>))"

text \<open>The change of a row that a query found, and of the row of an identifier.\<close>

definition tb_set :: "('r \<Rightarrow> int) \<Rightarrow> int \<Rightarrow> 'r \<Rightarrow> 'r table \<Rightarrow> 'r table" where
  "tb_set idf i r t = t\<lparr>tb_rows := map (\<lambda>x. if idf x = i then r else x) (tb_rows t)\<rparr>"

definition tb_update :: "('r \<Rightarrow> int) \<Rightarrow> int \<Rightarrow> ('r \<Rightarrow> 'r) \<Rightarrow> 'r table \<Rightarrow> 'r option \<times> 'r table" where
  "tb_update idf i f t =
     (case tb_first (\<lambda>r. idf r = i) t of
        None \<Rightarrow> (None, t)
      | Some r \<Rightarrow> (Some (f r), tb_set idf i (f r) t))"

definition tb_delete :: "('r \<Rightarrow> int) \<Rightarrow> int \<Rightarrow> 'r table \<Rightarrow> 'r option \<times> 'r table" where
  "tb_delete idf i t =
     (case tb_first (\<lambda>r. idf r = i) t of
        None \<Rightarrow> (None, t)
      | Some r \<Rightarrow> (Some r, t\<lparr>tb_rows := filter (\<lambda>x. idf x \<noteq> i) (tb_rows t)\<rparr>))"

text \<open>Columns that refresh \<open>updated_at\<close>: the statement is only sent when a column really changes.\<close>

definition touch :: "('r \<Rightarrow> 'r) \<Rightarrow> ('r \<Rightarrow> 'r) \<Rightarrow> 'r \<Rightarrow> 'r" where
  "touch stamp f r = (if f r = r then r else stamp (f r))"

text \<open>A partial update skips the fields that are unset or \<open>None\<close>.\<close>

definition set_opt :: "'a option \<Rightarrow> ('a \<Rightarrow> 'r \<Rightarrow> 'r) \<Rightarrow> 'r \<Rightarrow> 'r" where
  "set_opt v f r = (case v of None \<Rightarrow> r | Some x \<Rightarrow> f x r)"

definition tb_wf :: "('r \<Rightarrow> int) \<Rightarrow> 'r table \<Rightarrow> bool" where
  "tb_wf idf t \<longleftrightarrow> distinct (map idf (tb_rows t)) \<and> (\<forall>r \<in> set (tb_rows t). idf r < tb_next t)"

lemma tb_wf_new [simp]: "tb_wf idf new_table"
  by (simp add: tb_wf_def new_table_def)

lemma find_append: "List.find P (xs @ ys) = (case List.find P xs of None \<Rightarrow> List.find P ys | Some x \<Rightarrow> Some x)"
  by (induction xs) auto

lemma tb_first_Some: "tb_first P t = Some r \<Longrightarrow> r \<in> set (tb_rows t) \<and> P r"
  unfolding tb_first_def by (auto simp: find_Some_iff)

lemma tb_first_None: "tb_first P t = None \<longleftrightarrow> (\<forall>r \<in> set (tb_rows t). \<not> P r)"
  by (auto simp: tb_first_def find_None_iff)

lemma tb_first_id: "tb_wf idf t \<Longrightarrow> tb_first (\<lambda>r. idf r = i) t = Some r \<longleftrightarrow> r \<in> set (tb_rows t) \<and> idf r = i"
proof
  assume wf: "tb_wf idf t" and r: "r \<in> set (tb_rows t) \<and> idf r = i"
  then obtain r' where "tb_first (\<lambda>r. idf r = i) t = Some r'"
    using tb_first_None [of "\<lambda>r. idf r = i" t] by (cases "tb_first (\<lambda>r. idf r = i) t") auto
  with wf r tb_first_Some [OF this] show "tb_first (\<lambda>r. idf r = i) t = Some r"
    by (auto simp: tb_wf_def distinct_map inj_on_def)
qed (use tb_first_Some in fastforce)

lemma tb_rows_insert [simp]: "tb_rows (snd (tb_insert mk t)) = tb_rows t @ [mk (tb_next t)]"
  by (simp add: tb_insert_def Let_def)

lemma tb_next_insert [simp]: "tb_next (snd (tb_insert mk t)) = tb_next t + 1"
  by (simp add: tb_insert_def Let_def)

lemma fst_tb_insert [simp]: "fst (tb_insert mk t) = mk (tb_next t)"
  by (simp add: tb_insert_def Let_def)

lemma set_tb_delete: "set (tb_rows (snd (tb_delete idf i t))) = {r \<in> set (tb_rows t). idf r \<noteq> i}"
  by (auto simp: tb_delete_def tb_first_None split: option.split)

lemma tb_next_delete [simp]: "tb_next (snd (tb_delete idf i t)) = tb_next t"
  by (simp add: tb_delete_def split: option.split)

lemma tb_next_update [simp]: "tb_next (snd (tb_update idf i f t)) = tb_next t"
  by (simp add: tb_update_def tb_set_def split: option.split)

lemma set_tb_update:
  "set (tb_rows (snd (tb_update idf i f t))) \<subseteq> set (tb_rows t) \<union> {f r | r. r \<in> set (tb_rows t) \<and> idf r = i}"
  by (auto simp: tb_update_def tb_set_def dest!: tb_first_Some split: option.split)

lemma tb_wf_delete: "tb_wf idf t \<Longrightarrow> tb_wf idf (snd (tb_delete idf i t))"
  by (auto simp: tb_wf_def tb_delete_def distinct_map_filter split: option.split)

lemma tb_delete_None: "fst (tb_delete idf i t) = None \<longleftrightarrow> tb_first (\<lambda>r. idf r = i) t = None"
  by (simp add: tb_delete_def split: option.split)

lemma tb_first_delete: "tb_first (\<lambda>r. idf r = i) (snd (tb_delete idf i t)) = None"
  by (auto simp: tb_first_None set_tb_delete)

lemma in_set_page: "r \<in> set (tb_page skip limit t) \<Longrightarrow> r \<in> set (tb_rows t)"
  by (auto simp: tb_page_def dest: in_set_takeD in_set_dropD)

lemma length_page: "length (tb_page skip limit t) \<le> limit"
  by (simp add: tb_page_def)

text \<open>The contract of a table: rows are created with the identifier they are given.\<close>

locale id_table =
  fixes idf :: "'r \<Rightarrow> int"
    and mk :: "'c \<Rightarrow> int \<Rightarrow> 'r"
  assumes idf_mk: "idf (mk c i) = i"
begin

lemma insert_wf: "tb_wf idf t \<Longrightarrow> tb_wf idf (snd (tb_insert (mk c) t))"
  by (force simp: tb_wf_def idf_mk)

lemma get_inserted:
  "tb_wf idf t \<Longrightarrow> tb_first (\<lambda>r. idf r = tb_next t) (snd (tb_insert (mk c) t)) = Some (mk c (tb_next t))"
  using insert_wf [of t c] by (simp add: tb_first_id idf_mk)

lemma get_others:
  "i \<noteq> tb_next t \<Longrightarrow> tb_first (\<lambda>r. idf r = i) (snd (tb_insert (mk c) t)) = tb_first (\<lambda>r. idf r = i) t"
  by (simp add: tb_first_def idf_mk find_append split: option.split)

lemma deleted_stays_deleted:
  "i < tb_next t \<Longrightarrow> tb_first (\<lambda>r. idf r = i) t = None \<Longrightarrow>
   tb_first (\<lambda>r. idf r = i) (snd (tb_insert (mk c) t)) = None"
  by (auto simp: tb_first_None idf_mk)

end

text \<open>A table whose rows are edited: an edit keeps the identifier.\<close>

locale edit_table = id_table idf mk
  for idf :: "'r \<Rightarrow> int" and mk :: "'c \<Rightarrow> int \<Rightarrow> 'r" +
  fixes edit :: "'e \<Rightarrow> 'r \<Rightarrow> 'r"
  assumes idf_edit: "idf (edit e r) = idf r"
begin

lemma update_ids: "map idf (tb_rows (snd (tb_update idf i (edit e) t))) = map idf (tb_rows t)"
proof (cases "tb_first (\<lambda>r. idf r = i) t")
  case (Some r)
  with tb_first_Some [OF Some] show ?thesis by (auto simp: tb_update_def tb_set_def idf_edit)
qed (simp add: tb_update_def)

lemma update_wf: "tb_wf idf t \<Longrightarrow> tb_wf idf (snd (tb_update idf i (edit e) t))"
proof -
  assume wf: "tb_wf idf t"
  have "idf ` set (tb_rows (snd (tb_update idf i (edit e) t))) = idf ` set (tb_rows t)"
    using arg_cong [OF update_ids [of i e t], of set] by simp
  with wf show ?thesis by (force simp: tb_wf_def update_ids)
qed

lemma get_updated:
  assumes "tb_wf idf t"
  shows "tb_first (\<lambda>r. idf r = k) (snd (tb_update idf i (edit e) t)) =
    (if k = i then map_option (edit e) (tb_first (\<lambda>r. idf r = i) t) else tb_first (\<lambda>r. idf r = k) t)"
proof (cases "tb_first (\<lambda>r. idf r = i) t")
  case None
  then show ?thesis by (simp add: tb_update_def)
next
  case (Some r)
  have r: "r \<in> set (tb_rows t)" "idf r = i" using tb_first_Some [OF Some] by auto
  have "tb_rows (snd (tb_update idf i (edit e) t)) = map (\<lambda>x. if idf x = i then edit e r else x) (tb_rows t)"
    by (simp add: tb_update_def Some tb_set_def)
  moreover have "List.find (\<lambda>x. idf x = k) (map (\<lambda>x. if idf x = i then edit e r else x) xs) =
      (if k = i then map_option (\<lambda>_. edit e r) (List.find (\<lambda>x. idf x = i) xs)
       else List.find (\<lambda>x. idf x = k) xs)" for xs
    by (induction xs) (auto simp: idf_edit r(2))
  ultimately show ?thesis using Some by (simp add: tb_first_def)
qed

end

end
