(* ===== verification/Security.thy ===== *)
theory Security
  imports Prelude
begin

text \<open>
  Passwords and tokens: \<^verbatim>\<open>src/core/security.py\<close> and the user schema of
  \<^verbatim>\<open>src/schemas/user.py\<close>.

  The primitives of bcrypt, hashlib and jose are the fields of the record \<open>crypto\<close>; the salt and the
  random token identifier are arguments. A failure of \<open>checkpw\<close> or \<open>decode\<close> is \<^const>\<open>None\<close>.
\<close>

section \<open>Character classes of str\<close>

definition is_lower :: "char \<Rightarrow> bool" where
  "is_lower c = (let n = of_char c :: nat in (97 \<le> n \<and> n \<le> 122) \<or> n \<in> {170, 181, 186} \<or>
     (223 \<le> n \<and> n \<le> 246) \<or> (248 \<le> n \<and> n \<le> 255))"

definition is_upper :: "char \<Rightarrow> bool" where
  "is_upper c = (let n = of_char c :: nat in (65 \<le> n \<and> n \<le> 90) \<or> (192 \<le> n \<and> n \<le> 214) \<or>
     (216 \<le> n \<and> n \<le> 222))"

definition str_isdigit :: "char \<Rightarrow> bool" where
  "str_isdigit c = (is_digit c \<or> of_char c \<in> {178, 179, 185 :: nat})"

section \<open>The password policy\<close>

text \<open>The special characters, by code point: they contain both quotes and the backslash.\<close>

definition special_chars :: string where
  "special_chars = map char_of [33, 64, 35, 36, 37, 94, 38, 42, 40, 41, 45, 95, 61, 43, 91, 93, 123,
     125, 124, 59, 58, 39, 92, 34, 44, 46, 60, 62, 63, 47, 96, 126 :: nat]"

definition validate_password_policy :: "string \<Rightarrow> string list" where
  "validate_password_policy pw =
     (if length pw < 8 then [''Password must be at least 8 characters''] else []) @
     (if length pw > 128 then [''Password must be at most 128 characters''] else []) @
     (if \<not> list_ex str_isdigit pw then [''Password must contain at least one digit''] else []) @
     (if \<not> list_ex is_lower pw then [''Password must contain at least one lowercase letter''] else []) @
     (if \<not> list_ex is_upper pw then [''Password must contain at least one uppercase letter''] else []) @
     (if \<not> list_ex (\<lambda>c. c \<in> set special_chars) pw
      then [''Password must contain at least one special character: '' @ special_chars] else [])"

lemma policy_accepts_iff:
  "validate_password_policy pw = [] \<longleftrightarrow>
     8 \<le> length pw \<and> length pw \<le> 128 \<and> list_ex str_isdigit pw \<and> list_ex is_lower pw \<and>
     list_ex is_upper pw \<and> list_ex (\<lambda>c. c \<in> set special_chars) pw"
  by (auto simp: validate_password_policy_def)

record user_create =
  uc_email :: string
  uc_username :: string
  uc_password :: string
  uc_full_name :: "string option"

definition username_char :: "char \<Rightarrow> bool" where
  "username_char c = (let n = of_char c :: nat in (97 \<le> n \<and> n \<le> 122) \<or> (65 \<le> n \<and> n \<le> 90) \<or>
     (48 \<le> n \<and> n \<le> 57) \<or> n \<in> {95, 46, 45})"

text \<open>\<open>valid_email\<close> stands for pydantic's \<open>EmailStr\<close>.\<close>

definition user_create_valid :: "(string \<Rightarrow> bool) \<Rightarrow> user_create \<Rightarrow> bool" where
  "user_create_valid valid_email u \<longleftrightarrow>
     valid_email (uc_email u) \<and> 3 \<le> length (uc_username u) \<and> length (uc_username u) \<le> 50 \<and>
     list_all username_char (uc_username u) \<and>
     (case uc_full_name u of None \<Rightarrow> True | Some n \<Rightarrow> length n \<le> 100) \<and>
     8 \<le> length (uc_password u) \<and> length (uc_password u) \<le> 128 \<and>
     validate_password_policy (uc_password u) = []"

section \<open>Hashing\<close>

record claims =
  cl_sub :: "string option"
  cl_exp :: time
  cl_type :: string
  cl_jti :: "string option"

record crypto =
  cr_hashpw :: "string \<Rightarrow> string \<Rightarrow> string"
  cr_checkpw :: "string \<Rightarrow> string \<Rightarrow> bool option"
  cr_sha256 :: "string \<Rightarrow> string"
  cr_encode :: "claims \<Rightarrow> string"
  cr_decode :: "time \<Rightarrow> string \<Rightarrow> claims option"

text \<open>UTF-8 of the code points below 256.\<close>

definition utf8 :: "string \<Rightarrow> string" where
  "utf8 s = concat (map (\<lambda>c. let n = of_char c :: nat in
     if n < 128 then [c] else [char_of (192 + n div 64), char_of (128 + n mod 64)]) s)"

definition bcrypt_max_bytes :: nat where
  "bcrypt_max_bytes = 72"

definition verify_password :: "crypto \<Rightarrow> string \<Rightarrow> string \<Rightarrow> bool" where
  "verify_password cr plain hashed =
     (case cr_checkpw cr (take bcrypt_max_bytes (utf8 plain)) (utf8 hashed) of
        None \<Rightarrow> False | Some b \<Rightarrow> b)"

definition get_password_hash :: "crypto \<Rightarrow> string \<Rightarrow> string \<Rightarrow> string" where
  "get_password_hash cr salt pw = cr_hashpw cr salt (take bcrypt_max_bytes (utf8 pw))"

definition hash_reset_token :: "crypto \<Rightarrow> string \<Rightarrow> string" where
  "hash_reset_token cr token = cr_sha256 cr (utf8 token)"

text \<open>bcrypt's contract for the values the code passes: a hash verifies its own password.\<close>

definition bcrypt_ok :: "crypto \<Rightarrow> bool" where
  "bcrypt_ok cr \<longleftrightarrow> (\<forall>salt pw. cr_checkpw cr pw (utf8 (cr_hashpw cr salt pw)) = Some True)"

lemma verify_own_hash: "bcrypt_ok cr \<Longrightarrow> verify_password cr pw (get_password_hash cr salt pw)"
  by (simp add: bcrypt_ok_def verify_password_def get_password_hash_def)

section \<open>Tokens\<close>

definition minutes :: "rat \<Rightarrow> rat" where
  "minutes n = 60 * n"

definition hours :: "rat \<Rightarrow> rat" where
  "hours n = 3600 * n"

definition days :: "rat \<Rightarrow> rat" where
  "days n = 86400 * n"

text \<open>A zero \<open>expires_delta\<close> is false in Python and means the configured default.\<close>

definition create_access_token :: "crypto \<Rightarrow> time \<Rightarrow> rat \<Rightarrow> string \<Rightarrow> rat option \<Rightarrow> string" where
  "create_access_token cr now expire_minutes subject delta =
     cr_encode cr \<lparr>cl_sub = Some subject,
       cl_exp = now + (case delta of None \<Rightarrow> minutes expire_minutes
                       | Some d \<Rightarrow> if d = 0 then minutes expire_minutes else d),
       cl_type = ''access'', cl_jti = None\<rparr>"

definition decode_access_token :: "crypto \<Rightarrow> time \<Rightarrow> string \<Rightarrow> claims option" where
  "decode_access_token cr now token =
     (case cr_decode cr now token of
        None \<Rightarrow> None | Some p \<Rightarrow> if cl_type p \<noteq> ''access'' then None else Some p)"

definition create_refresh_token_payload :: "time \<Rightarrow> rat \<Rightarrow> string \<Rightarrow> string \<Rightarrow> rat option \<Rightarrow> claims" where
  "create_refresh_token_payload now expire_days subject jti delta =
     \<lparr>cl_sub = Some subject,
      cl_exp = now + (case delta of None \<Rightarrow> days expire_days
                      | Some d \<Rightarrow> if d = 0 then days expire_days else d),
      cl_type = ''refresh'', cl_jti = Some jti\<rparr>"

definition create_refresh_token ::
    "crypto \<Rightarrow> time \<Rightarrow> rat \<Rightarrow> string \<Rightarrow> string \<Rightarrow> rat option \<Rightarrow> string" where
  "create_refresh_token cr now expire_days subject jti delta =
     cr_encode cr (create_refresh_token_payload now expire_days subject jti delta)"

definition decode_refresh_token :: "crypto \<Rightarrow> time \<Rightarrow> string \<Rightarrow> claims option" where
  "decode_refresh_token cr now token =
     (case cr_decode cr now token of
        None \<Rightarrow> None | Some p \<Rightarrow> if cl_type p \<noteq> ''refresh'' then None else Some p)"

section \<open>Facts\<close>

lemma utf8_Nil [simp]: "utf8 [] = []"
  by (simp add: utf8_def)

lemma utf8_ascii: "\<forall>c \<in> set s. (of_char c :: nat) < 128 \<Longrightarrow> utf8 s = s"
  by (induction s) (auto simp: utf8_def Let_def)

lemma same_prefix_same_password:
  assumes "take 72 (utf8 p) = take 72 (utf8 q)"
  shows "verify_password cr p h = verify_password cr q h"
    and "get_password_hash cr salt p = get_password_hash cr salt q"
  using assms by (simp_all add: verify_password_def get_password_hash_def bcrypt_max_bytes_def)

end
