(* ===== verification/RateLimit.thy ===== *)
theory RateLimit
  imports Prelude
begin

text \<open>
  The process-local rate limiter of \<^verbatim>\<open>src/core/rate_limit.py\<close>: the parser of limit strings, the
  sliding window per client, and the decision of the middleware. The monotonic clock reading is
  an argument of \<open>allow\<close>.
\<close>

section \<open>Limit strings\<close>

definition unit_seconds :: "(string, nat) dict" where
  "unit_seconds = [(''second'', 1), (''minute'', 60), (''hour'', 3600), (''day'', 86400)]"

definition parse_rate_limit :: "string \<Rightarrow> exn + int \<times> nat" where
  "parse_rate_limit s =
     (let (count_str, _, unit) = py_partition (CHR ''/'') (py_lower (py_strip s)) in
      if count_str = [] \<or> unit = [] then Inl ValueError
      else case py_int count_str of
        None \<Rightarrow> Inl ValueError
      | Some n \<Rightarrow>
          (case (case dict_get unit_seconds unit of Some w \<Rightarrow> Some w
                 | None \<Rightarrow> dict_get unit_seconds (butlast unit)) of
             None \<Rightarrow> Inl ValueError
           | Some w \<Rightarrow> if n \<le> 0 then Inl ValueError else Inr (n, w)))"

section \<open>The limiter\<close>

record rate_limiter =
  rl_limit :: int
  rl_window :: rat
  rl_hits :: "(string, rat list) dict"

definition new_limiter :: "int \<Rightarrow> rat \<Rightarrow> rate_limiter" where
  "new_limiter limit window = \<lparr>rl_limit = limit, rl_window = window, rl_hits = []\<rparr>"

definition hits_of :: "string \<Rightarrow> rate_limiter \<Rightarrow> rat list" where
  "hits_of key r = (case dict_get (rl_hits r) key of None \<Rightarrow> [] | Some hs \<Rightarrow> hs)"

fun drop_old :: "rat \<Rightarrow> rat \<Rightarrow> rat list \<Rightarrow> rat list" where
  "drop_old now window [] = []"
| "drop_old now window (h # hs) =
     (if now - h > window then drop_old now window hs else h # hs)"

definition allow :: "rat \<Rightarrow> string \<Rightarrow> rate_limiter \<Rightarrow> bool \<times> rate_limiter" where
  "allow now key r =
     (let hits = drop_old now (rl_window r) (hits_of key r) in
      if int (length hits) \<ge> rl_limit r
      then (False, r\<lparr>rl_hits := dict_put key hits (rl_hits r)\<rparr>)
      else (True, r\<lparr>rl_hits := dict_put key (hits @ [now]) (rl_hits r)\<rparr>))"

definition build_rate_limiter :: "bool \<Rightarrow> string \<Rightarrow> exn + rate_limiter option" where
  "build_rate_limiter enabled default_limit =
     (if \<not> enabled then Inr None
      else case parse_rate_limit default_limit of
        Inl err \<Rightarrow> Inl err
      | Inr (n, w) \<Rightarrow> Inr (Some (new_limiter n (of_nat w))))"

section \<open>The middleware\<close>

datatype verdict = CallNext | TooManyRequests int

definition rl_dispatch ::
    "rat \<Rightarrow> string \<Rightarrow> string \<Rightarrow> string option \<Rightarrow> rate_limiter option \<Rightarrow> verdict \<times> rate_limiter option" where
  "rl_dispatch now meth path client limiter =
     (if meth = ''OPTIONS'' \<or> path \<in> {''/health'', ''/api/v1/metrics''} then (CallNext, limiter)
      else case limiter of
        None \<Rightarrow> (CallNext, None)
      | Some r \<Rightarrow>
          (let client_ip = (case client of None \<Rightarrow> ''unknown'' | Some h \<Rightarrow> h);
               (ok, r1) = allow now client_ip r
           in if \<not> ok then (TooManyRequests \<lfloor>rl_window r\<rfloor>, Some r1) else (CallNext, Some r1)))"

section \<open>Serving a sequence of requests\<close>

text \<open>The accepted ones among a sequence of requests (client and time), in order.\<close>

fun serve :: "(string \<times> rat) list \<Rightarrow> rate_limiter \<Rightarrow> (string \<times> rat) list \<times> rate_limiter" where
  "serve [] r = ([], r)"
| "serve ((k, t) # reqs) r =
     (let (ok, r1) = allow t k r; (acc, r2) = serve reqs r1
      in (if ok then (k, t) # acc else acc, r2))"

lemma serve_append:
  "serve (xs @ ys) r =
     (let (acc, r1) = serve xs r; (acc', r2) = serve ys r1 in (acc @ acc', r2))"
  by (induction xs arbitrary: r) (auto simp: Let_def split_beta)

lemma serve_snoc:
  "serve (xs @ [(k, t)]) r =
     (let (acc, r1) = serve xs r; (ok, r2) = allow t k r1
      in (if ok then acc @ [(k, t)] else acc, r2))"
  by (simp add: serve_append Let_def split_beta)

definition times :: "string \<Rightarrow> (string \<times> rat) list \<Rightarrow> rat list" where
  "times key acc = map snd (filter (\<lambda>(k, t). k = key) acc)"

lemma times_append [simp]: "times key (xs @ ys) = times key xs @ times key ys"
  by (simp add: times_def)

lemma times_single [simp]: "times key [(k, t)] = (if k = key then [t] else [])"
  by (simp add: times_def)

lemma drop_old_sorted: "sorted hs \<Longrightarrow> drop_old now w hs = filter (\<lambda>t. now - t \<le> w) hs"
proof (induction hs)
  case (Cons h hs)
  show ?case
  proof (cases "now - h > w")
    case False
    then have "\<forall>t \<in> set hs. now - t \<le> w" using Cons.prems by fastforce
    with False show ?thesis by (simp add: filter_id_conv)
  qed (use Cons in auto)
qed simp

lemma drop_old_split: "\<exists>gone. hs = gone @ drop_old now w hs \<and> (\<forall>t \<in> set gone. now - t > w)"
proof -
  have "drop_old now w hs = dropWhile (\<lambda>h. now - h > w) hs" by (induction hs) simp_all
  then show ?thesis
    by (intro exI [of _ "takeWhile (\<lambda>h. now - h > w) hs"]) (auto dest: set_takeWhileD)
qed

text \<open>
  The deque of a client holds the accepted times except some that have left the window, for a
  clock that has reached \<open>now\<close>.
\<close>

definition window_inv :: "rat \<Rightarrow> (string \<times> rat) list \<Rightarrow> rate_limiter \<Rightarrow> bool" where
  "window_inv now acc r \<longleftrightarrow> (\<forall>key. sorted (times key acc) \<and> (\<forall>t \<in> set (times key acc). t \<le> now) \<and>
     (\<exists>old. times key acc = old @ hits_of key r \<and> (\<forall>t \<in> set old. now - t > rl_window r)))"

definition within_window :: "string \<Rightarrow> rat \<Rightarrow> rat \<Rightarrow> (string \<times> rat) list \<Rightarrow> nat" where
  "within_window key now w acc = length (filter (\<lambda>t. now - t \<le> w) (times key acc))"

lemma allow_limits [simp]:
  "rl_limit (snd (allow now key r)) = rl_limit r" "rl_window (snd (allow now key r)) = rl_window r"
  by (simp_all add: allow_def Let_def)

lemma serve_limits [simp]:
  "rl_limit (snd (serve reqs r)) = rl_limit r" "rl_window (snd (serve reqs r)) = rl_window r"
  by (induction reqs arbitrary: r) (auto simp: Let_def split_beta)

lemma window_inv_later:
  "window_inv now acc r \<Longrightarrow> now \<le> t \<Longrightarrow> window_inv t acc r"
  by (fastforce simp: window_inv_def)

lemma allow_step:
  assumes inv: "window_inv now acc r"
  shows "fst (allow now key r) \<longleftrightarrow> int (within_window key now (rl_window r) acc) < rl_limit r"
    and "window_inv now (if fst (allow now key r) then acc @ [(key, now)] else acc) (snd (allow now key r))"
proof -
  obtain old where old: "times key acc = old @ hits_of key r" "\<forall>t \<in> set old. now - t > rl_window r"
    and sorted: "sorted (times key acc)" "\<forall>t \<in> set (times key acc). t \<le> now"
    using inv unfolding window_inv_def by metis
  let ?hits = "drop_old now (rl_window r) (hits_of key r)"
  have hits: "?hits = filter (\<lambda>t. now - t \<le> rl_window r) (hits_of key r)"
    using sorted(1) by (intro drop_old_sorted) (simp add: old(1) sorted_append)
  moreover have "filter (\<lambda>t. now - t \<le> rl_window r) old = []"
    using old(2) by (auto simp: filter_empty_conv)
  ultimately have within: "within_window key now (rl_window r) acc = length ?hits"
    by (simp add: within_window_def old(1))
  show allowed: "fst (allow now key r) \<longleftrightarrow> int (within_window key now (rl_window r) acc) < rl_limit r"
    by (auto simp: within allow_def Let_def)
  obtain gone where gone: "hits_of key r = gone @ ?hits" "\<forall>t \<in> set gone. now - t > rl_window r"
    using drop_old_split [of "hits_of key r" now "rl_window r"] by blast
  let ?acc = "if fst (allow now key r) then acc @ [(key, now)] else acc" and ?r = "snd (allow now key r)"
  have hits': "hits_of k ?r = (if k = key then ?hits @ (if fst (allow now key r) then [now] else [])
      else hits_of k r)" for k
    by (simp add: allow_def Let_def hits_of_def)
  have times': "times k ?acc = (if k = key \<and> fst (allow now key r) then times k acc @ [now] else times k acc)" for k
    by simp
  show "window_inv now ?acc ?r"
    unfolding window_inv_def
  proof (intro allI conjI)
    fix k
    show "sorted (times k ?acc)" "\<forall>t \<in> set (times k ?acc). t \<le> now"
      using inv sorted unfolding times' by (auto simp: window_inv_def sorted_append)
    show "\<exists>old. times k ?acc = old @ hits_of k ?r \<and> (\<forall>t \<in> set old. now - t > rl_window ?r)"
    proof (cases "k = key")
      case True
      have "times k ?acc = (old @ gone) @ hits_of k ?r"
        using True old(1) gone(1) unfolding times' hits' by simp
      with old(2) gone(2) show ?thesis by (intro exI [of _ "old @ gone"]) auto
    next
      case False
      with inv show ?thesis unfolding times' hits' by (auto simp: window_inv_def)
    qed
  qed
qed

lemma window_inv_serve:
  assumes "sorted (map snd reqs)" and "\<forall>t \<in> set (map snd reqs). t \<le> now"
  shows "window_inv now (fst (serve reqs (new_limiter limit w))) (snd (serve reqs (new_limiter limit w)))"
  using assms
proof (induction reqs arbitrary: now rule: rev_induct)
  case Nil
  then show ?case by (simp add: window_inv_def times_def hits_of_def new_limiter_def)
next
  case (snoc x reqs)
  obtain k t where x: "x = (k, t)" by fastforce
  let ?s = "serve reqs (new_limiter limit w)"
  have "window_inv t (fst ?s) (snd ?s)"
    using snoc.prems by (intro snoc.IH) (auto simp: x sorted_append)
  from allow_step(2) [OF this, of k] have "window_inv t (fst (serve (reqs @ [x]) (new_limiter limit w)))
      (snd (serve (reqs @ [x]) (new_limiter limit w)))"
    by (simp add: x serve_snoc Let_def split_beta)
  then show ?case by (rule window_inv_later) (use snoc.prems in \<open>simp add: x\<close>)
qed

lemma serve_interval:
  assumes "sorted (map snd reqs)" and "0 \<le> limit"
  shows "int (length (filter (\<lambda>t. a \<le> t \<and> t \<le> a + w) (times key (fst (serve reqs (new_limiter limit w))))))
    \<le> limit"
  using assms(1)
proof (induction reqs rule: rev_induct)
  case Nil
  then show ?case using assms(2) by (simp add: times_def)
next
  case (snoc x reqs)
  obtain k t where x: "x = (k, t)" by fastforce
  let ?s = "serve reqs (new_limiter limit w)"
  have IH: "int (length (filter (\<lambda>t. a \<le> t \<and> t \<le> a + w) (times key (fst ?s)))) \<le> limit"
    using snoc by (simp add: sorted_append)
  show ?case
  proof (cases "fst (allow t k (snd ?s)) \<and> k = key \<and> a \<le> t \<and> t \<le> a + w")
    case True
    have "window_inv t (fst ?s) (snd ?s)"
      using snoc.prems by (intro window_inv_serve) (auto simp: x sorted_append)
    from allow_step(1) [OF this, of k] True
    have "int (within_window key t w (fst ?s)) < limit" by (auto simp: new_limiter_def)
    moreover have "length (filter (\<lambda>t. a \<le> t \<and> t \<le> a + w) (times key (fst ?s))) \<le>
        within_window key t w (fst ?s)"
    proof -
      have "filter (\<lambda>t'. a \<le> t' \<and> t' \<le> a + w) (filter (\<lambda>t'. t - t' \<le> w) (times key (fst ?s))) =
          filter (\<lambda>t'. a \<le> t' \<and> t' \<le> a + w) (times key (fst ?s))"
        using True by (auto intro!: filter_cong)
      then show ?thesis unfolding within_window_def by (metis length_filter_le)
    qed
    ultimately show ?thesis using True by (simp add: x serve_snoc Let_def split_beta)
  next
    case False
    with IH show ?thesis by (auto simp: x serve_snoc Let_def split_beta)
  qed
qed

section \<open>Properties\<close>

text \<open>
  C10. The sliding window: whatever requests arrived before, on a clock that does not go backwards,
  a request of a client is accepted exactly when fewer than \<open>limit\<close> of that client's accepted
  requests are within the window before it; other clients do not matter. Consequently no interval
  as long as the window contains more than \<open>limit\<close> accepted requests of one client.
\<close>

theorem sliding_window_exact:
  assumes "sorted (map snd reqs)" and "\<forall>(k, t) \<in> set reqs. t \<le> now" and "0 \<le> limit"
    and "serve reqs (new_limiter limit w) = (acc, r)"
  shows "(fst (allow now key r) \<longleftrightarrow>
      int (length (filter (\<lambda>(k, t). k = key \<and> now - t \<le> w) acc)) < limit) \<and>
    int (length (filter (\<lambda>(k, t). k = key \<and> a \<le> t \<and> t \<le> a + w) acc)) \<le> limit"
proof -
  have acc: "acc = fst (serve reqs (new_limiter limit w))" and r: "r = snd (serve reqs (new_limiter limit w))"
    using assms(4) by simp_all
  have conv: "length (filter P (times key acc)) = length (filter (\<lambda>(k, t). k = key \<and> P t) acc)" for P
    by (simp add: times_def filter_map comp_def case_prod_unfold conj_commute)
  have "window_inv now acc r"
    unfolding acc r by (rule window_inv_serve [OF assms(1)]) (use assms(2) in auto)
  from allow_step(1) [OF this, of key] have "fst (allow now key r) \<longleftrightarrow>
      int (length (filter (\<lambda>t. now - t \<le> w) (times key acc))) < limit"
    by (simp add: r within_window_def new_limiter_def)
  with serve_interval [OF assms(1,3), of a w key] show ?thesis
    unfolding acc [symmetric] conv by simp
qed

theorem sliding_window_exact_witness:
  "fst (allow 5 ''a'' (snd (serve [(''a'', 0), (''a'', 1), (''b'', 2), (''a'', 3)] (new_limiter 2 60)))) = False"
  using sliding_window_exact [of "[(''a'', 0), (''a'', 1), (''b'', 2), (''a'', 3)]" 5 2 60 _ _ "''a''",
      OF _ _ _ prod.collapse [symmetric]]
  by (simp add: allow_def hits_of_def new_limiter_def dict_put_def Let_def)

lemma parse_rate_limit_split:
  assumes "0 < n" and "v \<noteq> []" and "\<not> py_space (last v)"
  shows "parse_rate_limit (str_nat n @ CHR ''/'' # v) =
    (case (case dict_get unit_seconds (py_lower v) of Some w \<Rightarrow> Some w
           | None \<Rightarrow> dict_get unit_seconds (butlast (py_lower v))) of
       None \<Rightarrow> Inl ValueError | Some w \<Rightarrow> Inr (int n, w))"
proof -
  have digits: "\<forall>c \<in> set (str_nat n). is_digit c" using str_nat_digits by (simp add: list_all_iff)
  then have chars: "\<forall>c \<in> set (str_nat n). \<not> py_space c \<and> c \<noteq> CHR ''/'' \<and> py_lower_char c = c"
    using is_digit_chars by blast
  then have "py_strip (str_nat n @ CHR ''/'' # v) = str_nat n @ CHR ''/'' # v"
    using assms(2,3) by (intro py_strip_id) (simp_all add: hd_append hd_in_set)
  moreover have "map py_lower_char (str_nat n) = str_nat n" using chars by (simp add: map_idI)
  then have "py_lower (str_nat n @ CHR ''/'' # v) = str_nat n @ CHR ''/'' # py_lower v"
    by (simp add: py_lower_def py_lower_char_def)
  moreover have "py_partition (CHR ''/'') (str_nat n @ CHR ''/'' # py_lower v) = (str_nat n, True, py_lower v)"
    using chars by (simp add: py_partition_def takeWhile_append dropWhile_append takeWhile_eq_all_conv
        dropWhile_eq_Nil_conv)
  moreover have "py_lower v \<noteq> []" using assms(2) by (simp add: py_lower_def)
  ultimately show ?thesis
    using assms(1) by (simp add: parse_rate_limit_def Let_def split: option.split)
qed

text \<open>
  Limit strings are read back: \<open>n/unit\<close> with a positive number and one of the four units gives that
  number and the unit's seconds. The plural is recognised by cutting the last character off, so any
  other character in its place is accepted as well.
\<close>

theorem parse_rate_limit_reads_units:
  assumes "0 < n" and "(u, w) \<in> set unit_seconds" and "\<not> py_space c"
  shows "parse_rate_limit (str_nat n @ CHR ''/'' # u) = Inr (int n, w) \<and>
    parse_rate_limit (str_nat n @ CHR ''/'' # u @ [c]) = Inr (int n, w)"
proof -
  have u: "u \<noteq> []" "\<not> py_space (last u)" "py_lower u = u" "dict_get unit_seconds u = Some w"
    "dict_get unit_seconds (u @ [d]) = None" for d
    using assms(2) by (auto simp: unit_seconds_def py_space_def py_lower_def py_lower_char_def)
  have "py_lower (u @ [c]) = u @ [py_lower_char c]" using u(3) by (simp add: py_lower_def)
  then show ?thesis
    using parse_rate_limit_split [OF assms(1) u(1,2)] parse_rate_limit_split [OF assms(1), of "u @ [c]"]
      assms(3) u by simp
qed

theorem parse_rate_limit_reads_units_witness:
  "parse_rate_limit ''9/minutex'' = Inr (9, 60)"
proof -
  have "str_nat 9 = ''9''" by code_simp
  then show ?thesis
    using parse_rate_limit_reads_units [of 9 "''minute''" 60 "CHR ''x''"]
    by (simp add: unit_seconds_def py_space_def)
qed

end
