(* ===== verification/Auth.thy ===== *)
theory Auth
  imports Security RateLimit Runs
begin

text \<open>
  Accounts, logins, refresh tokens and password resets: the user and token functions of
  \<^verbatim>\<open>src/db/crud.py\<close>, the handlers of \<^verbatim>\<open>src/api/auth/router.py\<close> and the dependencies of
  \<^verbatim>\<open>src/api/deps.py\<close>.

  The tables are lists of rows in storage order; a query with \<open>first()\<close> takes the first match. The
  unique columns (identifier, email, user name, refresh token) are enforced on insertion, as the
  schema does. A handler returns its reply or the exception together with the state, because a
  failed login is recorded. \<open>clk\<close> is the monotonic clock of the rate limiter, \<open>now\<close> the time of day.
\<close>

section \<open>Tables\<close>

record user =
  usr_id :: int
  usr_email :: string
  usr_username :: string
  hashed_password :: string
  usr_full_name :: "string option"
  is_active :: bool
  is_superuser :: bool
  is_verified :: bool
  failed_login_attempts :: int
  lock_until :: "time option"
  password_reset_token :: "string option"
  hashed_reset_token :: "string option"
  password_reset_expires :: "time option"

record refresh_row =
  rt_token :: string
  rt_user_id :: int
  rt_expires_at :: time
  rt_revoked :: bool

record auth_state =
  db_users :: "user list"
  db_tokens :: "refresh_row list"
  db_next_id :: int
  auth_limiter :: "rate_limiter option"

record auth_config =
  cfg_crypto :: crypto
  access_token_expire_minutes :: rat
  refresh_token_expire_days :: rat

definition find_first :: "('a \<Rightarrow> bool) \<Rightarrow> 'a list \<Rightarrow> 'a option" where
  "find_first = List.find"

definition get_user :: "int \<Rightarrow> auth_state \<Rightarrow> user option" where
  "get_user uid s = find_first (\<lambda>u. usr_id u = uid) (db_users s)"

definition get_user_by_email :: "string \<Rightarrow> auth_state \<Rightarrow> user option" where
  "get_user_by_email email s = find_first (\<lambda>u. usr_email u = email) (db_users s)"

definition get_user_by_username :: "string \<Rightarrow> auth_state \<Rightarrow> user option" where
  "get_user_by_username name s = find_first (\<lambda>u. usr_username u = name) (db_users s)"

definition get_users :: "nat \<Rightarrow> nat \<Rightarrow> auth_state \<Rightarrow> user list" where
  "get_users skip limit s = take limit (drop skip (db_users s))"

text \<open>Changing the columns of the row of one user.\<close>

definition put_user :: "int \<Rightarrow> (user \<Rightarrow> user) \<Rightarrow> auth_state \<Rightarrow> auth_state" where
  "put_user uid f s = s\<lparr>db_users := map (\<lambda>u. if usr_id u = uid then f u else u) (db_users s)\<rparr>"

section \<open>Users\<close>

definition crud_create_user ::
    "auth_config \<Rightarrow> string \<Rightarrow> string \<Rightarrow> string \<Rightarrow> string \<Rightarrow> string option \<Rightarrow> auth_state
     \<Rightarrow> (exn + user) \<times> auth_state" where
  "crud_create_user cfg salt email username pw full_name s =
     (let u = \<lparr>usr_id = db_next_id s, usr_email = email, usr_username = username,
               hashed_password = get_password_hash (cfg_crypto cfg) salt pw,
               usr_full_name = full_name, is_active = True, is_superuser = False,
               is_verified = False, failed_login_attempts = 0, lock_until = None,
               password_reset_token = None, hashed_reset_token = None,
               password_reset_expires = None\<rparr>
      in if get_user_by_email email s \<noteq> None \<or> get_user_by_username username s \<noteq> None
         then (Inl (OtherException ''IntegrityError''), s)
         else (Inr u, s\<lparr>db_users := db_users s @ [u], db_next_id := db_next_id s + 1\<rparr>))"

definition update_user ::
    "crypto \<Rightarrow> int \<Rightarrow> bool option \<Rightarrow> int option \<Rightarrow> time option \<Rightarrow> string option \<Rightarrow> time option
     \<Rightarrow> auth_state \<Rightarrow> user option \<times> auth_state" where
  "update_user cr uid verified attempts lock reset_token expires s =
     (case get_user uid s of
        None \<Rightarrow> (None, s)
      | Some _ \<Rightarrow>
          (let f = (\<lambda>u.
             let u1 = (case verified of None \<Rightarrow> u | Some b \<Rightarrow> u\<lparr>is_verified := b\<rparr>);
                 u2 = (case attempts of None \<Rightarrow> u1 | Some n \<Rightarrow> u1\<lparr>failed_login_attempts := n\<rparr>);
                 u3 = (case lock of None \<Rightarrow> u2 | Some t \<Rightarrow> u2\<lparr>lock_until := Some t\<rparr>);
                 u4 = (case reset_token of None \<Rightarrow> u3
                       | Some t \<Rightarrow> u3\<lparr>hashed_reset_token := Some (hash_reset_token cr t),
                                     password_reset_token := None\<rparr>)
             in (case expires of None \<Rightarrow> u4 | Some t \<Rightarrow> u4\<lparr>password_reset_expires := Some t\<rparr>));
             s1 = put_user uid f s
           in (get_user uid s1, s1)))"

definition clear_reset_token :: "int \<Rightarrow> auth_state \<Rightarrow> user option \<times> auth_state" where
  "clear_reset_token uid s =
     (case get_user uid s of
        None \<Rightarrow> (None, s)
      | Some _ \<Rightarrow>
          (let s1 = put_user uid (\<lambda>u. u\<lparr>hashed_reset_token := None, password_reset_token := None,
                                        password_reset_expires := None\<rparr>) s
           in (get_user uid s1, s1)))"

definition change_password ::
    "crypto \<Rightarrow> string \<Rightarrow> int \<Rightarrow> string \<Rightarrow> auth_state \<Rightarrow> (exn + user option) \<times> auth_state" where
  "change_password cr salt uid pw s =
     (case get_user uid s of
        None \<Rightarrow> (Inr None, s)
      | Some u \<Rightarrow>
          if verify_password cr pw (hashed_password u) then (Inl ValidationFailedError, s)
          else
            (let s1 = put_user uid (\<lambda>u. u\<lparr>hashed_password := get_password_hash cr salt pw,
                        hashed_reset_token := None, password_reset_token := None,
                        password_reset_expires := None\<rparr>) s
             in (Inr (get_user uid s1), s1)))"

definition is_locked :: "time \<Rightarrow> user \<Rightarrow> bool" where
  "is_locked now u = (case lock_until u of None \<Rightarrow> False | Some t \<Rightarrow> t > now)"

definition record_failure :: "time \<Rightarrow> user \<Rightarrow> user" where
  "record_failure now u =
     (let n = failed_login_attempts u + 1; u1 = u\<lparr>failed_login_attempts := n\<rparr>
      in if n \<ge> 5 then u1\<lparr>lock_until := Some (now + minutes 30)\<rparr> else u1)"

definition authenticate_user ::
    "crypto \<Rightarrow> time \<Rightarrow> string \<Rightarrow> string \<Rightarrow> auth_state \<Rightarrow> user option \<times> auth_state" where
  "authenticate_user cr now username pw s =
     (case get_user_by_username username s of
        None \<Rightarrow> (None, s)
      | Some u \<Rightarrow>
          if is_locked now u then (None, s)
          else if \<not> verify_password cr pw (hashed_password u)
          then (None, put_user (usr_id u) (record_failure now) s)
          else
            (let s1 = put_user (usr_id u) (\<lambda>u. u\<lparr>failed_login_attempts := 0, lock_until := None\<rparr>) s
             in (get_user (usr_id u) s1, s1)))"

section \<open>Handlers\<close>

definition client_ip :: "string option \<Rightarrow> string" where
  "client_ip client = (case client of None \<Rightarrow> ''unknown'' | Some h \<Rightarrow> h)"

definition enforce_auth_rate_limit ::
    "rat \<Rightarrow> string \<Rightarrow> auth_state \<Rightarrow> exn option \<times> auth_state" where
  "enforce_auth_rate_limit clk ip s =
     (case auth_limiter s of
        None \<Rightarrow> (None, s)
      | Some r \<Rightarrow>
          (let (ok, r1) = allow clk (''auth:'' @ ip) r
           in (if ok then None else Some (HTTPException 429), s\<lparr>auth_limiter := Some r1\<rparr>)))"

record token_reply =
  tk_access :: string
  tk_refresh :: string
  tk_type :: string

definition add_refresh_token ::
    "string \<Rightarrow> int \<Rightarrow> time \<Rightarrow> auth_state \<Rightarrow> exn option \<times> auth_state" where
  "add_refresh_token token uid expires s =
     (if token \<in> set (map rt_token (db_tokens s)) then (Some (OtherException ''IntegrityError''), s)
      else (None, s\<lparr>db_tokens := db_tokens s @
             [\<lparr>rt_token = token, rt_user_id = uid, rt_expires_at = expires, rt_revoked = False\<rparr>]\<rparr>))"

text \<open>The tail of a login and of a refresh: a fresh pair of tokens, the refresh token stored.\<close>

definition issue_tokens ::
    "auth_config \<Rightarrow> time \<Rightarrow> string \<Rightarrow> int \<Rightarrow> auth_state \<Rightarrow> (exn + token_reply) \<times> auth_state" where
  "issue_tokens cfg now jti uid s =
     (let access = create_access_token (cfg_crypto cfg) now (access_token_expire_minutes cfg)
                     (str_int uid) None;
          raw = create_refresh_token (cfg_crypto cfg) now (refresh_token_expire_days cfg)
                  (str_int uid) jti None
      in case add_refresh_token raw uid (now + days (refresh_token_expire_days cfg)) s of
           (Some err, s1) \<Rightarrow> (Inl err, s1)
         | (None, s1) \<Rightarrow>
             (Inr \<lparr>tk_access = access, tk_refresh = raw, tk_type = ''bearer''\<rparr>, s1))"

definition login_for_access_token ::
    "auth_config \<Rightarrow> rat \<Rightarrow> time \<Rightarrow> string \<Rightarrow> string \<Rightarrow> string \<Rightarrow> string \<Rightarrow> auth_state
     \<Rightarrow> (exn + token_reply) \<times> auth_state" where
  "login_for_access_token cfg clk now ip jti username pw s =
     (case enforce_auth_rate_limit clk ip s of
        (Some err, s1) \<Rightarrow> (Inl err, s1)
      | (None, s1) \<Rightarrow>
          (case authenticate_user (cfg_crypto cfg) now username pw s1 of
             (None, s2) \<Rightarrow> (Inl UnauthorizedError, s2)
           | (Some u, s2) \<Rightarrow> issue_tokens cfg now jti (usr_id u) s2))"

text \<open>Registration, after pydantic has validated the payload (status 422 otherwise).\<close>

definition api_create_user ::
    "auth_config \<Rightarrow> (string \<Rightarrow> bool) \<Rightarrow> rat \<Rightarrow> string \<Rightarrow> string \<Rightarrow> user_create \<Rightarrow> auth_state
     \<Rightarrow> (exn + user) \<times> auth_state" where
  "api_create_user cfg valid_email clk ip salt u s =
     (if \<not> user_create_valid valid_email u then (Inl (HTTPException 422), s)
      else case enforce_auth_rate_limit clk ip s of
        (Some err, s1) \<Rightarrow> (Inl err, s1)
      | (None, s1) \<Rightarrow>
          if get_user_by_email (uc_email u) s1 \<noteq> None then (Inl ConflictError, s1)
          else if get_user_by_username (uc_username u) s1 \<noteq> None then (Inl ConflictError, s1)
          else crud_create_user cfg salt (uc_email u) (uc_username u) (uc_password u) (uc_full_name u) s1)"

definition request_password_reset ::
    "auth_config \<Rightarrow> rat \<Rightarrow> time \<Rightarrow> string \<Rightarrow> string \<Rightarrow> string \<Rightarrow> auth_state
     \<Rightarrow> (exn + string) \<times> auth_state" where
  "request_password_reset cfg clk now ip token email s =
     (case enforce_auth_rate_limit clk ip s of
        (Some err, s1) \<Rightarrow> (Inl err, s1)
      | (None, s1) \<Rightarrow>
          (case get_user_by_email email s1 of
             None \<Rightarrow> (Inl (HTTPException 404), s1)
           | Some u \<Rightarrow>
               (Inr ''If the email exists, a reset link has been sent'',
                snd (update_user (cfg_crypto cfg) (usr_id u) None None None (Some token)
                       (Some (now + hours 24)) s1))))"

definition live_reset :: "string \<Rightarrow> time \<Rightarrow> user \<Rightarrow> bool" where
  "live_reset digest now u \<longleftrightarrow> hashed_reset_token u = Some digest \<and>
     (case password_reset_expires u of None \<Rightarrow> False | Some t \<Rightarrow> t > now)"

definition reset_password ::
    "auth_config \<Rightarrow> rat \<Rightarrow> time \<Rightarrow> string \<Rightarrow> string \<Rightarrow> string \<Rightarrow> string \<Rightarrow> auth_state
     \<Rightarrow> (exn + string) \<times> auth_state" where
  "reset_password cfg clk now ip salt token pw s =
     (case enforce_auth_rate_limit clk ip s of
        (Some err, s1) \<Rightarrow> (Inl err, s1)
      | (None, s1) \<Rightarrow>
          (case find_first (live_reset (hash_reset_token (cfg_crypto cfg) token) now) (db_users s1) of
             None \<Rightarrow> (Inl (HTTPException 400), s1)
           | Some u \<Rightarrow>
               (case change_password (cfg_crypto cfg) salt (usr_id u) pw s1 of
                  (Inl err, s2) \<Rightarrow> (Inl err, s2)
                | (Inr None, s2) \<Rightarrow> (Inl (HTTPException 404), s2)
                | (Inr (Some _), s2) \<Rightarrow> (Inr ''Password successfully reset'', s2))))"

definition verify_email :: "auth_config \<Rightarrow> user \<Rightarrow> auth_state \<Rightarrow> auth_state" where
  "verify_email cfg u s =
     snd (update_user (cfg_crypto cfg) (usr_id u) (Some True) None None None None s)"

definition live_token :: "string \<Rightarrow> time \<Rightarrow> refresh_row \<Rightarrow> bool" where
  "live_token token now r \<longleftrightarrow> rt_token r = token \<and> \<not> rt_revoked r \<and> rt_expires_at r > now"

text \<open>Revoking the rows with a token; the column is unique, so there is at most one.\<close>

definition revoke :: "string \<Rightarrow> auth_state \<Rightarrow> auth_state" where
  "revoke token s = s\<lparr>db_tokens := map (\<lambda>r. if rt_token r = token then r\<lparr>rt_revoked := True\<rparr> else r)
     (db_tokens s)\<rparr>"

text \<open>When the commit fails, the revocation is rolled back with it.\<close>

definition refresh_tokens ::
    "auth_config \<Rightarrow> rat \<Rightarrow> time \<Rightarrow> string \<Rightarrow> string \<Rightarrow> string \<Rightarrow> auth_state
     \<Rightarrow> (exn + token_reply) \<times> auth_state" where
  "refresh_tokens cfg clk now ip jti token s =
     (case enforce_auth_rate_limit clk ip s of
        (Some err, s1) \<Rightarrow> (Inl err, s1)
      | (None, s1) \<Rightarrow>
          (case find_first (live_token token now) (db_tokens s1) of
             None \<Rightarrow> (Inl UnauthorizedError, s1)
           | Some r \<Rightarrow>
               (case decode_refresh_token (cfg_crypto cfg) now token of
                  None \<Rightarrow> (Inl UnauthorizedError, s1)
                | Some p \<Rightarrow>
                    if cl_sub p \<noteq> Some (str_int (rt_user_id r)) then (Inl UnauthorizedError, s1)
                    else (case issue_tokens cfg now jti (rt_user_id r) (revoke token s1) of
                            (Inl err, _) \<Rightarrow> (Inl err, s1)
                          | (Inr reply, s2) \<Rightarrow> (Inr reply, s2)))))"

definition logout :: "string \<Rightarrow> auth_state \<Rightarrow> auth_state" where
  "logout token s =
     (case find_first (\<lambda>r. rt_token r = token) (db_tokens s) of None \<Rightarrow> s | Some _ \<Rightarrow> revoke token s)"

section \<open>Dependencies\<close>

text \<open>The conversion of the subject to a number may raise \<open>ValueError\<close>.\<close>

definition get_current_user ::
    "auth_config \<Rightarrow> time \<Rightarrow> string \<Rightarrow> auth_state \<Rightarrow> exn + user" where
  "get_current_user cfg now token s =
     (case decode_access_token (cfg_crypto cfg) now token of
        None \<Rightarrow> Inl UnauthorizedError
      | Some p \<Rightarrow>
          (case cl_sub p of
             None \<Rightarrow> Inl UnauthorizedError
           | Some sub \<Rightarrow>
               (case py_int sub of
                  None \<Rightarrow> Inl ValueError
                | Some uid \<Rightarrow>
                    (case get_user uid s of None \<Rightarrow> Inl UnauthorizedError | Some u \<Rightarrow> Inr u))))"

definition get_current_active_user :: "exn + user \<Rightarrow> exn + user" where
  "get_current_active_user r =
     (case r of Inl err \<Rightarrow> Inl err | Inr u \<Rightarrow> if \<not> is_active u then Inl ForbiddenError else Inr u)"

definition get_current_superuser :: "exn + user \<Rightarrow> exn + user" where
  "get_current_superuser r =
     (case r of Inl err \<Rightarrow> Inl err | Inr u \<Rightarrow> if \<not> is_superuser u then Inl ForbiddenError else Inr u)"

section \<open>Queries and updates\<close>

lemma find_first_Some: "find_first P xs = Some x \<Longrightarrow> x \<in> set xs \<and> P x"
  by (auto simp: find_first_def find_Some_iff)

lemma find_first_None: "find_first P xs = None \<longleftrightarrow> (\<forall>x \<in> set xs. \<not> P x)"
  by (auto simp: find_first_def find_None_iff)

lemma find_first_map:
  assumes "\<And>x. P (g x) = P x"
  shows "find_first P (map g xs) = map_option g (find_first P xs)"
  by (induction xs) (simp_all add: find_first_def assms)

lemma find_first_mem:
  "distinct (map key xs) \<Longrightarrow> x \<in> set xs \<Longrightarrow> find_first (\<lambda>y. key y = key x) xs = Some x"
  by (induction xs) (auto simp: find_first_def)

lemma get_put_user:
  assumes "\<And>u. usr_id (f u) = usr_id u"
  shows "get_user k (put_user uid f s) = map_option (\<lambda>u. if usr_id u = uid then f u else u) (get_user k s)"
  unfolding get_user_def put_user_def
  by (simp add: find_first_map [where g = "\<lambda>u. if usr_id u = uid then f u else u"] assms)

lemma get_put_username:
  assumes "\<And>u. usr_username (f u) = usr_username u" and "get_user_by_username name s = Some u"
  shows "get_user_by_username name (put_user (usr_id u) f s) = Some (f u)"
  using assms(2) unfolding get_user_by_username_def put_user_def
  by (simp add: find_first_map [where g = "\<lambda>v. if usr_id v = usr_id u then f v else v"] assms(1))

lemma put_user_other_columns:
  assumes "\<And>u. c (f u) = c u"
  shows "map c (db_users (put_user uid f s)) = map c (db_users s)"
  by (simp add: put_user_def assms)

lemma put_user_simps [simp]:
  "db_tokens (put_user uid f s) = db_tokens s" "db_next_id (put_user uid f s) = db_next_id s"
  "auth_limiter (put_user uid f s) = auth_limiter s"
  by (simp_all add: put_user_def)

section \<open>The invariant\<close>

definition auth_inv :: "auth_state \<Rightarrow> bool" where
  "auth_inv s \<longleftrightarrow> distinct (map usr_id (db_users s)) \<and> distinct (map usr_email (db_users s)) \<and>
     distinct (map usr_username (db_users s)) \<and> (\<forall>i \<in> set (map usr_id (db_users s)). i < db_next_id s) \<and>
     distinct (map rt_token (db_tokens s))"

definition auth_init :: "rate_limiter option \<Rightarrow> auth_state" where
  "auth_init limiter = \<lparr>db_users = [], db_tokens = [], db_next_id = 1, auth_limiter = limiter\<rparr>"

text \<open>What every handler but registration leaves alone, and how it moves the token table.\<close>

definition keeps_users :: "auth_state \<Rightarrow> auth_state \<Rightarrow> bool" where
  "keeps_users s s' \<longleftrightarrow> map usr_id (db_users s') = map usr_id (db_users s) \<and>
     map usr_email (db_users s') = map usr_email (db_users s) \<and>
     map usr_username (db_users s') = map usr_username (db_users s) \<and> db_next_id s' = db_next_id s"

definition revoked_tokens :: "auth_state \<Rightarrow> string set" where
  "revoked_tokens s = rt_token ` {r \<in> set (db_tokens s). rt_revoked r}"

lemma keeps_refl [simp]: "keeps_users s s"
  by (simp add: keeps_users_def)

lemma keeps_trans: "keeps_users s s1 \<Longrightarrow> keeps_users s1 s2 \<Longrightarrow> keeps_users s s2"
  by (simp add: keeps_users_def)

lemma keeps_inv:
  "auth_inv s \<Longrightarrow> keeps_users s s' \<Longrightarrow> distinct (map rt_token (db_tokens s')) \<Longrightarrow> auth_inv s'"
  unfolding auth_inv_def keeps_users_def by simp

lemma keeps_put_user:
  "(\<And>u. usr_id (f u) = usr_id u \<and> usr_email (f u) = usr_email u \<and> usr_username (f u) = usr_username u)
     \<Longrightarrow> keeps_users s (put_user uid f s)"
  by (simp add: keeps_users_def put_user_other_columns)

lemma enforce_simps [simp]:
  "keeps_users s (snd (enforce_auth_rate_limit clk ip s))"
  "db_users (snd (enforce_auth_rate_limit clk ip s)) = db_users s"
  "db_tokens (snd (enforce_auth_rate_limit clk ip s)) = db_tokens s"
  by (simp_all add: enforce_auth_rate_limit_def keeps_users_def Let_def split_beta split: option.split)

lemma keeps_update_user:
  "keeps_users s (snd (update_user cr uid a b c d e s))"
  "db_tokens (snd (update_user cr uid a b c d e s)) = db_tokens s"
  by (auto simp: update_user_def Let_def intro!: keeps_put_user split: option.split)

lemma keeps_change_password:
  "keeps_users s (snd (change_password cr salt uid pw s))"
  "db_tokens (snd (change_password cr salt uid pw s)) = db_tokens s"
  by (auto simp: change_password_def Let_def intro!: keeps_put_user split: option.split)

lemma keeps_record_failure:
  "usr_id (record_failure now u) = usr_id u" "usr_email (record_failure now u) = usr_email u"
  "usr_username (record_failure now u) = usr_username u"
  "hashed_password (record_failure now u) = hashed_password u"
  by (simp_all add: record_failure_def Let_def)

lemma keeps_authenticate:
  "keeps_users s (snd (authenticate_user cr now name pw s))"
  "db_tokens (snd (authenticate_user cr now name pw s)) = db_tokens s"
  by (auto simp: authenticate_user_def Let_def keeps_record_failure intro!: keeps_put_user
      split: option.split)

lemma issue_tokens_eq:
  "issue_tokens cfg now jti uid s =
     (let raw = create_refresh_token (cfg_crypto cfg) now (refresh_token_expire_days cfg)
                  (str_int uid) jti None
      in if raw \<in> set (map rt_token (db_tokens s)) then (Inl (OtherException ''IntegrityError''), s)
         else (Inr \<lparr>tk_access = create_access_token (cfg_crypto cfg) now
                      (access_token_expire_minutes cfg) (str_int uid) None,
                    tk_refresh = raw, tk_type = ''bearer''\<rparr>,
               s\<lparr>db_tokens := db_tokens s @ [\<lparr>rt_token = raw, rt_user_id = uid,
                   rt_expires_at = now + days (refresh_token_expire_days cfg), rt_revoked = False\<rparr>]\<rparr>))"
  by (simp add: issue_tokens_def add_refresh_token_def Let_def)

lemma issue_tokens_keeps:
  "keeps_users s (snd (issue_tokens cfg now jti uid s))"
  "distinct (map rt_token (db_tokens s)) \<Longrightarrow>
     distinct (map rt_token (db_tokens (snd (issue_tokens cfg now jti uid s))))"
  "revoked_tokens s \<subseteq> revoked_tokens (snd (issue_tokens cfg now jti uid s))"
  by (auto simp: issue_tokens_eq Let_def keeps_users_def revoked_tokens_def)

lemma revoke_keeps:
  "keeps_users s (revoke token s)" "map rt_token (db_tokens (revoke token s)) = map rt_token (db_tokens s)"
  "revoked_tokens s \<subseteq> revoked_tokens (revoke token s)"
  by (force simp: revoke_def keeps_users_def revoked_tokens_def)+

lemma revoke_revokes:
  assumes "token \<in> set (map rt_token (db_tokens s))"
  shows "token \<in> revoked_tokens (revoke token s)"
proof -
  from assms obtain r where r: "r \<in> set (db_tokens s)" "rt_token r = token" by auto
  then have "r\<lparr>rt_revoked := True\<rparr> \<in> set (db_tokens (revoke token s))"
    by (force simp: revoke_def)
  with r(2) show ?thesis
    unfolding revoked_tokens_def by (intro image_eqI [where x = "r\<lparr>rt_revoked := True\<rparr>"]) simp_all
qed

text \<open>Everything but the users and tables: the rate limiter.\<close>

lemma enforce_None:
  "enforce_auth_rate_limit clk ip s = (err, s1) \<Longrightarrow>
     db_users s1 = db_users s \<and> db_tokens s1 = db_tokens s \<and> keeps_users s s1"
  using enforce_simps [where s = s and clk = clk and ip = ip] by auto

lemma refresh_cases:
  assumes "refresh_tokens cfg clk now ip jti token s = (res, s')"
  obtains (refused) err where "res = Inl err" "db_users s' = db_users s" "db_tokens s' = db_tokens s"
      "keeps_users s s'"
  | (issued) reply r s1 where "res = Inr reply" "db_tokens s1 = db_tokens s" "db_users s1 = db_users s"
      "keeps_users s s1"
      "find_first (live_token token now) (db_tokens s) = Some r"
      "issue_tokens cfg now jti (rt_user_id r) (revoke token s1) = (Inr reply, s')"
  using assms
  by (auto simp: refresh_tokens_def dest!: enforce_None
      split: prod.splits option.splits sum.splits if_splits)

inductive auth_step :: "auth_config \<Rightarrow> (string \<Rightarrow> bool) \<Rightarrow> auth_state \<Rightarrow> auth_state \<Rightarrow> bool" for cfg ve where
  a_login: "auth_step cfg ve s (snd (login_for_access_token cfg clk now ip jti name pw s))"
| a_create: "auth_step cfg ve s (snd (api_create_user cfg ve clk ip salt u s))"
| a_request: "auth_step cfg ve s (snd (request_password_reset cfg clk now ip token email s))"
| a_reset: "auth_step cfg ve s (snd (reset_password cfg clk now ip salt token pw s))"
| a_verify: "auth_step cfg ve s (verify_email cfg u s)"
| a_refresh: "auth_step cfg ve s (snd (refresh_tokens cfg clk now ip jti token s))"
| a_logout: "auth_step cfg ve s (logout token s)"

abbreviation auth_run :: "auth_config \<Rightarrow> (string \<Rightarrow> bool) \<Rightarrow> auth_state \<Rightarrow> auth_state \<Rightarrow> bool" where
  "auth_run cfg ve \<equiv> (auth_step cfg ve)\<^sup>*\<^sup>*"

lemmas a_run_refl = rtranclp.rtrancl_refl [where r = "auth_step cfg ve" for cfg ve]
lemmas a_run_step = rtranclp.rtrancl_into_rtrancl [where r = "auth_step cfg ve" for cfg ve]

text \<open>One step keeps the invariant and never revives a revoked token.\<close>

definition step_ok :: "auth_state \<Rightarrow> auth_state \<Rightarrow> bool" where
  "step_ok s s' \<longleftrightarrow> (auth_inv s \<longrightarrow> auth_inv s') \<and> revoked_tokens s \<subseteq> revoked_tokens s'"

lemma step_okI:
  assumes "keeps_users s s'" and "db_tokens s' = db_tokens s"
  shows "step_ok s s'"
  using assms keeps_inv [of s s'] unfolding step_ok_def revoked_tokens_def auth_inv_def by simp

lemma step_ok_trans: "step_ok s s1 \<Longrightarrow> step_ok s1 s2 \<Longrightarrow> step_ok s s2"
  unfolding step_ok_def by blast

lemma step_ok_issue: "step_ok s (snd (issue_tokens cfg now jti uid s))"
proof -
  have "distinct (map rt_token (db_tokens s))" if "auth_inv s"
    using that by (simp add: auth_inv_def)
  then show ?thesis
    unfolding step_ok_def using keeps_inv issue_tokens_keeps by blast
qed

lemma step_ok_login: "step_ok s (snd (login_for_access_token cfg clk now ip jti name pw s))"
proof -
  obtain err s1 where e: "enforce_auth_rate_limit clk ip s = (err, s1)" by fastforce
  obtain r s2 where a: "authenticate_user (cfg_crypto cfg) now name pw s1 = (r, s2)" by fastforce
  have s2: "keeps_users s s2" "db_tokens s2 = db_tokens s"
    using enforce_None [OF e] keeps_authenticate [where s = s1 and cr = "cfg_crypto cfg" and now = now and name = name and pw = pw] a
    by (auto intro: keeps_trans)
  show ?thesis
  proof (cases "err = None \<and> r \<noteq> None")
    case True
    then obtain u where "err = None" and "r = Some u" by auto
    then have "snd (login_for_access_token cfg clk now ip jti name pw s) =
        snd (issue_tokens cfg now jti (usr_id u) s2)"
      by (simp add: login_for_access_token_def e a)
    moreover have "step_ok s s2" by (rule step_okI [OF s2])
    ultimately show ?thesis using step_ok_trans step_ok_issue by metis
  next
    case False
    then have "snd (login_for_access_token cfg clk now ip jti name pw s) \<in> {s1, s2}"
      by (cases err; cases r) (simp_all add: login_for_access_token_def e a)
    with s2 enforce_None [OF e] show ?thesis by (blast intro: step_okI)
  qed
qed

lemma step_ok_refresh: "step_ok s (snd (refresh_tokens cfg clk now ip jti token s))"
proof -
  obtain res s' where eq: "refresh_tokens cfg clk now ip jti token s = (res, s')" by fastforce
  from eq show ?thesis
  proof (cases rule: refresh_cases)
    case (refused err)
    with eq show ?thesis by (auto intro: step_okI)
  next
    case (issued reply r s1)
    have same: "revoked_tokens s1 = revoked_tokens s" by (simp add: revoked_tokens_def issued)
    have "keeps_users s s'"
      using issued(4,6) revoke_keeps(1) issue_tokens_keeps(1) keeps_trans by (metis snd_conv)
    moreover have "distinct (map rt_token (db_tokens s'))" if "auth_inv s"
      using that issued issue_tokens_keeps(2) [where s = "revoke token s1" and cfg = cfg and now = now and jti = jti
          and uid = "rt_user_id r"]
      by (simp add: auth_inv_def revoke_keeps(2) del: map_map)
    moreover have "revoked_tokens s \<subseteq> revoked_tokens s'"
      using revoke_keeps(3) [of s1 token] issue_tokens_keeps(3) [where s = "revoke token s1" and cfg = cfg
          and now = now and jti = jti and uid = "rt_user_id r"]
      by (simp add: issued(6) same)
    ultimately show ?thesis using eq by (auto simp: step_ok_def intro: keeps_inv)
  qed
qed

lemma crud_create_user_cases:
  assumes "crud_create_user cfg salt email username pw full_name s = (res, s')"
  shows "(s' = s \<and> (\<exists>err. res = Inl err)) \<or>
     (\<exists>u. res = Inr u \<and> s' = s\<lparr>db_users := db_users s @ [u], db_next_id := db_next_id s + 1\<rparr> \<and>
        usr_id u = db_next_id s \<and> usr_email u = email \<and> usr_username u = username \<and>
        get_user_by_email email s = None \<and> get_user_by_username username s = None)"
proof (cases "get_user_by_email email s \<noteq> None \<or> get_user_by_username username s \<noteq> None")
  case True
  with assms show ?thesis by (intro disjI1) (auto simp: crud_create_user_def Let_def)
next
  case False
  with assms show ?thesis
    by (intro disjI2 exI [of _ "projr res"]) (auto simp: crud_create_user_def Let_def)
qed

lemma auth_inv_add:
  assumes "auth_inv s" and "get_user_by_email (usr_email u) s = None"
    and "get_user_by_username (usr_username u) s = None" and "usr_id u = db_next_id s"
  shows "auth_inv (s\<lparr>db_users := db_users s @ [u], db_next_id := db_next_id s + 1\<rparr>)"
proof -
  have "usr_email u \<notin> set (map usr_email (db_users s))"
    using assms(2) by (auto simp: get_user_by_email_def find_first_None)
  moreover have "usr_username u \<notin> set (map usr_username (db_users s))"
    using assms(3) by (auto simp: get_user_by_username_def find_first_None)
  moreover have ids: "\<forall>i \<in> set (map usr_id (db_users s)). i < db_next_id s"
    using assms(1) by (simp add: auth_inv_def)
  then have "usr_id u \<notin> set (map usr_id (db_users s))" unfolding assms(4) by (metis less_irrefl)
  moreover have "\<forall>i \<in> set (map usr_id (db_users s @ [u])). i < db_next_id s + 1"
    using ids assms(4) by (simp del: set_map add: less_imp_le)
  ultimately show ?thesis using assms(1) by (simp add: auth_inv_def del: set_map)
qed

lemma step_ok_create: "step_ok s (snd (api_create_user cfg ve clk ip salt u s))"
proof -
  obtain err s1 where e: "enforce_auth_rate_limit clk ip s = (err, s1)" by fastforce
  note s1 = enforce_None [OF e]
  obtain res s2 where c: "crud_create_user cfg salt (uc_email u) (uc_username u) (uc_password u)
      (uc_full_name u) s1 = (res, s2)" by fastforce
  have "step_ok s s1" using s1 by (blast intro: step_okI)
  moreover have "step_ok s1 s2"
    using crud_create_user_cases [OF c] auth_inv_add [of s1]
    unfolding step_ok_def revoked_tokens_def by (elim disjE exE conjE) simp_all
  moreover have "step_ok s s" by (simp add: step_ok_def)
  ultimately show ?thesis
    by (auto simp: api_create_user_def e c step_ok_def split: option.split)
qed

lemma step_ok_request: "step_ok s (snd (request_password_reset cfg clk now ip token email s))"
proof -
  obtain err s1 where e: "enforce_auth_rate_limit clk ip s = (err, s1)" by fastforce
  note s1 = enforce_None [OF e]
  show ?thesis
    by (rule step_okI)
       (use s1 keeps_trans [OF _ keeps_update_user(1)] in
          \<open>auto simp: request_password_reset_def e keeps_update_user split: option.split\<close>)
qed

lemma step_ok_reset: "step_ok s (snd (reset_password cfg clk now ip salt token pw s))"
proof -
  obtain err s1 where e: "enforce_auth_rate_limit clk ip s = (err, s1)" by fastforce
  note s1 = enforce_None [OF e]
  have cp: "step_ok s s2" if "change_password cr salt uid pw s1 = (r, s2)" for cr uid r s2
    by (rule step_okI)
       (use s1 that keeps_trans [OF _ keeps_change_password(1), of s s1 cr salt uid pw]
          keeps_change_password(2) [where cr = cr and salt = salt and uid = uid and pw = pw and s = s1] in simp_all)
  have "step_ok s s1" using s1 by (blast intro: step_okI)
  then show ?thesis
    by (auto simp: reset_password_def e dest!: cp split: option.split prod.split sum.split)
qed

lemma step_ok_logout: "step_ok s (logout token s)"
proof (cases "find_first (\<lambda>r. rt_token r = token) (db_tokens s)")
  case (Some r)
  have "distinct (map rt_token (db_tokens (revoke token s)))" if "auth_inv s"
    using that by (simp add: auth_inv_def revoke_keeps(2) del: map_map)
  with Some show ?thesis
    using keeps_inv [OF _ revoke_keeps(1)] revoke_keeps(3) [of s token]
    by (auto simp: logout_def step_ok_def)
qed (simp add: logout_def step_ok_def)

lemma step_ok_step: "auth_step cfg ve s s' \<Longrightarrow> step_ok s s'"
proof (induction rule: auth_step.induct)
  case (a_verify s u)
  show ?case unfolding verify_email_def by (rule step_okI) (simp_all add: keeps_update_user)
qed (simp_all add: step_ok_login step_ok_create step_ok_request step_ok_reset step_ok_refresh step_ok_logout)

interpretation auth_sys: step_relation "auth_step cfg ve" step_ok for cfg ve
  by unfold_locales (auto simp: step_ok_step intro: step_ok_trans, simp add: step_ok_def)

lemma step_ok_run: "auth_run cfg ve s s' \<Longrightarrow> step_ok s s'"
  by (rule auth_sys.rel_run)

lemma auth_inv_init: "auth_inv (auth_init limiter)"
  by (simp add: auth_inv_def auth_init_def)

lemma revoked_is_dead:
  assumes "auth_inv s" and "token \<in> revoked_tokens s"
  shows "find_first (live_token token now) (db_tokens s) = None"
proof -
  obtain r where r: "r \<in> set (db_tokens s)" "rt_token r = token" "rt_revoked r"
    using assms(2) by (auto simp: revoked_tokens_def)
  have "q = r" if "q \<in> set (db_tokens s)" "rt_token q = token" for q
    using assms(1) r that by (auto simp: auth_inv_def distinct_map dest: inj_onD)
  with r(3) show ?thesis by (auto simp: find_first_None live_token_def)
qed

lemma refresh_dead:
  assumes "auth_inv s" and "token \<in> revoked_tokens s"
  shows "(\<exists>err. fst (refresh_tokens cfg clk now ip jti token s) = Inl err) \<and>
    db_tokens (snd (refresh_tokens cfg clk now ip jti token s)) = db_tokens s"
proof -
  obtain res s' where eq: "refresh_tokens cfg clk now ip jti token s = (res, s')" by fastforce
  from eq show ?thesis
    by (cases rule: refresh_cases) (use revoked_is_dead [OF assms] eq in simp_all)
qed

section \<open>Properties\<close>

text \<open>An example configuration: the stored form of a password is the password.\<close>

definition demo_crypto :: crypto where
  "demo_crypto = \<lparr>cr_hashpw = (\<lambda>_ pw. pw), cr_checkpw = (\<lambda>p h. Some (utf8 p = h)),
     cr_sha256 = (\<lambda>t. CHR ''#'' # t), cr_encode = (\<lambda>c. cl_type c @ (case cl_jti c of None \<Rightarrow> [] | Some j \<Rightarrow> j)),
     cr_decode = (\<lambda>_ t. Some \<lparr>cl_sub = Some ''1'', cl_exp = 0, cl_type = take 7 t, cl_jti = None\<rparr>)\<rparr>"

definition demo_config :: auth_config where
  "demo_config = \<lparr>cfg_crypto = demo_crypto, access_token_expire_minutes = 30, refresh_token_expire_days = 7\<rparr>"

definition demo_create :: user_create where
  "demo_create = \<lparr>uc_email = ''a@b'', uc_username = ''ann'', uc_password = ''Passw0rd!'', uc_full_name = None\<rparr>"

definition demo_auth :: auth_state where
  "demo_auth = snd (login_for_access_token demo_config 0 0 ''ip'' ''J'' ''ann'' ''Passw0rd!''
     (snd (api_create_user demo_config (\<lambda>_. True) 0 ''ip'' [] demo_create (auth_init None))))"

lemma demo_auth_run: "auth_run demo_config (\<lambda>_. True) (auth_init None) demo_auth"
  unfolding demo_auth_def by (rule a_run_step [OF a_run_step [OF a_run_refl a_create] a_login])

lemma demo_auth_eq:
  "demo_auth =
     \<lparr>db_users = [\<lparr>usr_id = 1, usr_email = ''a@b'', usr_username = ''ann'', hashed_password = ''Passw0rd!'',
        usr_full_name = None, is_active = True, is_superuser = False, is_verified = False,
        failed_login_attempts = 0, lock_until = None, password_reset_token = None,
        hashed_reset_token = None, password_reset_expires = None\<rparr>],
      db_tokens = [\<lparr>rt_token = ''refreshJ'', rt_user_id = 1, rt_expires_at = 604800, rt_revoked = False\<rparr>],
      db_next_id = 2, auth_limiter = None\<rparr>"
  by code_simp

text \<open>
  C11. Refresh tokens are single use: once a refresh token has been exchanged, or its session logged
  out, no later request in any continuation of the history exchanges it again or touches the
  token table, whoever asks and whenever.
\<close>

theorem refresh_token_single_use:
  assumes "auth_run cfg ve (auth_init limiter) s"
    and "(\<exists>clk now ip jti reply. refresh_tokens cfg clk now ip jti token s = (Inr reply, s1)) \<or>
      (token \<in> set (map rt_token (db_tokens s)) \<and> s1 = logout token s)"
    and "auth_run cfg ve s1 s2"
  shows "(\<exists>err. fst (refresh_tokens cfg clk now ip jti token s2) = Inl err) \<and>
    db_tokens (snd (refresh_tokens cfg clk now ip jti token s2)) = db_tokens s2"
proof -
  have inv: "auth_inv s" using step_ok_run [OF assms(1)] auth_inv_init by (simp add: step_ok_def)
  have "token \<in> revoked_tokens s1 \<and> auth_inv s1" using assms(2)
  proof (elim disjE exE conjE)
    fix clk now ip jti reply
    assume eq: "refresh_tokens cfg clk now ip jti token s = (Inr reply, s1)"
    then show ?thesis
    proof (cases rule: refresh_cases)
      case (issued reply' r s0)
      have "token \<in> set (map rt_token (db_tokens s0))"
        using find_first_Some [OF issued(5)] by (auto simp: issued live_token_def)
      then have "token \<in> revoked_tokens s1"
        using revoke_revokes issue_tokens_keeps(3) issued(6) by (metis snd_conv subsetD)
      moreover have "auth_inv s1" using step_ok_refresh [of s cfg clk now ip jti token] inv eq
        by (simp add: step_ok_def)
      ultimately show ?thesis by blast
    qed simp
  next
    assume t: "token \<in> set (map rt_token (db_tokens s))" and s1: "s1 = logout token s"
    then have "find_first (\<lambda>r. rt_token r = token) (db_tokens s) \<noteq> None"
      by (auto simp: find_first_None)
    then have "s1 = revoke token s" by (auto simp: s1 logout_def)
    with t revoke_revokes have "token \<in> revoked_tokens s1" by blast
    moreover have "auth_inv s1" using step_ok_logout [of s token] inv by (simp add: step_ok_def s1)
    ultimately show ?thesis by blast
  qed
  with step_ok_run [OF assms(3)] have "token \<in> revoked_tokens s2" "auth_inv s2"
    by (auto simp: step_ok_def)
  then show ?thesis by (rule refresh_dead [rotated])
qed

theorem refresh_token_single_use_witness:
  "\<exists>err. fst (refresh_tokens demo_config 2 2 ''ip'' ''K'' ''refreshJ'' (logout ''refreshJ'' demo_auth)) = Inl err"
proof -
  have "''refreshJ'' \<in> set (map rt_token (db_tokens demo_auth))" by (simp add: demo_auth_eq)
  with refresh_token_single_use [OF demo_auth_run _ a_run_refl, of "''refreshJ''"] show ?thesis by blast
qed



text \<open>A sequence of attempts to log in to one account.\<close>

definition attempt :: "crypto \<Rightarrow> string \<Rightarrow> auth_state \<Rightarrow> time \<times> string \<Rightarrow> auth_state" where
  "attempt cr name s = (\<lambda>(now, pw). snd (authenticate_user cr now name pw s))"

lemma attempt_wrong:
  assumes "get_user_by_username name s = Some u" and "\<not> is_locked now u"
    and "\<not> verify_password cr pw (hashed_password u)"
  shows "authenticate_user cr now name pw s = (None, put_user (usr_id u) (record_failure now) s)"
    and "get_user_by_username name (attempt cr name s (now, pw)) = Some (record_failure now u)"
  using assms get_put_username [OF _ assms(1), of "record_failure now"]
  by (simp_all add: authenticate_user_def attempt_def keeps_record_failure)

lemma few_failures:
  assumes "get_user_by_username name s = Some u" and "lock_until u = None" and "failed_login_attempts u = 0"
    and "length tries \<le> 4" and "\<forall>(t, pw) \<in> set tries. \<not> verify_password cr pw (hashed_password u)"
  shows "get_user_by_username name (foldl (attempt cr name) s tries) =
    Some (u\<lparr>failed_login_attempts := int (length tries)\<rparr>)"
  using assms(4,5)
proof (induction tries rule: rev_induct)
  case Nil
  then show ?case using assms(1,3) by (cases u) simp
next
  case (snoc x tries)
  obtain t pw where x: "x = (t, pw)" by fastforce
  let ?u = "u\<lparr>failed_login_attempts := int (length tries)\<rparr>"
  have "get_user_by_username name (foldl (attempt cr name) s tries) = Some ?u"
    using snoc by auto
  moreover have "\<not> is_locked t ?u" using assms(2) by (simp add: is_locked_def)
  moreover have "\<not> verify_password cr pw (hashed_password ?u)" using snoc.prems by (simp add: x)
  ultimately have "get_user_by_username name (attempt cr name (foldl (attempt cr name) s tries) (t, pw)) =
      Some (record_failure t ?u)"
    by (rule attempt_wrong(2))
  then show ?case using snoc.prems(1) by (simp add: x record_failure_def Let_def)
qed

lemma attempts_inv: "auth_inv s \<Longrightarrow> auth_inv (foldl (attempt cr name) s tries)"
proof (induction tries arbitrary: s)
  case (Cons x tries)
  obtain t pw where x: "x = (t, pw)" by fastforce
  note k = keeps_authenticate [where s = s and cr = cr and now = t and name = name and pw = pw]
  have "distinct (map rt_token (db_tokens s))" using Cons.prems by (simp add: auth_inv_def)
  then have "auth_inv (attempt cr name s x)"
    using keeps_inv [OF Cons.prems k(1)] k(2) by (simp add: attempt_def x)
  from Cons.IH [OF this] show ?case by simp
qed simp

lemma get_user_same_row:
  assumes "auth_inv s" and "get_user_by_username name s = Some u"
  shows "get_user (usr_id u) s = Some u"
  using assms find_first_mem [of usr_id "db_users s" u]
  by (auto simp: auth_inv_def get_user_def get_user_by_username_def dest: find_first_Some)

text \<open>
  C30. Lockout: five wrong passwords in a row lock an account for 30 minutes from the fifth: until then
  every attempt fails, the right password included, and changes nothing. Afterwards the right
  password logs in and clears the counter, but since the counter was not reset when the lock ran
  out, a single wrong password locks the account for another 30 minutes.
\<close>

theorem five_failures_lock_for_thirty_minutes:
  assumes "auth_run cfg ve (auth_init limiter) s"
    and "get_user_by_username name s = Some u" and "lock_until u = None" and "failed_login_attempts u = 0"
    and "length tries = 4" and "\<forall>(t, pw) \<in> set (tries @ [(t5, p5)]). \<not> verify_password cr pw (hashed_password u)"
    and "s5 = foldl (attempt cr name) s (tries @ [(t5, p5)])"
  shows "(now < t5 + 1800 \<longrightarrow> authenticate_user cr now name pw s5 = (None, s5)) \<and>
    (t5 + 1800 \<le> now \<longrightarrow> verify_password cr pw (hashed_password u) \<longrightarrow>
      fst (authenticate_user cr now name pw s5) = Some (u\<lparr>failed_login_attempts := 0, lock_until := None\<rparr>)) \<and>
    (t5 + 1800 \<le> now \<longrightarrow> \<not> verify_password cr pw (hashed_password u) \<longrightarrow>
      (\<exists>u'. get_user_by_username name (attempt cr name s5 (now, pw)) = Some u' \<and>
         lock_until u' = Some (now + 1800)))"
proof -
  have inv: "auth_inv s" using step_ok_run [OF assms(1)] auth_inv_init by (simp add: step_ok_def)
  let ?u5 = "u\<lparr>failed_login_attempts := 5, lock_until := Some (t5 + 1800)\<rparr>"
  have "get_user_by_username name (foldl (attempt cr name) s tries) = Some (u\<lparr>failed_login_attempts := 4\<rparr>)"
    using few_failures [OF assms(2-4), of tries cr] assms(5,6) by simp
  from attempt_wrong(2) [OF this, of t5 cr p5] have u5: "get_user_by_username name s5 = Some ?u5"
    using assms(3,6) by (simp add: assms(7) is_locked_def record_failure_def minutes_def)
  have "auth_inv s5" unfolding assms(7) by (rule attempts_inv [OF inv])
  from get_user_same_row [OF this u5] have row: "get_user (usr_id u) s5 = Some ?u5" by simp
  have "authenticate_user cr now name pw s5 = (None, s5)" if "now < t5 + 1800"
    using that u5 by (simp add: authenticate_user_def is_locked_def)
  moreover have "fst (authenticate_user cr now name pw s5) =
      Some (u\<lparr>failed_login_attempts := 0, lock_until := None\<rparr>)"
    if "t5 + 1800 \<le> now" "verify_password cr pw (hashed_password u)"
    using that u5 row by (simp add: authenticate_user_def is_locked_def Let_def get_put_user)
  moreover have "\<exists>u'. get_user_by_username name (attempt cr name s5 (now, pw)) = Some u' \<and>
      lock_until u' = Some (now + 1800)"
    if "t5 + 1800 \<le> now" "\<not> verify_password cr pw (hashed_password u)"
    using that attempt_wrong(2) [OF u5, of now cr pw]
    by (simp add: is_locked_def record_failure_def Let_def minutes_def)
  ultimately show ?thesis by blast
qed

theorem five_failures_lock_for_thirty_minutes_witness:
  "fst (authenticate_user demo_crypto 1804 ''ann'' ''Passw0rd!''
     (foldl (attempt demo_crypto ''ann'') demo_auth [(1, ''x''), (2, ''x''), (3, ''x''), (4, ''x''), (5, ''x'')])) = None"
proof -
  let ?u = "hd (db_users demo_auth)" and ?tries = "[(1, ''x''), (2, ''x''), (3, ''x''), (4, ''x'')] :: (time \<times> string) list"
  have u: "get_user_by_username ''ann'' demo_auth = Some ?u" "lock_until ?u = None"
    "failed_login_attempts ?u = 0" "hashed_password ?u = ''Passw0rd!''"
    by (simp_all add: demo_auth_eq get_user_by_username_def find_first_def)
  have "\<not> verify_password demo_crypto ''x'' ''Passw0rd!''" by code_simp
  with five_failures_lock_for_thirty_minutes [OF demo_auth_run u(1-3), of ?tries 5 "''x''" demo_crypto
      "foldl (attempt demo_crypto ''ann'') demo_auth (?tries @ [(5, ''x'')])" 1804 "''Passw0rd!''"] u(4)
  show ?thesis by simp
qed

text \<open>
  A reset link works once and sets any password: with a live digest that belongs to one account,
  and a password that is not the current one, \<open>reset_password\<close> succeeds whatever the password, so the
  policy of registration is not applied; the new password is the one that verifies, the digest is
  gone, and using the same token again is refused with status 400.
\<close>

theorem reset_link_works_once_for_any_password:
  assumes "auth_run cfg ve (auth_init limiter) s" and "auth_limiter s = None"
    and "u \<in> set (db_users s)" and "live_reset (hash_reset_token (cfg_crypto cfg) token) now u"
    and "\<forall>v \<in> set (db_users s). hashed_reset_token v = hashed_reset_token u \<longrightarrow> v = u"
    and "\<not> verify_password (cfg_crypto cfg) pw (hashed_password u)" and "bcrypt_ok (cfg_crypto cfg)"
    and "reset_password cfg clk now ip salt token pw s = (res, s')"
  shows "res = Inr ''Password successfully reset'' \<and>
    (\<exists>u'. get_user (usr_id u) s' = Some u' \<and> verify_password (cfg_crypto cfg) pw (hashed_password u') \<and>
      hashed_reset_token u' = None) \<and>
    fst (reset_password cfg clk2 later ip2 salt2 token pw2 s') = Inl (HTTPException 400)"
proof -
  let ?cr = "cfg_crypto cfg" and ?d = "hash_reset_token (cfg_crypto cfg) token"
  let ?f = "\<lambda>u. u\<lparr>hashed_password := get_password_hash ?cr salt pw, hashed_reset_token := None,
    password_reset_token := None, password_reset_expires := None\<rparr>"
  have inv: "auth_inv s" using step_ok_run [OF assms(1)] auth_inv_init by (simp add: step_ok_def)
  have digest: "hashed_reset_token u = Some ?d" using assms(4) by (simp add: live_reset_def)
  have "find_first (live_reset ?d now) (db_users s) \<noteq> None"
    using assms(3,4) by (auto simp: find_first_None)
  then obtain v where v: "find_first (live_reset ?d now) (db_users s) = Some v" by blast
  with find_first_Some [OF v] assms(5) digest have "v = u" by (auto simp: live_reset_def)
  have row: "get_user (usr_id u) s = Some u"
    using find_first_mem [of usr_id "db_users s" u] inv assms(3) by (simp add: auth_inv_def get_user_def)
  then have new: "get_user (usr_id u) (put_user (usr_id u) ?f s) = Some (?f u)"
    by (simp add: get_put_user)
  then have res: "res = Inr ''Password successfully reset''" and s': "s' = put_user (usr_id u) ?f s"
    using assms(2,6,8) v row \<open>v = u\<close>
    by (simp_all add: reset_password_def enforce_auth_rate_limit_def change_password_def Let_def)
  have "\<not> live_reset ?d later w" if "w \<in> set (db_users s')" for w
    using that assms(5) digest by (auto simp: s' put_user_def live_reset_def)
  then have none: "find_first (live_reset ?d later) (db_users s') = None" by (simp add: find_first_None)
  have "auth_limiter s' = None" using assms(2) by (simp add: s')
  then have "fst (reset_password cfg clk2 later ip2 salt2 token pw2 s') = Inl (HTTPException 400)"
    by (simp add: reset_password_def enforce_auth_rate_limit_def none)
  with res new verify_own_hash [OF assms(7)] show ?thesis by (simp add: s')
qed

definition demo_reset :: auth_state where
  "demo_reset = snd (request_password_reset demo_config 0 0 ''ip'' ''T'' ''a@b'' demo_auth)"

lemma demo_reset_run: "auth_run demo_config (\<lambda>_. True) (auth_init None) demo_reset"
  unfolding demo_reset_def by (rule a_run_step [OF demo_auth_run a_request])

theorem reset_link_works_once_for_any_password_witness:
  "validate_password_policy ''x'' \<noteq> [] \<and>
   fst (reset_password demo_config 0 9 ''ip'' [] ''T'' ''x'' demo_reset) = Inr ''Password successfully reset''"
proof -
  let ?u = "hd (db_users demo_reset)"
  have users: "db_users demo_reset = [?u]" "auth_limiter demo_reset = None" by code_simp+
  have live: "live_reset (hash_reset_token (cfg_crypto demo_config) ''T'') 9 ?u" by code_simp
  have "\<not> verify_password (cfg_crypto demo_config) ''x'' (hashed_password ?u)" by code_simp
  moreover have "bcrypt_ok (cfg_crypto demo_config)"
    by (simp add: bcrypt_ok_def demo_config_def demo_crypto_def)
  moreover have "?u \<in> set (db_users demo_reset)"
    by (subst users(1)) simp
  moreover have "\<forall>v \<in> set (db_users demo_reset). hashed_reset_token v = hashed_reset_token ?u \<longrightarrow> v = ?u"
    by (subst users(1)) simp
  ultimately have "fst (reset_password demo_config 0 9 ''ip'' [] ''T'' ''x'' demo_reset) =
      Inr ''Password successfully reset''"
    using reset_link_works_once_for_any_password [OF demo_reset_run users(2) _ live _ _ _ prod.collapse [symmetric]]
    by blast
  moreover have "validate_password_policy ''x'' \<noteq> []" by code_simp
  ultimately show ?thesis by blast
qed

text \<open>
  A reset request answers 404 exactly for addresses without an account, so it tells whether an
  account exists, contrary to its generic message; for an account it stores the digest of the token
  and an expiry 24 hours ahead, clears the plain column and changes no other account.
\<close>

theorem reset_request_reveals_accounts:
  assumes "auth_run cfg ve (auth_init limiter) s" and "fst (enforce_auth_rate_limit clk ip s) = None"
    and "request_password_reset cfg clk now ip token email s = (res, s')"
  shows "(res = Inl (HTTPException 404) \<longleftrightarrow> email \<notin> set (map usr_email (db_users s))) \<and>
    (\<forall>u \<in> set (db_users s). usr_email u = email \<longrightarrow>
       get_user (usr_id u) s' = Some (u\<lparr>hashed_reset_token := Some (hash_reset_token (cfg_crypto cfg) token),
         password_reset_token := None, password_reset_expires := Some (now + 86400)\<rparr>)) \<and>
    (\<forall>u \<in> set (db_users s). usr_email u \<noteq> email \<longrightarrow> get_user (usr_id u) s' = Some u)"
proof -
  have inv: "auth_inv s" using step_ok_run [OF assms(1)] auth_inv_init by (simp add: step_ok_def)
  obtain s1 where e: "enforce_auth_rate_limit clk ip s = (None, s1)"
    using assms(2) by (metis prod.collapse)
  note s1 = enforce_None [OF e]
  have row: "get_user (usr_id u) s1 = Some u" if "u \<in> set (db_users s)" for u
    using find_first_mem [of usr_id "db_users s" u] inv that by (simp add: auth_inv_def get_user_def s1)
  show ?thesis
  proof (cases "get_user_by_email email s1")
    case None
    then have "email \<notin> set (map usr_email (db_users s))"
      by (auto simp: get_user_by_email_def find_first_None s1)
    with None assms(3) row show ?thesis by (auto simp: request_password_reset_def e)
  next
    case (Some v)
    then have v: "v \<in> set (db_users s)" "usr_email v = email"
      by (auto simp: get_user_by_email_def s1 dest: find_first_Some)
    have same: "w = v" if "w \<in> set (db_users s)" "usr_email w = email \<or> usr_id w = usr_id v" for w
      using inv v that by (auto simp: auth_inv_def distinct_map dest: inj_onD)
    from assms(3) Some have res: "res \<noteq> Inl (HTTPException 404)"
      and s': "s' = snd (update_user (cfg_crypto cfg) (usr_id v) None None None (Some token)
                       (Some (now + hours 24)) s1)"
      by (auto simp: request_password_reset_def e)
    let ?f = "\<lambda>u :: user. u\<lparr>hashed_reset_token := Some (hash_reset_token (cfg_crypto cfg) token),
         password_reset_token := None, password_reset_expires := Some (now + 86400)\<rparr>"
    have "s' = put_user (usr_id v) ?f s1"
      by (simp add: s' update_user_def row [OF v(1)] Let_def hours_def)
    then have get: "get_user k s' = map_option (\<lambda>u. if usr_id u = usr_id v then ?f u else u) (get_user k s1)" for k
      by (simp add: get_put_user)
    have "email \<in> set (map usr_email (db_users s))" using v by auto
    moreover have "get_user (usr_id u) s' = (if usr_email u = email then Some (?f u) else Some u)"
      if "u \<in> set (db_users s)" for u
      using row [OF that] same [OF that] v by (auto simp: get)
    ultimately show ?thesis using res by simp
  qed
qed

theorem reset_request_reveals_accounts_witness:
  "fst (request_password_reset demo_config 0 0 ''ip'' ''T'' ''a@b'' demo_auth) \<noteq> Inl (HTTPException 404) \<and>
   fst (request_password_reset demo_config 0 0 ''ip'' ''T'' ''c@d'' demo_auth) = Inl (HTTPException 404)"
proof -
  have "fst (enforce_auth_rate_limit 0 ''ip'' demo_auth) = None"
    by (simp add: enforce_auth_rate_limit_def demo_auth_eq)
  from reset_request_reveals_accounts [OF demo_auth_run this prod.collapse [symmetric]]
  show ?thesis by (simp add: demo_auth_eq)
qed

text \<open>
  Access control: a bearer token opens a superuser endpoint exactly when it decodes to a token of
  type \<open>access\<close> whose subject is the number of an account that exists, is active and is a
  superuser; in particular a refresh token never does.
\<close>

theorem superuser_access_exact:
  "get_current_superuser (get_current_active_user (get_current_user cfg now token s)) = Inr u \<longleftrightarrow>
    (\<exists>p sub uid. cr_decode (cfg_crypto cfg) now token = Some p \<and> cl_type p = ''access'' \<and>
       cl_sub p = Some sub \<and> py_int sub = Some uid \<and> get_user uid s = Some u \<and>
       is_active u \<and> is_superuser u)"
  by (auto simp: get_current_superuser_def get_current_active_user_def get_current_user_def
      decode_access_token_def split: option.splits sum.splits if_splits)

section \<open>The asynchronous dependency\<close>

text \<open>It selects all rows of the identifier, of which there may be at most one.\<close>

definition get_current_user_async :: "auth_config \<Rightarrow> time \<Rightarrow> string \<Rightarrow> auth_state \<Rightarrow> exn + user" where
  "get_current_user_async cfg now token s =
     (case decode_access_token (cfg_crypto cfg) now token of
        None \<Rightarrow> Inl UnauthorizedError
      | Some p \<Rightarrow>
          (case cl_sub p of
             None \<Rightarrow> Inl UnauthorizedError
           | Some sub \<Rightarrow>
               (case py_int sub of
                  None \<Rightarrow> Inl ValueError
                | Some uid \<Rightarrow>
                    (case filter (\<lambda>u. usr_id u = uid) (db_users s) of
                       [] \<Rightarrow> Inl UnauthorizedError
                     | [u] \<Rightarrow> Inr u
                     | _ \<Rightarrow> Inl (OtherException ''MultipleResultsFound'')))))"

lemma distinct_filter_key:
  "distinct (map f xs) \<Longrightarrow> filter (\<lambda>x. f x = k) xs = (case find_first (\<lambda>x. f x = k) xs of None \<Rightarrow> [] | Some x \<Rightarrow> [x])"
proof (induction xs)
  case (Cons a xs)
  show ?case
  proof (cases "f a = k")
    case True
    then have "filter (\<lambda>x. f x = k) xs = []" using Cons.prems by (force simp: filter_empty_conv image_iff)
    with True show ?thesis by (simp add: find_first_def)
  qed (use Cons in \<open>simp add: find_first_def\<close>)
qed (simp add: find_first_def)

text \<open>
  On tables that the handlers keep consistent the two dependencies resolve every token alike, to the same user or the
  same error.
\<close>

theorem async_dependency_agrees:
  assumes "auth_inv s"
  shows "get_current_user_async cfg now token s = get_current_user cfg now token s"
proof -
  have "distinct (map usr_id (db_users s))" using assms by (simp add: auth_inv_def)
  note rows = distinct_filter_key [OF this]
  show ?thesis
    by (simp add: get_current_user_async_def get_current_user_def get_user_def rows split: option.split)
qed

theorem async_dependency_agrees_witness:
  "get_current_user_async demo_config 0 ''t'' (auth_init None) = get_current_user demo_config 0 ''t'' (auth_init None)"
proof -
  have "auth_inv (auth_init None)" by (simp add: auth_inv_def auth_init_def)
  then show ?thesis by (rule async_dependency_agrees)
qed

end
