(* ===== verification/Catalog.thy ===== *)
theory Catalog
  imports Tables Auth
begin

text \<open>
  Items, models, experiments and datasets: their columns (\<open>src/db/models.py\<close>), the request schemas and
  their constraints (\<open>src/schemas\<close>), the queries of \<open>src/db/crud.py\<close> and the handlers of the routers
  under \<open>src/api/items\<close>, \<open>models\<close>, \<open>experiments\<close> and \<open>data\<close>. A handler takes the current user, which
  the access dependency has produced, and the parsed body; a body that breaks a constraint of its
  schema is answered with 422 before the handler runs. \<open>now\<close> is the clock of the database. Page bounds
  are natural numbers: what a negative \<open>OFFSET\<close> or \<open>LIMIT\<close> does is up to the database.
\<close>

section \<open>Rows\<close>

record item =
  it_id :: int
  it_title :: string
  it_description :: "string option"
  it_owner :: int
  it_created :: time
  it_updated :: time

record model_row =
  mo_id :: int
  mo_name :: string
  mo_version :: string
  mo_description :: "string option"
  mo_file_path :: string
  mo_file_size :: "int option"
  mo_accuracy :: "rat option"
  mo_created :: time
  mo_updated :: time
  mo_created_by :: int

record experiment_row =
  ex_id :: int
  ex_name :: string
  ex_description :: "string option"
  ex_status :: string
  ex_start :: "time option"
  ex_end :: "time option"
  ex_metrics :: "(string, pyval) dict option"
  ex_parameters :: "(string, pyval) dict option"
  ex_created :: time
  ex_updated :: time
  ex_created_by :: int

record dataset =
  ds_id :: int
  ds_name :: string
  ds_description :: "string option"
  ds_storage_uri :: string
  ds_format :: string
  ds_row_count :: "int option"
  ds_columns :: "string list option"
  ds_status :: string
  ds_created :: time
  ds_updated :: time
  ds_created_by :: int

section \<open>Requests\<close>

record item_create =
  ic_title :: string
  ic_description :: "string option"

record model_create =
  mc_name :: string
  mc_version :: string
  mc_description :: "string option"
  mc_file_path :: string
  mc_file_size :: "int option"
  mc_accuracy :: "rat option"

record experiment_create =
  ec_name :: string
  ec_description :: "string option"
  ec_status :: string
  ec_start :: "time option"
  ec_end :: "time option"
  ec_metrics :: "(string, pyval) dict option"
  ec_parameters :: "(string, pyval) dict option"

record experiment_update =
  eu_description :: "string option"
  eu_status :: "string option"
  eu_start :: "time option"
  eu_end :: "time option"
  eu_metrics :: "(string, pyval) dict option"
  eu_parameters :: "(string, pyval) dict option"

record dataset_create =
  dc_name :: string
  dc_description :: "string option"
  dc_storage_uri :: string
  dc_format :: string
  dc_row_count :: "int option"
  dc_columns :: "string list option"

record dataset_update =
  du_description :: "string option"
  du_row_count :: "int option"
  du_columns :: "string list option"
  du_status :: "string option"

text \<open>The field constraints: lengths, ranges and the patterns, which list whole values.\<close>

definition len_between :: "nat \<Rightarrow> nat \<Rightarrow> string \<Rightarrow> bool" where
  "len_between lo hi s = (lo \<le> length s \<and> length s \<le> hi)"

definition opt_all :: "('a \<Rightarrow> bool) \<Rightarrow> 'a option \<Rightarrow> bool" where
  "opt_all P v = (case v of None \<Rightarrow> True | Some x \<Rightarrow> P x)"

definition dataset_formats :: "string list" where
  "dataset_formats = [''csv'', ''parquet'', ''json'']"

definition dataset_states :: "string list" where
  "dataset_states = [''registered'', ''processing'', ''ready'', ''failed'']"

definition experiment_states :: "string list" where
  "experiment_states = [''created'', ''running'', ''completed'', ''failed'']"

definition item_create_valid :: "item_create \<Rightarrow> bool" where
  "item_create_valid c = (len_between 1 200 (ic_title c) \<and> opt_all (len_between 0 5000) (ic_description c))"

definition model_create_valid :: "model_create \<Rightarrow> bool" where
  "model_create_valid c =
     (len_between 1 100 (mc_name c) \<and> len_between 1 50 (mc_version c) \<and>
      opt_all (len_between 0 5000) (mc_description c) \<and> len_between 1 500 (mc_file_path c) \<and>
      opt_all (\<lambda>n. 0 \<le> n) (mc_file_size c) \<and> opt_all (\<lambda>a. 0 \<le> a \<and> a \<le> 1) (mc_accuracy c))"

definition experiment_create_valid :: "experiment_create \<Rightarrow> bool" where
  "experiment_create_valid c =
     (len_between 1 100 (ec_name c) \<and> opt_all (len_between 0 5000) (ec_description c) \<and>
      ec_status c \<in> set experiment_states)"

definition experiment_update_valid :: "experiment_update \<Rightarrow> bool" where
  "experiment_update_valid u =
     (opt_all (len_between 0 5000) (eu_description u) \<and>
      opt_all (\<lambda>s. s \<in> set experiment_states) (eu_status u))"

definition dataset_create_valid :: "dataset_create \<Rightarrow> bool" where
  "dataset_create_valid c =
     (len_between 1 100 (dc_name c) \<and> opt_all (len_between 0 5000) (dc_description c) \<and>
      len_between 1 500 (dc_storage_uri c) \<and> dc_format c \<in> set dataset_formats \<and>
      opt_all (\<lambda>n. 0 \<le> n) (dc_row_count c))"

definition dataset_update_valid :: "dataset_update \<Rightarrow> bool" where
  "dataset_update_valid u =
     (opt_all (len_between 0 5000) (du_description u) \<and> opt_all (\<lambda>n. 0 \<le> n) (du_row_count u) \<and>
      opt_all (\<lambda>s. s \<in> set dataset_states) (du_status u))"

section \<open>Queries\<close>

record catalog =
  ct_items :: "item table"
  ct_models :: "model_row table"
  ct_experiments :: "experiment_row table"
  ct_datasets :: "dataset table"
  ct_files :: "(string, nat) dict"

definition new_catalog :: catalog where
  "new_catalog = \<lparr>ct_items = new_table, ct_models = new_table, ct_experiments = new_table,
     ct_datasets = new_table, ct_files = []\<rparr>"

definition mk_item :: "time \<times> item_create \<times> int \<Rightarrow> int \<Rightarrow> item" where
  "mk_item = (\<lambda>(now, c, owner) i.
     \<lparr>it_id = i, it_title = ic_title c, it_description = ic_description c, it_owner = owner,
      it_created = now, it_updated = now\<rparr>)"

definition mk_model :: "time \<times> model_create \<times> int \<Rightarrow> int \<Rightarrow> model_row" where
  "mk_model = (\<lambda>(now, c, uid) i.
     \<lparr>mo_id = i, mo_name = mc_name c, mo_version = mc_version c, mo_description = mc_description c,
      mo_file_path = mc_file_path c, mo_file_size = mc_file_size c, mo_accuracy = mc_accuracy c,
      mo_created = now, mo_updated = now, mo_created_by = uid\<rparr>)"

definition mk_experiment :: "time \<times> experiment_create \<times> int \<Rightarrow> int \<Rightarrow> experiment_row" where
  "mk_experiment = (\<lambda>(now, c, uid) i.
     \<lparr>ex_id = i, ex_name = ec_name c, ex_description = ec_description c, ex_status = ec_status c,
      ex_start = ec_start c, ex_end = ec_end c, ex_metrics = ec_metrics c,
      ex_parameters = ec_parameters c, ex_created = now, ex_updated = now, ex_created_by = uid\<rparr>)"

text \<open>The status of a dataset takes the default of its column.\<close>

definition mk_dataset :: "time \<times> dataset_create \<times> int \<Rightarrow> int \<Rightarrow> dataset" where
  "mk_dataset = (\<lambda>(now, c, uid) i.
     \<lparr>ds_id = i, ds_name = dc_name c, ds_description = dc_description c,
      ds_storage_uri = dc_storage_uri c, ds_format = dc_format c, ds_row_count = dc_row_count c,
      ds_columns = dc_columns c, ds_status = ''registered'', ds_created = now, ds_updated = now,
      ds_created_by = uid\<rparr>)"

definition edit_experiment :: "time \<times> experiment_update \<Rightarrow> experiment_row \<Rightarrow> experiment_row" where
  "edit_experiment = (\<lambda>(now, u). touch (\<lambda>r. r\<lparr>ex_updated := now\<rparr>)
     (set_opt (eu_parameters u) (\<lambda>v r. r\<lparr>ex_parameters := Some v\<rparr>) \<circ>
      set_opt (eu_metrics u) (\<lambda>v r. r\<lparr>ex_metrics := Some v\<rparr>) \<circ>
      set_opt (eu_end u) (\<lambda>v r. r\<lparr>ex_end := Some v\<rparr>) \<circ>
      set_opt (eu_start u) (\<lambda>v r. r\<lparr>ex_start := Some v\<rparr>) \<circ>
      set_opt (eu_status u) (\<lambda>v r. r\<lparr>ex_status := v\<rparr>) \<circ>
      set_opt (eu_description u) (\<lambda>v r. r\<lparr>ex_description := Some v\<rparr>)))"

definition edit_dataset :: "time \<times> dataset_update \<Rightarrow> dataset \<Rightarrow> dataset" where
  "edit_dataset = (\<lambda>(now, u). touch (\<lambda>r. r\<lparr>ds_updated := now\<rparr>)
     (set_opt (du_status u) (\<lambda>v r. r\<lparr>ds_status := v\<rparr>) \<circ>
      set_opt (du_columns u) (\<lambda>v r. r\<lparr>ds_columns := Some v\<rparr>) \<circ>
      set_opt (du_row_count u) (\<lambda>v r. r\<lparr>ds_row_count := Some v\<rparr>) \<circ>
      set_opt (du_description u) (\<lambda>v r. r\<lparr>ds_description := Some v\<rparr>)))"

definition get_items :: "nat \<Rightarrow> nat \<Rightarrow> catalog \<Rightarrow> item list" where
  "get_items skip limit s = tb_page skip limit (ct_items s)"

definition get_item :: "int \<Rightarrow> catalog \<Rightarrow> item option" where
  "get_item i s = tb_first (\<lambda>r. it_id r = i) (ct_items s)"

definition create_user_item :: "time \<Rightarrow> item_create \<Rightarrow> int \<Rightarrow> catalog \<Rightarrow> item \<times> catalog" where
  "create_user_item now c uid s =
     (case tb_insert (mk_item (now, c, uid)) (ct_items s) of (r, t) \<Rightarrow> (r, s\<lparr>ct_items := t\<rparr>))"

definition crud_delete_item :: "int \<Rightarrow> catalog \<Rightarrow> item option \<times> catalog" where
  "crud_delete_item i s = (case tb_delete it_id i (ct_items s) of (r, t) \<Rightarrow> (r, s\<lparr>ct_items := t\<rparr>))"

definition get_model_metadata :: "int \<Rightarrow> catalog \<Rightarrow> model_row option" where
  "get_model_metadata i s = tb_first (\<lambda>r. mo_id r = i) (ct_models s)"

text \<open>An empty version string is falsy and does not restrict the query.\<close>

definition get_model_metadata_by_name :: "string \<Rightarrow> string option \<Rightarrow> catalog \<Rightarrow> model_row option" where
  "get_model_metadata_by_name name version s =
     tb_first (\<lambda>r. mo_name r = name \<and>
       (case version of None \<Rightarrow> True | Some v \<Rightarrow> v = [] \<or> mo_version r = v)) (ct_models s)"

definition get_model_metadata_list :: "nat \<Rightarrow> nat \<Rightarrow> catalog \<Rightarrow> model_row list" where
  "get_model_metadata_list skip limit s = tb_page skip limit (ct_models s)"

definition crud_create_model_metadata :: "time \<Rightarrow> model_create \<Rightarrow> int \<Rightarrow> catalog \<Rightarrow> model_row \<times> catalog" where
  "crud_create_model_metadata now c uid s =
     (case tb_insert (mk_model (now, c, uid)) (ct_models s) of (r, t) \<Rightarrow> (r, s\<lparr>ct_models := t\<rparr>))"

definition crud_delete_model_metadata :: "int \<Rightarrow> catalog \<Rightarrow> model_row option \<times> catalog" where
  "crud_delete_model_metadata i s = (case tb_delete mo_id i (ct_models s) of (r, t) \<Rightarrow> (r, s\<lparr>ct_models := t\<rparr>))"

definition crud_get_experiment :: "int \<Rightarrow> catalog \<Rightarrow> experiment_row option" where
  "crud_get_experiment i s = tb_first (\<lambda>r. ex_id r = i) (ct_experiments s)"

definition get_experiments :: "nat \<Rightarrow> nat \<Rightarrow> catalog \<Rightarrow> experiment_row list" where
  "get_experiments skip limit s = tb_page skip limit (ct_experiments s)"

definition crud_create_experiment :: "time \<Rightarrow> experiment_create \<Rightarrow> int \<Rightarrow> catalog \<Rightarrow> experiment_row \<times> catalog" where
  "crud_create_experiment now c uid s =
     (case tb_insert (mk_experiment (now, c, uid)) (ct_experiments s) of (r, t) \<Rightarrow> (r, s\<lparr>ct_experiments := t\<rparr>))"

definition crud_update_experiment ::
    "time \<Rightarrow> int \<Rightarrow> experiment_update \<Rightarrow> catalog \<Rightarrow> experiment_row option \<times> catalog" where
  "crud_update_experiment now i u s =
     (case tb_update ex_id i (edit_experiment (now, u)) (ct_experiments s) of (r, t) \<Rightarrow> (r, s\<lparr>ct_experiments := t\<rparr>))"

definition crud_delete_experiment :: "int \<Rightarrow> catalog \<Rightarrow> experiment_row option \<times> catalog" where
  "crud_delete_experiment i s =
     (case tb_delete ex_id i (ct_experiments s) of (r, t) \<Rightarrow> (r, s\<lparr>ct_experiments := t\<rparr>))"

definition crud_get_dataset :: "int \<Rightarrow> catalog \<Rightarrow> dataset option" where
  "crud_get_dataset i s = tb_first (\<lambda>r. ds_id r = i) (ct_datasets s)"

definition get_dataset_by_name :: "string \<Rightarrow> catalog \<Rightarrow> dataset option" where
  "get_dataset_by_name name s = tb_first (\<lambda>r. ds_name r = name) (ct_datasets s)"

definition get_datasets :: "nat \<Rightarrow> nat \<Rightarrow> catalog \<Rightarrow> dataset list" where
  "get_datasets skip limit s = tb_page skip limit (ct_datasets s)"

definition crud_create_dataset :: "time \<Rightarrow> dataset_create \<Rightarrow> int \<Rightarrow> catalog \<Rightarrow> dataset \<times> catalog" where
  "crud_create_dataset now c uid s =
     (case tb_insert (mk_dataset (now, c, uid)) (ct_datasets s) of (r, t) \<Rightarrow> (r, s\<lparr>ct_datasets := t\<rparr>))"

definition crud_update_dataset ::
    "time \<Rightarrow> int \<Rightarrow> dataset_update \<Rightarrow> catalog \<Rightarrow> dataset option \<times> catalog" where
  "crud_update_dataset now i u s =
     (case tb_update ds_id i (edit_dataset (now, u)) (ct_datasets s) of (r, t) \<Rightarrow> (r, s\<lparr>ct_datasets := t\<rparr>))"

definition crud_delete_dataset :: "int \<Rightarrow> catalog \<Rightarrow> dataset option \<times> catalog" where
  "crud_delete_dataset i s =
     (case tb_delete ds_id i (ct_datasets s) of (r, t) \<Rightarrow> (r, s\<lparr>ct_datasets := t\<rparr>))"

interpretation items: id_table it_id mk_item
  by unfold_locales (simp add: mk_item_def split: prod.split)

interpretation models: id_table mo_id mk_model
  by unfold_locales (simp add: mk_model_def split: prod.split)

interpretation experiments: edit_table ex_id mk_experiment edit_experiment
  by unfold_locales
    (simp_all add: mk_experiment_def edit_experiment_def touch_def set_opt_def split: prod.split option.split)

interpretation datasets: edit_table ds_id mk_dataset edit_dataset
  by unfold_locales
    (simp_all add: mk_dataset_def edit_dataset_def touch_def set_opt_def split: prod.split option.split)

section \<open>Handlers\<close>

text \<open>A body that breaks its schema never reaches the handler.\<close>

definition with_body :: "bool \<Rightarrow> (catalog \<Rightarrow> (exn + 'a) \<times> catalog) \<Rightarrow> catalog \<Rightarrow> (exn + 'a) \<times> catalog" where
  "with_body valid h s = (if valid then h s else (Inl (HTTPException 422), s))"

definition or_not_found :: "'a option \<Rightarrow> exn + 'a" where
  "or_not_found r = (case r of None \<Rightarrow> Inl NotFoundError | Some x \<Rightarrow> Inr x)"

definition create_item :: "time \<Rightarrow> user \<Rightarrow> item_create \<Rightarrow> catalog \<Rightarrow> (exn + item) \<times> catalog" where
  "create_item now u c = with_body (item_create_valid c)
     (\<lambda>s. case create_user_item now c (usr_id u) s of (r, s') \<Rightarrow> (Inr r, s'))"

definition list_items :: "nat \<Rightarrow> nat \<Rightarrow> catalog \<Rightarrow> item list" where
  "list_items skip limit s = get_items skip limit s"

definition read_item :: "int \<Rightarrow> catalog \<Rightarrow> exn + item" where
  "read_item i s = or_not_found (get_item i s)"

definition delete_item :: "int \<Rightarrow> catalog \<Rightarrow> (exn + string) \<times> catalog" where
  "delete_item i s = (case crud_delete_item i s of
     (None, s') \<Rightarrow> (Inl NotFoundError, s') | (Some _, s') \<Rightarrow> (Inr ''Item deleted'', s'))"

definition create_model_metadata ::
    "time \<Rightarrow> user \<Rightarrow> model_create \<Rightarrow> catalog \<Rightarrow> (exn + model_row) \<times> catalog" where
  "create_model_metadata now u c = with_body (model_create_valid c)
     (\<lambda>s. case crud_create_model_metadata now c (usr_id u) s of (r, s') \<Rightarrow> (Inr r, s'))"

definition read_model_metadata :: "nat \<Rightarrow> nat \<Rightarrow> catalog \<Rightarrow> model_row list" where
  "read_model_metadata skip limit s = get_model_metadata_list skip limit s"

definition read_model_metadata_by_id :: "int \<Rightarrow> catalog \<Rightarrow> exn + model_row" where
  "read_model_metadata_by_id i s = or_not_found (get_model_metadata i s)"

definition delete_model_metadata :: "int \<Rightarrow> catalog \<Rightarrow> (exn + string) \<times> catalog" where
  "delete_model_metadata i s = (case crud_delete_model_metadata i s of
     (None, s') \<Rightarrow> (Inl NotFoundError, s') | (Some _, s') \<Rightarrow> (Inr ''Model deleted'', s'))"

definition download_model :: "int \<Rightarrow> catalog \<Rightarrow> exn + string" where
  "download_model i s = (case get_model_metadata i s of
     None \<Rightarrow> Inl NotFoundError | Some r \<Rightarrow> Inr (''Model file path: '' @ mo_file_path r))"

definition read_model_metadata_by_name_version :: "string \<Rightarrow> string \<Rightarrow> catalog \<Rightarrow> exn + model_row" where
  "read_model_metadata_by_name_version name version s =
     or_not_found (get_model_metadata_by_name name (Some version) s)"

definition create_experiment ::
    "time \<Rightarrow> user \<Rightarrow> experiment_create \<Rightarrow> catalog \<Rightarrow> (exn + experiment_row) \<times> catalog" where
  "create_experiment now u c = with_body (experiment_create_valid c)
     (\<lambda>s. case crud_create_experiment now c (usr_id u) s of (r, s') \<Rightarrow> (Inr r, s'))"

definition list_experiments :: "nat \<Rightarrow> nat \<Rightarrow> catalog \<Rightarrow> experiment_row list" where
  "list_experiments skip limit s = get_experiments skip limit s"

definition get_experiment :: "int \<Rightarrow> catalog \<Rightarrow> exn + experiment_row" where
  "get_experiment i s = or_not_found (crud_get_experiment i s)"

definition update_experiment ::
    "time \<Rightarrow> int \<Rightarrow> experiment_update \<Rightarrow> catalog \<Rightarrow> (exn + experiment_row) \<times> catalog" where
  "update_experiment now i u = with_body (experiment_update_valid u)
     (\<lambda>s. case crud_update_experiment now i u s of (r, s') \<Rightarrow> (or_not_found r, s'))"

definition delete_experiment :: "int \<Rightarrow> catalog \<Rightarrow> (exn + string) \<times> catalog" where
  "delete_experiment i s = (case crud_delete_experiment i s of
     (None, s') \<Rightarrow> (Inl NotFoundError, s') | (Some _, s') \<Rightarrow> (Inr ''Experiment deleted'', s'))"

definition process_data ::
    "time \<Rightarrow> user \<Rightarrow> (string, pyval) dict \<Rightarrow> exn + string \<times> time \<times> string \<times> string" where
  "process_data now u payload =
     (if payload = [] then Inl (HTTPException 422)
      else Inr (''queued'', now, usr_username u,
        ''Received '' @ str_nat (length payload) @ '' payload entries; pipeline is not implemented yet.''))"

definition create_dataset ::
    "time \<Rightarrow> user \<Rightarrow> dataset_create \<Rightarrow> catalog \<Rightarrow> (exn + dataset) \<times> catalog" where
  "create_dataset now u c = with_body (dataset_create_valid c)
     (\<lambda>s. if get_dataset_by_name (dc_name c) s \<noteq> None then (Inl ConflictError, s)
          else case crud_create_dataset now c (usr_id u) s of (r, s') \<Rightarrow> (Inr r, s'))"

text \<open>
  \<open>Path(name).name\<close>, \<open>.suffix\<close> and \<open>.stem\<close> of a POSIX path: the last component that is not \<open>.\<close>, cut
  at its last dot unless that is the first or the last character.
\<close>

fun split_slash :: "string \<Rightarrow> string list" where
  "split_slash [] = [[]]"
| "split_slash (x # xs) =
     (if x = CHR ''/'' then [] # split_slash xs
      else case split_slash xs of y # ys \<Rightarrow> (x # y) # ys | [] \<Rightarrow> [[x]])"

definition path_name :: "string \<Rightarrow> string" where
  "path_name s = (let ps = filter (\<lambda>p. p \<noteq> [] \<and> p \<noteq> ''.'') (split_slash s) in if ps = [] then [] else last ps)"

definition path_split :: "string \<Rightarrow> string \<times> string" where
  "path_split name =
     (let ext = takeWhile (\<lambda>c. c \<noteq> CHR ''.'') (rev name); k = length name - length ext
      in if CHR ''.'' \<in> set name \<and> 1 < k \<and> ext \<noteq> [] then (take (k - 1) name, drop (k - 1) name) else (name, []))"

definition format_by_suffix :: "(string, string) dict" where
  "format_by_suffix = [(''.csv'', ''csv''), (''.parquet'', ''parquet''), (''.json'', ''json'')]"

definition max_upload_size :: nat where
  "max_upload_size = 50 * 1024 * 1024"

text \<open>
  An upload of \<open>bytes\<close> bytes; the handler's own schema object is built after the file has been stored,
  so a storage path that is too long leaves the file behind. \<open>uid\<close> is the random name.
\<close>

definition upload_dataset ::
    "string \<Rightarrow> time \<Rightarrow> string \<Rightarrow> user \<Rightarrow> string option \<Rightarrow> nat \<Rightarrow> string option \<Rightarrow> catalog \<Rightarrow> (exn + dataset) \<times> catalog"
  where
  "upload_dataset data_dir now uid u filename bytes name s =
     (let fname = path_name (case filename of None \<Rightarrow> [] | Some f \<Rightarrow> f);
          suffix = py_lower (snd (path_split fname));
          stem = fst (path_split fname)
      in case dict_get format_by_suffix suffix of
           None \<Rightarrow> (Inl ValidationFailedError, s)
         | Some fmt \<Rightarrow>
             (let given = (case name of None \<Rightarrow> stem | Some n \<Rightarrow> if n = [] then stem else n);
                  stripped = py_strip given;
                  dname = take 100 (if stripped = [] then ''upload'' else stripped)
              in if get_dataset_by_name dname s \<noteq> None then (Inl ConflictError, s)
                 else if max_upload_size < bytes then (Inl ValidationFailedError, s)
                 else if bytes = 0 then (Inl ValidationFailedError, s)
                 else
                   (let path = data_dir @ ''/uploads/'' @ uid @ suffix;
                        s1 = s\<lparr>ct_files := dict_put path bytes (ct_files s)\<rparr>;
                        c = \<lparr>dc_name = dname, dc_description = None, dc_storage_uri = path, dc_format = fmt,
                             dc_row_count = None, dc_columns = None\<rparr>
                    in if \<not> dataset_create_valid c then (Inl (OtherException ''ValidationError''), s1)
                       else case crud_create_dataset now c (usr_id u) s1 of (r, s2) \<Rightarrow> (Inr r, s2))))"

definition list_datasets :: "nat \<Rightarrow> nat \<Rightarrow> catalog \<Rightarrow> dataset list" where
  "list_datasets skip limit s = get_datasets skip limit s"

definition get_dataset :: "int \<Rightarrow> catalog \<Rightarrow> exn + dataset" where
  "get_dataset i s = or_not_found (crud_get_dataset i s)"

definition update_dataset :: "time \<Rightarrow> int \<Rightarrow> dataset_update \<Rightarrow> catalog \<Rightarrow> (exn + dataset) \<times> catalog" where
  "update_dataset now i u = with_body (dataset_update_valid u)
     (\<lambda>s. case crud_update_dataset now i u s of (r, s') \<Rightarrow> (or_not_found r, s'))"

definition delete_dataset :: "int \<Rightarrow> catalog \<Rightarrow> (exn + string) \<times> catalog" where
  "delete_dataset i s = (case crud_delete_dataset i s of
     (None, s') \<Rightarrow> (Inl NotFoundError, s') | (Some _, s') \<Rightarrow> (Inr ''Dataset deleted'', s'))"

definition download_dataset :: "int \<Rightarrow> catalog \<Rightarrow> exn + string" where
  "download_dataset i s = (case crud_get_dataset i s of
     None \<Rightarrow> Inl NotFoundError | Some r \<Rightarrow> Inr (''Dataset storage URI: '' @ ds_storage_uri r))"

section \<open>Histories\<close>

datatype catalog_op =
    CreateItem time user item_create
  | DeleteItem int
  | CreateModel time user model_create
  | DeleteModel int
  | CreateExperiment time user experiment_create
  | UpdateExperiment time int experiment_update
  | DeleteExperiment int
  | CreateDataset time user dataset_create
  | UploadDataset string time string user "string option" nat "string option"
  | UpdateDataset time int dataset_update
  | DeleteDataset int

fun run_catalog :: "catalog_op \<Rightarrow> catalog \<Rightarrow> catalog" where
  "run_catalog (CreateItem now u c) s = snd (create_item now u c s)"
| "run_catalog (DeleteItem i) s = snd (delete_item i s)"
| "run_catalog (CreateModel now u c) s = snd (create_model_metadata now u c s)"
| "run_catalog (DeleteModel i) s = snd (delete_model_metadata i s)"
| "run_catalog (CreateExperiment now u c) s = snd (create_experiment now u c s)"
| "run_catalog (UpdateExperiment now i e) s = snd (update_experiment now i e s)"
| "run_catalog (DeleteExperiment i) s = snd (delete_experiment i s)"
| "run_catalog (CreateDataset now u c) s = snd (create_dataset now u c s)"
| "run_catalog (UploadDataset dir now uid u f n name) s = snd (upload_dataset dir now uid u f n name s)"
| "run_catalog (UpdateDataset now i e) s = snd (update_dataset now i e s)"
| "run_catalog (DeleteDataset i) s = snd (delete_dataset i s)"

text \<open>What the columns of the rows of each table satisfy: the constraints of the schemas.\<close>

definition item_ok :: "item \<Rightarrow> bool" where
  "item_ok r \<longleftrightarrow> len_between 1 200 (it_title r) \<and> opt_all (len_between 0 5000) (it_description r)"

definition model_ok :: "model_row \<Rightarrow> bool" where
  "model_ok r \<longleftrightarrow> len_between 1 100 (mo_name r) \<and> len_between 1 50 (mo_version r) \<and>
     opt_all (len_between 0 5000) (mo_description r) \<and> len_between 1 500 (mo_file_path r) \<and>
     opt_all (\<lambda>n. 0 \<le> n) (mo_file_size r) \<and> opt_all (\<lambda>a. 0 \<le> a \<and> a \<le> 1) (mo_accuracy r)"

definition experiment_ok :: "experiment_row \<Rightarrow> bool" where
  "experiment_ok r \<longleftrightarrow> len_between 1 100 (ex_name r) \<and> opt_all (len_between 0 5000) (ex_description r) \<and>
     ex_status r \<in> set experiment_states"

definition dataset_ok :: "dataset \<Rightarrow> bool" where
  "dataset_ok r \<longleftrightarrow> len_between 1 100 (ds_name r) \<and> opt_all (len_between 0 5000) (ds_description r) \<and>
     len_between 1 500 (ds_storage_uri r) \<and> ds_format r \<in> set dataset_formats \<and>
     ds_status r \<in> set dataset_states \<and> opt_all (\<lambda>n. 0 \<le> n) (ds_row_count r)"

definition table_ok :: "('r \<Rightarrow> int) \<Rightarrow> ('r \<Rightarrow> bool) \<Rightarrow> 'r table \<Rightarrow> bool" where
  "table_ok idf P t \<longleftrightarrow> tb_wf idf t \<and> (\<forall>r \<in> set (tb_rows t). P r)"

definition catalog_ok :: "catalog \<Rightarrow> bool" where
  "catalog_ok s \<longleftrightarrow> table_ok it_id item_ok (ct_items s) \<and> table_ok mo_id model_ok (ct_models s) \<and>
     table_ok ex_id experiment_ok (ct_experiments s) \<and> table_ok ds_id dataset_ok (ct_datasets s) \<and>
     distinct (map ds_name (tb_rows (ct_datasets s)))"

lemma catalog_okI [intro]:
  "table_ok it_id item_ok (ct_items s) \<Longrightarrow> table_ok mo_id model_ok (ct_models s) \<Longrightarrow>
   table_ok ex_id experiment_ok (ct_experiments s) \<Longrightarrow> table_ok ds_id dataset_ok (ct_datasets s) \<Longrightarrow>
   distinct (map ds_name (tb_rows (ct_datasets s))) \<Longrightarrow> catalog_ok s"
  by (simp add: catalog_ok_def)

lemma catalog_okD:
  assumes "catalog_ok s"
  shows "table_ok it_id item_ok (ct_items s)" "table_ok mo_id model_ok (ct_models s)"
    "table_ok ex_id experiment_ok (ct_experiments s)" "table_ok ds_id dataset_ok (ct_datasets s)"
    "distinct (map ds_name (tb_rows (ct_datasets s)))"
  using assms by (simp_all add: catalog_ok_def)

lemma table_ok_delete [intro]: "table_ok idf P t \<Longrightarrow> table_ok idf P (snd (tb_delete idf i t))"
  by (simp add: table_ok_def tb_wf_delete set_tb_delete)

lemma table_ok_insert:
  assumes "\<And>i. idf (mk i) = i" and "\<And>i. P (mk i)" and "table_ok idf P t"
  shows "table_ok idf P (snd (tb_insert mk t))"
  using assms by (force simp: table_ok_def tb_wf_def)

lemma table_ok_update:
  assumes "tb_wf idf (snd (tb_update idf i f t))" and "\<And>r. P r \<Longrightarrow> P (f r)" and "table_ok idf P t"
  shows "table_ok idf P (snd (tb_update idf i f t))"
  using assms set_tb_update [of idf i f t] by (auto simp: table_ok_def)

lemma set_opt_keeps: "P r \<Longrightarrow> (\<And>x y. v = Some x \<Longrightarrow> P y \<Longrightarrow> P (f x y)) \<Longrightarrow> P (set_opt v f r)"
  by (simp add: set_opt_def split: option.split)

lemma touch_keeps: "P (f r) \<Longrightarrow> (\<And>x. P x \<Longrightarrow> P (stamp x)) \<Longrightarrow> P (touch stamp f r)"
  by (metis touch_def)

lemma edit_experiment_ok:
  assumes "experiment_update_valid u" and "experiment_ok r"
  shows "experiment_ok (edit_experiment (now, u) r)"
  unfolding edit_experiment_def prod.case
  by (rule touch_keeps [where P = experiment_ok], unfold comp_def, intro set_opt_keeps [where P = experiment_ok])
    (use assms in \<open>simp_all add: experiment_ok_def experiment_update_valid_def opt_all_def\<close>)

lemma edit_dataset_ok:
  assumes "dataset_update_valid u" and "dataset_ok r"
  shows "dataset_ok (edit_dataset (now, u) r)"
  unfolding edit_dataset_def prod.case
  by (rule touch_keeps [where P = dataset_ok], unfold comp_def, intro set_opt_keeps [where P = dataset_ok])
    (use assms in \<open>simp_all add: dataset_ok_def dataset_update_valid_def opt_all_def\<close>)

lemma edit_dataset_name: "ds_name (edit_dataset e r) = ds_name r"
  by (simp add: edit_dataset_def touch_def set_opt_def split: prod.split option.split)

lemma update_keeps_column:
  assumes "tb_wf idf t" and "\<And>r. col (f r) = col r"
  shows "map col (tb_rows (snd (tb_update idf i f t))) = map col (tb_rows t)"
proof (cases "tb_first (\<lambda>r. idf r = i) t")
  case (Some r)
  then have r: "r \<in> set (tb_rows t)" "idf r = i" by (auto dest: tb_first_Some)
  have "x = r" if "x \<in> set (tb_rows t)" "idf x = i" for x
    using assms(1) r that by (auto simp: tb_wf_def distinct_map inj_on_def)
  then show ?thesis by (auto simp: tb_update_def Some tb_set_def assms(2))
qed (simp add: tb_update_def)

lemma delete_keeps_distinct:
  "distinct (map col (tb_rows t)) \<Longrightarrow> distinct (map col (tb_rows (snd (tb_delete idf i t))))"
  by (simp add: tb_delete_def distinct_map_filter split: option.split)

text \<open>Where each handler leaves the tables it does not touch, and what it does to its own.\<close>

lemmas catalog_defs =
  create_item_def create_user_item_def delete_item_def crud_delete_item_def create_model_metadata_def
  crud_create_model_metadata_def delete_model_metadata_def crud_delete_model_metadata_def
  create_experiment_def crud_create_experiment_def update_experiment_def crud_update_experiment_def
  delete_experiment_def crud_delete_experiment_def update_dataset_def crud_update_dataset_def
  delete_dataset_def crud_delete_dataset_def with_body_def

lemma catalog_ok_with:
  assumes "catalog_ok s"
  shows "table_ok it_id item_ok t1 \<Longrightarrow> catalog_ok (s\<lparr>ct_items := t1\<rparr>)"
    and "table_ok mo_id model_ok t2 \<Longrightarrow> catalog_ok (s\<lparr>ct_models := t2\<rparr>)"
    and "table_ok ex_id experiment_ok t3 \<Longrightarrow> catalog_ok (s\<lparr>ct_experiments := t3\<rparr>)"
    and "table_ok ds_id dataset_ok t4 \<Longrightarrow> distinct (map ds_name (tb_rows t4)) \<Longrightarrow> catalog_ok (s\<lparr>ct_datasets := t4\<rparr>)"
    and "catalog_ok (s\<lparr>ct_files := fs\<rparr>)"
  using assms by (simp_all add: catalog_ok_def)

lemma snd_case_prod_fst: "snd (case p of (r, t) \<Rightarrow> (g r, h t)) = h (snd p)"
  by (cases p) simp

lemma create_item_ok: "catalog_ok s \<Longrightarrow> catalog_ok (snd (create_item now u c s))"
proof -
  assume s: "catalog_ok s"
  let ?t = "snd (tb_insert (mk_item (now, c, usr_id u)) (ct_items s))"
  have "snd (create_item now u c s) = (if item_create_valid c then s\<lparr>ct_items := ?t\<rparr> else s)"
    by (simp add: catalog_defs tb_insert_def Let_def)
  moreover have "table_ok it_id item_ok ?t" if "item_create_valid c"
    using catalog_okD(1) [OF s] that
    by (intro table_ok_insert) (simp_all add: mk_item_def item_ok_def item_create_valid_def)
  ultimately show ?thesis using s by (simp add: catalog_ok_with(1))
qed

lemma create_model_ok: "catalog_ok s \<Longrightarrow> catalog_ok (snd (create_model_metadata now u c s))"
proof -
  assume s: "catalog_ok s"
  let ?t = "snd (tb_insert (mk_model (now, c, usr_id u)) (ct_models s))"
  have "snd (create_model_metadata now u c s) = (if model_create_valid c then s\<lparr>ct_models := ?t\<rparr> else s)"
    by (simp add: catalog_defs tb_insert_def Let_def)
  moreover have "table_ok mo_id model_ok ?t" if "model_create_valid c"
    using catalog_okD(2) [OF s] that
    by (intro table_ok_insert) (simp_all add: mk_model_def model_ok_def model_create_valid_def)
  ultimately show ?thesis using s by (simp add: catalog_ok_with(2))
qed

lemma create_experiment_ok: "catalog_ok s \<Longrightarrow> catalog_ok (snd (create_experiment now u c s))"
proof -
  assume s: "catalog_ok s"
  let ?t = "snd (tb_insert (mk_experiment (now, c, usr_id u)) (ct_experiments s))"
  have "snd (create_experiment now u c s) = (if experiment_create_valid c then s\<lparr>ct_experiments := ?t\<rparr> else s)"
    by (simp add: catalog_defs tb_insert_def Let_def)
  moreover have "table_ok ex_id experiment_ok ?t" if "experiment_create_valid c"
    using catalog_okD(3) [OF s] that
    by (intro table_ok_insert) (simp_all add: mk_experiment_def experiment_ok_def experiment_create_valid_def)
  ultimately show ?thesis using s by (simp add: catalog_ok_with(3))
qed

lemma crud_create_dataset_ok:
  assumes "catalog_ok s" and "dataset_create_valid c" and "get_dataset_by_name (dc_name c) s = None"
  shows "catalog_ok (snd (crud_create_dataset now c uid s))"
proof -
  let ?t = "snd (tb_insert (mk_dataset (now, c, uid)) (ct_datasets s))"
  have "table_ok ds_id dataset_ok ?t"
    using catalog_okD(4) [OF assms(1)] assms(2)
    by (intro table_ok_insert) (simp_all add: mk_dataset_def dataset_ok_def dataset_create_valid_def dataset_states_def)
  moreover have "distinct (map ds_name (tb_rows ?t))"
    using catalog_okD(5) [OF assms(1)] assms(3)
    by (auto simp: mk_dataset_def get_dataset_by_name_def tb_first_None)
  moreover have "snd (crud_create_dataset now c uid s) = s\<lparr>ct_datasets := ?t\<rparr>"
    by (simp add: crud_create_dataset_def tb_insert_def Let_def)
  ultimately show ?thesis using assms(1) by (simp add: catalog_ok_with(4))
qed

lemma create_dataset_ok: "catalog_ok s \<Longrightarrow> catalog_ok (snd (create_dataset now u c s))"
proof -
  assume s: "catalog_ok s"
  have "snd (create_dataset now u c s) =
      (if dataset_create_valid c \<and> get_dataset_by_name (dc_name c) s = None
       then snd (crud_create_dataset now c (usr_id u) s) else s)"
    by (simp add: create_dataset_def with_body_def snd_case_prod_fst)
  with s crud_create_dataset_ok [OF s] show ?thesis by simp
qed

lemma upload_dataset_ok: "catalog_ok s \<Longrightarrow> catalog_ok (snd (upload_dataset dir now uid u f n name s))"
proof -
  assume s: "catalog_ok s"
  have files: "get_dataset_by_name d (s\<lparr>ct_files := fs\<rparr>) = get_dataset_by_name d s" for d fs
    by (simp add: get_dataset_by_name_def)
  have "catalog_ok (snd (crud_create_dataset now c (usr_id u) (s\<lparr>ct_files := fs\<rparr>)))"
    if "dataset_create_valid c" "get_dataset_by_name (dc_name c) s = None" for c fs
    using crud_create_dataset_ok [OF catalog_ok_with(5) [OF s] that(1)] that(2) by (simp add: files)
  with s show ?thesis
    by (simp add: upload_dataset_def Let_def snd_case_prod_fst catalog_ok_with(5) split: option.split)
qed

lemma experiment_writes_ok:
  assumes "catalog_ok s"
  shows "catalog_ok (snd (update_experiment now i e s))" and "catalog_ok (snd (delete_experiment i s))"
proof -
  let ?f = "edit_experiment (now, e)"
  have upd: "snd (update_experiment now i e s) =
      (if experiment_update_valid e then s\<lparr>ct_experiments := snd (tb_update ex_id i ?f (ct_experiments s))\<rparr> else s)"
    by (simp add: catalog_defs split: prod.split)
  have "table_ok ex_id experiment_ok (snd (tb_update ex_id i ?f (ct_experiments s)))" if "experiment_update_valid e"
    using catalog_okD(3) [OF assms] edit_experiment_ok [OF that]
    by (intro table_ok_update experiments.update_wf) (auto simp: table_ok_def)
  with assms show "catalog_ok (snd (update_experiment now i e s))" by (simp add: upd catalog_ok_with(3))
  have "snd (delete_experiment i s) = s\<lparr>ct_experiments := snd (tb_delete ex_id i (ct_experiments s))\<rparr>"
    by (simp add: catalog_defs split: prod.split option.split)
  with assms show "catalog_ok (snd (delete_experiment i s))"
    using catalog_okD(3) [OF assms] by (simp add: catalog_ok_with(3) table_ok_delete)
qed

lemma dataset_writes_ok:
  assumes "catalog_ok s"
  shows "catalog_ok (snd (update_dataset now i e s))" and "catalog_ok (snd (delete_dataset i s))"
proof -
  let ?f = "edit_dataset (now, e)" and ?t = "ct_datasets s"
  have wf: "tb_wf ds_id ?t" using catalog_okD(4) [OF assms] by (simp add: table_ok_def)
  have upd: "snd (update_dataset now i e s) =
      (if dataset_update_valid e then s\<lparr>ct_datasets := snd (tb_update ds_id i ?f ?t)\<rparr> else s)"
    by (simp add: catalog_defs split: prod.split)
  have "table_ok ds_id dataset_ok (snd (tb_update ds_id i ?f ?t))" if "dataset_update_valid e"
    using catalog_okD(4) [OF assms] edit_dataset_ok [OF that]
    by (intro table_ok_update datasets.update_wf [OF wf]) auto
  moreover have "map ds_name (tb_rows (snd (tb_update ds_id i ?f ?t))) = map ds_name (tb_rows ?t)"
    using wf by (rule update_keeps_column) (rule edit_dataset_name)
  ultimately show "catalog_ok (snd (update_dataset now i e s))"
    using assms catalog_okD(5) [OF assms] by (simp add: upd catalog_ok_with(4))
  have "snd (delete_dataset i s) = s\<lparr>ct_datasets := snd (tb_delete ds_id i ?t)\<rparr>"
    by (simp add: catalog_defs split: prod.split option.split)
  with assms show "catalog_ok (snd (delete_dataset i s))"
    using catalog_okD(4,5) [OF assms] by (simp add: catalog_ok_with(4) table_ok_delete delete_keeps_distinct)
qed

lemma delete_item_ok: "catalog_ok s \<Longrightarrow> catalog_ok (snd (delete_item i s))"
proof -
  assume s: "catalog_ok s"
  have "snd (delete_item i s) = s\<lparr>ct_items := snd (tb_delete it_id i (ct_items s))\<rparr>"
    by (simp add: catalog_defs split: prod.split option.split)
  with s show ?thesis using catalog_okD(1) [OF s] by (simp add: catalog_ok_with(1) table_ok_delete)
qed

lemma delete_model_ok: "catalog_ok s \<Longrightarrow> catalog_ok (snd (delete_model_metadata i s))"
proof -
  assume s: "catalog_ok s"
  have "snd (delete_model_metadata i s) = s\<lparr>ct_models := snd (tb_delete mo_id i (ct_models s))\<rparr>"
    by (simp add: catalog_defs split: prod.split option.split)
  with s show ?thesis using catalog_okD(2) [OF s] by (simp add: catalog_ok_with(2) table_ok_delete)
qed

lemma run_catalog_ok: "catalog_ok s \<Longrightarrow> catalog_ok (run_catalog op s)"
  by (cases op)
    (simp_all add: create_item_ok delete_item_ok create_model_ok delete_model_ok create_experiment_ok
      create_dataset_ok upload_dataset_ok experiment_writes_ok dataset_writes_ok)

lemma new_catalog_ok: "catalog_ok new_catalog"
  by (simp add: catalog_ok_def new_catalog_def table_ok_def) (simp add: new_table_def)


section \<open>Deletion and partial updates of datasets\<close>

definition dataset_gone :: "int \<Rightarrow> catalog \<Rightarrow> bool" where
  "dataset_gone i s \<longleftrightarrow> i < tb_next (ct_datasets s) \<and> crud_get_dataset i s = None"

lemma dataset_gone_insert:
  "dataset_gone i s \<Longrightarrow> dataset_gone i (snd (crud_create_dataset now c uid s))"
  using datasets.deleted_stays_deleted [of i "ct_datasets s" "(now, c, uid)"]
  by (auto simp: dataset_gone_def crud_create_dataset_def crud_get_dataset_def tb_insert_def Let_def)

lemma dataset_gone_files [simp]: "dataset_gone i (s\<lparr>ct_files := fs\<rparr>) = dataset_gone i s"
  by (simp add: dataset_gone_def crud_get_dataset_def)

lemma dataset_gone_step:
  assumes "catalog_ok s" and "dataset_gone i s"
  shows "dataset_gone i (run_catalog op s)"
proof (cases op)
  case (UploadDataset dir now uid u f n name)
  with assms(2) show ?thesis
    by (simp add: upload_dataset_def Let_def snd_case_prod_fst dataset_gone_insert split: option.split)
next
  case (CreateDataset now u c)
  with assms(2) show ?thesis
    by (simp add: create_dataset_def with_body_def snd_case_prod_fst dataset_gone_insert)
next
  case (UpdateDataset now k e)
  have wf: "tb_wf ds_id (ct_datasets s)" using catalog_okD(4) [OF assms(1)] by (simp add: table_ok_def)
  have "ct_datasets (run_catalog op s) =
      (if dataset_update_valid e then snd (tb_update ds_id k (edit_dataset (now, e)) (ct_datasets s)) else ct_datasets s)"
    by (simp add: UpdateDataset catalog_defs split: prod.split)
  then show ?thesis
    using assms(2) datasets.get_updated [OF wf, of i k "(now, e)"]
    by (auto simp: dataset_gone_def crud_get_dataset_def)
next
  case (DeleteDataset k)
  have "ct_datasets (run_catalog op s) = snd (tb_delete ds_id k (ct_datasets s))"
    by (simp add: DeleteDataset catalog_defs split: prod.split option.split)
  then show ?thesis
    using assms(2) by (auto simp: dataset_gone_def crud_get_dataset_def tb_first_None set_tb_delete)
qed (use assms(2) in \<open>simp_all add: dataset_gone_def crud_get_dataset_def catalog_defs tb_insert_def Let_def
  split: prod.split option.split\<close>)

text \<open>
  A deleted dataset stays deleted: in every continuation reads, updates, deletions and downloads
  under its identifier answer 404, because identifiers are not handed out again.
\<close>

theorem deleted_dataset_never_returns:
  assumes "catalog_ok s" and "delete_dataset i s = (Inr msg, s1)" and "dataset_update_valid e"
  shows "get_dataset i (fold run_catalog ops s1) = Inl NotFoundError \<and>
    fst (update_dataset now i e (fold run_catalog ops s1)) = Inl NotFoundError \<and>
    fst (delete_dataset i (fold run_catalog ops s1)) = Inl NotFoundError \<and>
    download_dataset i (fold run_catalog ops s1) = Inl NotFoundError"
proof -
  have s1: "s1 = run_catalog (DeleteDataset i) s" using assms(2) by simp
  have "crud_get_dataset i s \<noteq> None"
    using assms(2)
    by (auto simp: delete_dataset_def crud_delete_dataset_def tb_delete_def crud_get_dataset_def split: option.splits)
  then obtain r where "r \<in> set (tb_rows (ct_datasets s))" "ds_id r = i"
    by (auto simp: crud_get_dataset_def dest: tb_first_Some)
  then have "i < tb_next (ct_datasets s)" using catalog_okD(4) [OF assms(1)] by (auto simp: table_ok_def tb_wf_def)
  moreover have "ct_datasets s1 = snd (tb_delete ds_id i (ct_datasets s))"
    by (simp add: s1 catalog_defs split: prod.split option.split)
  ultimately have "dataset_gone i s1"
    using tb_first_delete [of ds_id i "ct_datasets s"] by (simp add: dataset_gone_def crud_get_dataset_def)
  moreover have "catalog_ok s1" using assms(1) s1 run_catalog_ok by blast
  ultimately have "dataset_gone i (fold run_catalog ops s1)"
  proof (induction ops arbitrary: s1)
    case (Cons op ops)
    from Cons.IH [OF dataset_gone_step [OF Cons.prems(2,1)] run_catalog_ok [OF Cons.prems(2)]] show ?case by simp
  qed simp
  then have "crud_get_dataset i (fold run_catalog ops s1) = None" by (simp add: dataset_gone_def)
  then show ?thesis
    using assms(3)
    by (simp add: get_dataset_def or_not_found_def update_dataset_def with_body_def crud_update_dataset_def
        tb_update_def delete_dataset_def crud_delete_dataset_def tb_delete_def download_dataset_def
        crud_get_dataset_def)
qed

definition demo_user :: user where
  "demo_user = \<lparr>usr_id = 7, usr_email = ''a@b'', usr_username = ''ann'', hashed_password = ''h'',
     usr_full_name = None, is_active = True, is_superuser = False, is_verified = True,
     failed_login_attempts = 0, lock_until = None, password_reset_token = None,
     hashed_reset_token = None, password_reset_expires = None\<rparr>"

definition demo_dataset :: dataset_create where
  "demo_dataset = \<lparr>dc_name = ''a'', dc_description = None, dc_storage_uri = ''x'', dc_format = ''csv'',
     dc_row_count = None, dc_columns = None\<rparr>"

definition demo_catalog :: catalog where
  "demo_catalog = run_catalog (CreateDataset 1 demo_user demo_dataset) new_catalog"

lemma demo_catalog_ok: "catalog_ok demo_catalog"
  unfolding demo_catalog_def by (rule run_catalog_ok [OF new_catalog_ok])

definition demo_update :: "int option \<Rightarrow> string option \<Rightarrow> dataset_update" where
  "demo_update n st = \<lparr>du_description = None, du_row_count = n, du_columns = None, du_status = st\<rparr>"

lemma demo_update_valid: "dataset_update_valid (demo_update (Some 3) (Some ''ready''))"
  by code_simp

theorem deleted_dataset_never_returns_witness:
  "get_dataset 1 (fold run_catalog [CreateDataset 2 demo_user demo_dataset] (snd (delete_dataset 1 demo_catalog)))
     = Inl NotFoundError \<and>
   get_dataset 2 (fold run_catalog [CreateDataset 2 demo_user demo_dataset] (snd (delete_dataset 1 demo_catalog)))
     \<noteq> Inl NotFoundError"
proof -
  have "delete_dataset 1 demo_catalog = (Inr ''Dataset deleted'', snd (delete_dataset 1 demo_catalog))"
    by code_simp
  from deleted_dataset_never_returns [OF demo_catalog_ok this demo_update_valid]
  have "get_dataset 1 (fold run_catalog [CreateDataset 2 demo_user demo_dataset] (snd (delete_dataset 1 demo_catalog)))
     = Inl NotFoundError"
    by blast
  moreover have "get_dataset 2 (fold run_catalog [CreateDataset 2 demo_user demo_dataset] (snd (delete_dataset 1 demo_catalog)))
     \<noteq> Inl NotFoundError"
    by code_simp
  ultimately show ?thesis by blast
qed

text \<open>
  A partial update changes exactly the fields that are given: the status, the columns, the row
  count and the description take the given values, everything else is kept, the time of the update is
  renewed only if a column changed, and no other row is affected.
\<close>

theorem partial_update_exact:
  assumes "catalog_ok s" and "dataset_update_valid e" and "crud_get_dataset i s = Some r"
  shows "\<exists>r' s'. update_dataset now i e s = (Inr r', s') \<and> crud_get_dataset i s' = Some r' \<and>
    ds_status r' = (case du_status e of None \<Rightarrow> ds_status r | Some v \<Rightarrow> v) \<and>
    ds_columns r' = (case du_columns e of None \<Rightarrow> ds_columns r | Some v \<Rightarrow> Some v) \<and>
    ds_row_count r' = (case du_row_count e of None \<Rightarrow> ds_row_count r | Some v \<Rightarrow> Some v) \<and>
    ds_description r' = (case du_description e of None \<Rightarrow> ds_description r | Some v \<Rightarrow> Some v) \<and>
    (ds_id r', ds_name r', ds_storage_uri r', ds_format r', ds_created r', ds_created_by r') =
      (ds_id r, ds_name r, ds_storage_uri r, ds_format r, ds_created r, ds_created_by r) \<and>
    (r' = r \<or> ds_updated r' = now) \<and>
    map (\<lambda>k. crud_get_dataset k s') (filter (\<lambda>k. k \<noteq> i) ks) = map (\<lambda>k. crud_get_dataset k s) (filter (\<lambda>k. k \<noteq> i) ks)"
proof -
  let ?f = "edit_dataset (now, e)" and ?t = "ct_datasets s"
  let ?s' = "s\<lparr>ct_datasets := snd (tb_update ds_id i ?f ?t)\<rparr>"
  have wf: "tb_wf ds_id ?t" using catalog_okD(4) [OF assms(1)] by (simp add: table_ok_def)
  have found: "tb_first (\<lambda>r. ds_id r = i) ?t = Some r" using assms(3) by (simp add: crud_get_dataset_def)
  have "update_dataset now i e s = (Inr (?f r), ?s')"
    using assms(2) found
    by (simp add: update_dataset_def with_body_def crud_update_dataset_def tb_update_def or_not_found_def)
  moreover have "crud_get_dataset k ?s' = (if k = i then Some (?f r) else crud_get_dataset k s)" for k
    using datasets.get_updated [OF wf, of k i "(now, e)"] found by (simp add: crud_get_dataset_def)
  moreover have "?f r = r \<or> ds_updated (?f r) = now" by (simp add: edit_dataset_def touch_def)
  moreover have "ds_status (?f r) = (case du_status e of None \<Rightarrow> ds_status r | Some v \<Rightarrow> v)"
    "ds_columns (?f r) = (case du_columns e of None \<Rightarrow> ds_columns r | Some v \<Rightarrow> Some v)"
    "ds_row_count (?f r) = (case du_row_count e of None \<Rightarrow> ds_row_count r | Some v \<Rightarrow> Some v)"
    "ds_description (?f r) = (case du_description e of None \<Rightarrow> ds_description r | Some v \<Rightarrow> Some v)"
    "(ds_id (?f r), ds_name (?f r), ds_storage_uri (?f r), ds_format (?f r), ds_created (?f r), ds_created_by (?f r)) =
      (ds_id r, ds_name r, ds_storage_uri r, ds_format r, ds_created r, ds_created_by r)"
    by (cases "du_status e"; cases "du_columns e"; cases "du_row_count e"; cases "du_description e";
        cases r; simp add: edit_dataset_def touch_def set_opt_def)+
  ultimately show ?thesis by (intro exI [of _ "?f r"] exI [of _ ?s'] conjI) simp_all
qed

theorem partial_update_exact_witness:
  "\<exists>r' s'. update_dataset 5 1 (demo_update (Some 3) (Some ''ready'')) demo_catalog = (Inr r', s') \<and>
     ds_status r' = ''ready'' \<and> ds_row_count r' = Some 3 \<and> ds_name r' = ''a''"
proof -
  have "crud_get_dataset 1 demo_catalog = Some (mk_dataset (1, demo_dataset, 7) 1)" by code_simp
  from partial_update_exact [OF demo_catalog_ok demo_update_valid this, of 5 "[]"]
  obtain r' s' where "update_dataset 5 1 (demo_update (Some 3) (Some ''ready'')) demo_catalog = (Inr r', s')"
    "ds_status r' = ''ready''" "ds_row_count r' = Some 3" "ds_name r' = ds_name (mk_dataset (1, demo_dataset, 7) 1)"
    by (auto simp: demo_update_def)
  then show ?thesis by (auto simp: mk_dataset_def demo_dataset_def)
qed

end
