(* ===== verification/Tools.thy ===== *)
theory Tools
  imports Catalog
begin

text \<open>
  The tool registry (\<open>src/agent/tools.py\<close>), the scheduled jobs (\<open>src/agent/scheduler.py\<close>) with the event
  triggers of \<open>src/agent/orchestrator.py\<close>, and the audit log every invocation writes.

  An exception is its class with the text \<open>str(exc)\<close> gives. The fields of an argument model are read by
  pydantic, a parameter; their constraints are the code's and are modelled. The tools that act on the
  host and on accounts are a parameter here. A scheduled job may name any tool, also the one that
  runs the scheduled jobs, so an invocation can start another run inside itself; the fuel of the model
  is the number of nested invocations the interpreter's recursion limit admits, and its exhaustion is
  the \<open>RecursionError\<close> that the run reports like any other failure.
\<close>

type_synonym tool_err = "exn \<times> string"

definition squote :: string where
  "squote = [CHR 0x27]"

definition exn_name :: "exn \<Rightarrow> string" where
  "exn_name e = (case e of ValueError \<Rightarrow> ''ValueError'' | TypeError \<Rightarrow> ''TypeError'' | KeyError \<Rightarrow> ''KeyError''
     | RuntimeError \<Rightarrow> ''RuntimeError'' | NotImplementedError \<Rightarrow> ''NotImplementedError''
     | NotFoundError \<Rightarrow> ''NotFoundError'' | ConflictError \<Rightarrow> ''ConflictError''
     | UnauthorizedError \<Rightarrow> ''UnauthorizedError'' | ForbiddenError \<Rightarrow> ''ForbiddenError''
     | ValidationFailedError \<Rightarrow> ''ValidationFailedError''
     | ServiceUnavailableError \<Rightarrow> ''ServiceUnavailableError''
     | HTTPException _ \<Rightarrow> ''HTTPException'' | OtherException s \<Rightarrow> s)"

section \<open>Redaction\<close>

text \<open>The second definition of the set of sensitive keys is the one in force when the functions run.\<close>

definition SENSITIVE_KEYS :: "string list" where
  "SENSITIVE_KEYS = [''password'', ''token'', ''secret'', ''api_key'', ''authorization'']"

definition sensitive :: "string \<Rightarrow> bool" where
  "sensitive k \<longleftrightarrow> py_lower k \<in> set SENSITIVE_KEYS"

fun sanitize_args :: "(string \<times> pyval) list \<Rightarrow> (string \<times> pyval) list"
  and sanitize_value :: "pyval \<Rightarrow> pyval"
  and sanitize_items :: "pyval list \<Rightarrow> pyval list" where
  "sanitize_args [] = []"
| "sanitize_args ((k, v) # d) =
     (k, if sensitive k then PStr ''***''
         else (case v of PDict e \<Rightarrow> PDict (sanitize_args e) | PList xs \<Rightarrow> PList (sanitize_items xs) | _ \<Rightarrow> v))
     # sanitize_args d"
| "sanitize_value v = (case v of PDict e \<Rightarrow> PDict (sanitize_args e) | _ \<Rightarrow> v)"
| "sanitize_items [] = []"
| "sanitize_items (x # xs) = sanitize_value x # sanitize_items xs"

definition sanitize_arguments :: "(string, pyval) dict \<Rightarrow> (string, pyval) dict" where
  "sanitize_arguments d = map (\<lambda>(k, v). (k, if sensitive k then PStr ''***'' else v)) d"

text \<open>\<open>json.dumps\<close> with its default separators and ASCII escapes; the text of a float is a parameter.\<close>

definition hex_digit :: "nat \<Rightarrow> char" where
  "hex_digit n = (if n < 10 then char_of (48 + n) else char_of (87 + n))"

definition json_char :: "char \<Rightarrow> string" where
  "json_char c =
     (let n = of_char c :: nat
      in if n = 34 then [CHR 0x5C, CHR 0x22] else if n = 92 then [CHR 0x5C, CHR 0x5C]
         else if n = 10 then CHR 0x5C # ''n'' else if n = 13 then CHR 0x5C # ''r''
         else if n = 9 then CHR 0x5C # ''t'' else if n = 8 then CHR 0x5C # ''b''
         else if n = 12 then CHR 0x5C # ''f''
         else if n < 32 \<or> 126 < n then CHR 0x5C # ''u00'' @ [hex_digit (n div 16), hex_digit (n mod 16)]
         else [c])"

definition json_string :: "string \<Rightarrow> string" where
  "json_string s = CHR 0x22 # concat (map json_char s) @ [CHR 0x22]"

fun commas :: "string list \<Rightarrow> string" where
  "commas [] = []"
| "commas [x] = x"
| "commas (x # y # xs) = x @ '', '' @ commas (y # xs)"

fun json_dumps :: "(rat \<Rightarrow> string) \<Rightarrow> pyval \<Rightarrow> string"
  and json_list :: "(rat \<Rightarrow> string) \<Rightarrow> pyval list \<Rightarrow> string list"
  and json_items :: "(rat \<Rightarrow> string) \<Rightarrow> (string \<times> pyval) list \<Rightarrow> string list" where
  "json_dumps f PNone = ''null''"
| "json_dumps f (PBool b) = (if b then ''true'' else ''false'')"
| "json_dumps f (PInt i) = str_int i"
| "json_dumps f (PFloat r) = f r"
| "json_dumps f (PStr s) = json_string s"
| "json_dumps f (PList xs) = ''['' @ commas (json_list f xs) @ '']''"
| "json_dumps f (PDict d) = ''{'' @ commas (json_items f d) @ ''}''"
| "json_list f [] = []"
| "json_list f (x # xs) = json_dumps f x # json_list f xs"
| "json_items f [] = []"
| "json_items f ((k, v) # d) = (json_string k @ '': '' @ json_dumps f v) # json_items f d"

section \<open>Audit log and scheduled jobs\<close>

record audit_row =
  au_id :: int
  au_tool :: string
  au_user :: "int option"
  au_arguments :: "string option"
  au_success :: bool
  au_error :: "string option"
  au_duration :: "rat option"
  au_created :: time

record job_row =
  jb_id :: int
  jb_name :: string
  jb_tool :: string
  jb_arguments :: "(string, pyval) dict option"
  jb_interval :: int
  jb_trigger :: "string option"
  jb_enabled :: bool
  jb_last_run :: "time option"
  jb_last_status :: "string option"
  jb_created_by :: "int option"
  jb_created :: time
  jb_updated :: time

text \<open>
  The deleted jobs are kept aside: a run that is under way still holds the objects of its list, and the
  session does not expire them.
\<close>

record tool_db =
  td_catalog :: catalog
  td_audit :: "audit_row table"
  td_jobs :: "job_row table"
  td_detached :: "job_row list"

definition new_tool_db :: tool_db where
  "new_tool_db = \<lparr>td_catalog = new_catalog, td_audit = new_table, td_jobs = new_table, td_detached = []\<rparr>"

definition mk_audit ::
    "time \<times> string \<times> int option \<times> string option \<times> bool \<times> string option \<times> rat option \<Rightarrow> int \<Rightarrow> audit_row" where
  "mk_audit = (\<lambda>(now, tool, uid, args, ok, err, dur) i.
     \<lparr>au_id = i, au_tool = tool, au_user = uid, au_arguments = args, au_success = ok, au_error = err,
      au_duration = dur, au_created = now\<rparr>)"

definition create_audit_entry ::
    "time \<Rightarrow> string \<Rightarrow> int option \<Rightarrow> string option \<Rightarrow> bool \<Rightarrow> string option \<Rightarrow> rat option \<Rightarrow> tool_db \<Rightarrow> tool_db" where
  "create_audit_entry now tool uid args ok err dur s =
     s\<lparr>td_audit := snd (tb_insert (mk_audit (now, tool, uid, args, ok, err, dur)) (td_audit s))\<rparr>"

definition list_audit_entries :: "nat \<Rightarrow> nat \<Rightarrow> tool_db \<Rightarrow> audit_row list" where
  "list_audit_entries skip limit s =
     take limit (drop skip (rev (sort_key au_id (tb_rows (td_audit s)))))"

record job_create =
  jc_name :: string
  jc_tool :: string
  jc_arguments :: "(string, pyval) dict"
  jc_interval :: int
  jc_enabled :: bool

definition mk_job :: "time \<times> job_create \<times> int option \<Rightarrow> int \<Rightarrow> job_row" where
  "mk_job = (\<lambda>(now, c, uid) i.
     \<lparr>jb_id = i, jb_name = jc_name c, jb_tool = jc_tool c, jb_arguments = Some (jc_arguments c),
      jb_interval = jc_interval c, jb_trigger = None, jb_enabled = jc_enabled c, jb_last_run = None,
      jb_last_status = None, jb_created_by = uid, jb_created = now, jb_updated = now\<rparr>)"

definition edit_job_run :: "string \<times> time \<Rightarrow> job_row \<Rightarrow> job_row" where
  "edit_job_run = (\<lambda>(status, run_at). touch (\<lambda>r. r\<lparr>jb_updated := run_at\<rparr>)
     (\<lambda>r. r\<lparr>jb_last_run := Some run_at, jb_last_status := Some status\<rparr>))"

interpretation audit: id_table au_id mk_audit
  by unfold_locales (simp add: mk_audit_def split: prod.split)

interpretation jobs: edit_table jb_id mk_job edit_job_run
  by unfold_locales (simp_all add: mk_job_def edit_job_run_def touch_def split: prod.split)

definition get_scheduled_job :: "int \<Rightarrow> tool_db \<Rightarrow> job_row option" where
  "get_scheduled_job i s = tb_first (\<lambda>r. jb_id r = i) (td_jobs s)"

definition get_scheduled_job_by_name :: "string \<Rightarrow> tool_db \<Rightarrow> job_row option" where
  "get_scheduled_job_by_name name s = tb_first (\<lambda>r. jb_name r = name) (td_jobs s)"

definition crud_list_scheduled_jobs :: "nat \<Rightarrow> nat \<Rightarrow> tool_db \<Rightarrow> job_row list" where
  "crud_list_scheduled_jobs skip limit s = tb_page skip limit (td_jobs s)"

definition crud_create_scheduled_job :: "time \<Rightarrow> job_create \<Rightarrow> int option \<Rightarrow> tool_db \<Rightarrow> job_row \<times> tool_db" where
  "crud_create_scheduled_job now c uid s =
     (case tb_insert (mk_job (now, c, uid)) (td_jobs s) of (r, t) \<Rightarrow> (r, s\<lparr>td_jobs := t\<rparr>))"

definition update_scheduled_job_run :: "int \<Rightarrow> string \<Rightarrow> time \<Rightarrow> tool_db \<Rightarrow> job_row option \<times> tool_db" where
  "update_scheduled_job_run i status run_at s =
     (case tb_update jb_id i (edit_job_run (status, run_at)) (td_jobs s) of (r, t) \<Rightarrow> (r, s\<lparr>td_jobs := t\<rparr>))"

definition crud_delete_scheduled_job :: "int \<Rightarrow> tool_db \<Rightarrow> job_row option \<times> tool_db" where
  "crud_delete_scheduled_job i s =
     (case tb_delete jb_id i (td_jobs s) of
        (r, t) \<Rightarrow> (r, s\<lparr>td_jobs := t, td_detached := (case r of None \<Rightarrow> td_detached s | Some j \<Rightarrow> j # td_detached s)\<rparr>))"

text \<open>
  \<open>EventEvaluator.evaluate\<close>: the query negates the column with Python's \<open>not\<close>, which is applied to the
  attribute object of the class and is the constant \<open>False\<close>, so the filter selects no row.
\<close>

definition not_success_column :: bool where
  "not_success_column = False"

definition evaluate_trigger :: "tool_db \<Rightarrow> job_row \<Rightarrow> bool" where
  "evaluate_trigger s j =
     (case jb_trigger j of
        None \<Rightarrow> False
      | Some condition \<Rightarrow>
          if condition = [] then False
          else case py_partition (CHR '':'') condition of (metric, found, threshold_str) \<Rightarrow>
            if \<not> found then False
            else case py_int threshold_str of
                None \<Rightarrow> False
              | Some threshold \<Rightarrow>
                  if metric = ''tool_fail_count'' then
                    threshold \<le> int (length (filter (\<lambda>r. au_tool r = jb_tool j \<and> not_success_column)
                      (tb_rows (td_audit s))))
                  else False)"

section \<open>Arguments and replies\<close>

datatype args_class =
    NoArgsC | ListArgsC | GetDatasetC | DatasetCreateC | GetModelC | GetModelByNameC | ModelCreateC
  | GetExperimentC | ExperimentCreateC | PredictionC | JobCreateC | JobIdC
  | RunShellC | ReadFileC | WriteFileC | ListDirC | ProcessKillC
  | IssueListC | IssueCreateC | PrListC

datatype tool_args =
    NoArgs
  | ListArgs int int
  | GetDatasetArgs int
  | DatasetCreateArgs dataset_create
  | GetModelArgs int
  | GetModelByNameArgs string "string option"
  | ModelCreateArgs model_create
  | GetExperimentArgs int
  | ExperimentCreateArgs experiment_create
  | PredictionArgs "(string, pyval) dict" "string option"
  | JobCreateArgs job_create
  | JobIdArgs int
  | RunShellArgs string "string option" int
  | ReadFileArgs string int
  | WriteFileArgs string string bool
  | ListDirArgs string bool
  | ProcessKillArgs int
  | IssueListArgs string string int
  | IssueCreateArgs string string "string option"
  | PrListArgs string string int

fun class_of :: "tool_args \<Rightarrow> args_class" where
  "class_of NoArgs = NoArgsC"
| "class_of (ListArgs _ _) = ListArgsC"
| "class_of (GetDatasetArgs _) = GetDatasetC"
| "class_of (DatasetCreateArgs _) = DatasetCreateC"
| "class_of (GetModelArgs _) = GetModelC"
| "class_of (GetModelByNameArgs _ _) = GetModelByNameC"
| "class_of (ModelCreateArgs _) = ModelCreateC"
| "class_of (GetExperimentArgs _) = GetExperimentC"
| "class_of (ExperimentCreateArgs _) = ExperimentCreateC"
| "class_of (PredictionArgs _ _) = PredictionC"
| "class_of (JobCreateArgs _) = JobCreateC"
| "class_of (JobIdArgs _) = JobIdC"
| "class_of (RunShellArgs _ _ _) = RunShellC"
| "class_of (ReadFileArgs _ _) = ReadFileC"
| "class_of (WriteFileArgs _ _ _) = WriteFileC"
| "class_of (ListDirArgs _ _) = ListDirC"
| "class_of (ProcessKillArgs _) = ProcessKillC"
| "class_of (IssueListArgs _ _ _) = IssueListC"
| "class_of (IssueCreateArgs _ _ _) = IssueCreateC"
| "class_of (PrListArgs _ _ _) = PrListC"

definition issue_states :: "string list" where
  "issue_states = [''open'', ''closed'', ''all'']"

definition pr_states :: "string list" where
  "pr_states = [''open'', ''closed'', ''merged'', ''all'']"

fun args_valid :: "tool_args \<Rightarrow> bool" where
  "args_valid NoArgs = True"
| "args_valid (ListArgs skip limit) = (0 \<le> skip \<and> 1 \<le> limit \<and> limit \<le> 1000)"
| "args_valid (GetDatasetArgs i) = (1 \<le> i)"
| "args_valid (DatasetCreateArgs c) = dataset_create_valid c"
| "args_valid (GetModelArgs i) = (1 \<le> i)"
| "args_valid (GetModelByNameArgs name _) = len_between 1 255 name"
| "args_valid (ModelCreateArgs c) = model_create_valid c"
| "args_valid (GetExperimentArgs i) = (1 \<le> i)"
| "args_valid (ExperimentCreateArgs c) = experiment_create_valid c"
| "args_valid (PredictionArgs features _) = (features \<noteq> [])"
| "args_valid (JobCreateArgs c) =
     (len_between 1 100 (jc_name c) \<and> len_between 1 100 (jc_tool c) \<and> 1 \<le> jc_interval c \<and> jc_interval c \<le> 2592000)"
| "args_valid (JobIdArgs i) = (1 \<le> i)"
| "args_valid (RunShellArgs command _ timeout) = (len_between 1 8000 command \<and> 1 \<le> timeout \<and> timeout \<le> 300)"
| "args_valid (ReadFileArgs path n) = (path \<noteq> [] \<and> 1 \<le> n \<and> n \<le> 1048576)"
| "args_valid (WriteFileArgs path content _) = (path \<noteq> [] \<and> length content \<le> 1048576)"
| "args_valid (ListDirArgs _ _) = True"
| "args_valid (ProcessKillArgs pid) = (1 \<le> pid)"
| "args_valid (IssueListArgs repo state n) = (repo \<noteq> [] \<and> state \<in> set issue_states \<and> 1 \<le> n \<and> n \<le> 100)"
| "args_valid (IssueCreateArgs repo title body) =
     (repo \<noteq> [] \<and> len_between 1 256 title \<and> opt_all (len_between 0 10000) body)"
| "args_valid (PrListArgs repo state n) = (repo \<noteq> [] \<and> state \<in> set pr_states \<and> 1 \<le> n \<and> n \<le> 100)"

record job_outcome =
  jo_id :: int
  jo_name :: string
  jo_tool :: string
  jo_status :: string
  jo_trigger :: string

datatype reply =
    InfoReply "(string, pyval) dict"
  | DatasetsReply "dataset list" nat
  | DatasetReply dataset
  | ModelsReply "model_row list" nat
  | ModelReply model_row
  | ExperimentsReply "experiment_row list" nat
  | ExperimentReply experiment_row
  | PyReply pyval
  | JobReply job_row
  | JobsReply "job_row list" nat
  | DetailReply string
  | RanReply "job_outcome list" nat

text \<open>What the code takes from outside: settings, the optional ML runtime, the host and account tools.\<close>

record tool_env =
  te_now :: time
  te_elapsed :: "string \<Rightarrow> rat"
  te_float :: "rat \<Rightarrow> string"
  te_coerce :: "args_class \<Rightarrow> (string, pyval) dict \<Rightarrow> tool_args option"
  te_invalid :: "string \<Rightarrow> (string, pyval) dict \<Rightarrow> string"
  te_db_ok :: bool
  te_app_name :: string
  te_version :: string
  te_app_env :: string
  te_mlflow :: bool
  te_pandas :: bool
  te_rate_limit :: bool
  te_predict :: "(string, pyval) dict \<Rightarrow> tool_err + pyval"
  te_host :: "string \<Rightarrow> tool_args \<Rightarrow> tool_err + pyval"
  te_github :: bool

type_synonym handler_result = "(tool_err + reply) \<times> tool_db"

section \<open>Handlers\<close>

definition require_user :: "user option \<Rightarrow> tool_err + int" where
  "require_user u = (case u of
     None \<Rightarrow> Inl (ForbiddenError, ''This tool requires an authenticated user'')
   | Some v \<Rightarrow> Inr (usr_id v))"

definition quoted :: "string \<Rightarrow> string" where
  "quoted s = squote @ s @ squote"

definition tool_system_info :: "tool_env \<Rightarrow> tool_err + reply" where
  "tool_system_info e = Inr (InfoReply
     [(''service'', PStr (te_app_name e)), (''version'', PStr (te_version e)),
      (''environment'', PStr (te_app_env e)),
      (''database'', PStr (if te_db_ok e then ''ok'' else ''unavailable'')),
      (''mlflow_available'', PBool (te_mlflow e)), (''prediction_available'', PBool (te_pandas e)),
      (''rate_limit_enabled'', PBool (te_rate_limit e))])"

definition tool_list_datasets :: "int \<Rightarrow> int \<Rightarrow> tool_db \<Rightarrow> tool_err + reply" where
  "tool_list_datasets skip limit s =
     Inr (DatasetsReply (get_datasets (nat skip) (nat limit) (td_catalog s))
       (length (tb_rows (ct_datasets (td_catalog s)))))"

definition tool_get_dataset :: "int \<Rightarrow> tool_db \<Rightarrow> tool_err + reply" where
  "tool_get_dataset i s = (case crud_get_dataset i (td_catalog s) of
     None \<Rightarrow> Inl (NotFoundError, ''Dataset not found'') | Some r \<Rightarrow> Inr (DatasetReply r))"

definition tool_create_dataset :: "time \<Rightarrow> dataset_create \<Rightarrow> user option \<Rightarrow> tool_db \<Rightarrow> handler_result" where
  "tool_create_dataset now c u s =
     (case require_user u of
        Inl e \<Rightarrow> (Inl e, s)
      | Inr uid \<Rightarrow>
          if get_dataset_by_name (dc_name c) (td_catalog s) \<noteq> None
          then (Inl (ConflictError, ''Dataset '' @ quoted (dc_name c) @ '' already exists''), s)
          else case crud_create_dataset now c uid (td_catalog s) of
            (r, ct) \<Rightarrow> (Inr (DatasetReply r), s\<lparr>td_catalog := ct\<rparr>))"

definition tool_list_models :: "int \<Rightarrow> int \<Rightarrow> tool_db \<Rightarrow> tool_err + reply" where
  "tool_list_models skip limit s =
     Inr (ModelsReply (get_model_metadata_list (nat skip) (nat limit) (td_catalog s))
       (length (tb_rows (ct_models (td_catalog s)))))"

definition tool_get_model :: "int \<Rightarrow> tool_db \<Rightarrow> tool_err + reply" where
  "tool_get_model i s = (case get_model_metadata i (td_catalog s) of
     None \<Rightarrow> Inl (NotFoundError, ''Model not found'') | Some r \<Rightarrow> Inr (ModelReply r))"

definition tool_get_model_by_name :: "string \<Rightarrow> string option \<Rightarrow> tool_db \<Rightarrow> tool_err + reply" where
  "tool_get_model_by_name name version s = (case get_model_metadata_by_name name version (td_catalog s) of
     None \<Rightarrow> Inl (NotFoundError, ''Model '' @ quoted name @ '' not found'') | Some r \<Rightarrow> Inr (ModelReply r))"

definition tool_register_model :: "time \<Rightarrow> model_create \<Rightarrow> user option \<Rightarrow> tool_db \<Rightarrow> handler_result" where
  "tool_register_model now c u s =
     (case require_user u of
        Inl e \<Rightarrow> (Inl e, s)
      | Inr uid \<Rightarrow>
          if get_model_metadata_by_name (mc_name c) (Some (mc_version c)) (td_catalog s) \<noteq> None
          then (Inl (ConflictError, ''Model '' @ quoted (mc_name c) @ '' version '' @ quoted (mc_version c) @
                  '' already registered''), s)
          else case crud_create_model_metadata now c uid (td_catalog s) of
            (r, ct) \<Rightarrow> (Inr (ModelReply r), s\<lparr>td_catalog := ct\<rparr>))"

definition tool_list_experiments :: "int \<Rightarrow> int \<Rightarrow> tool_db \<Rightarrow> tool_err + reply" where
  "tool_list_experiments skip limit s =
     Inr (ExperimentsReply (get_experiments (nat skip) (nat limit) (td_catalog s))
       (length (tb_rows (ct_experiments (td_catalog s)))))"

definition tool_get_experiment :: "int \<Rightarrow> tool_db \<Rightarrow> tool_err + reply" where
  "tool_get_experiment i s = (case crud_get_experiment i (td_catalog s) of
     None \<Rightarrow> Inl (NotFoundError, ''Experiment not found'') | Some r \<Rightarrow> Inr (ExperimentReply r))"

definition tool_create_experiment :: "time \<Rightarrow> experiment_create \<Rightarrow> user option \<Rightarrow> tool_db \<Rightarrow> handler_result" where
  "tool_create_experiment now c u s =
     (case require_user u of
        Inl e \<Rightarrow> (Inl e, s)
      | Inr uid \<Rightarrow> (case crud_create_experiment now c uid (td_catalog s) of
            (r, ct) \<Rightarrow> (Inr (ExperimentReply r), s\<lparr>td_catalog := ct\<rparr>)))"

definition tool_predict :: "tool_env \<Rightarrow> (string, pyval) dict \<Rightarrow> tool_err + reply" where
  "tool_predict e features =
     (if \<not> te_pandas e then
        Inl (ServiceUnavailableError, ''Prediction requires the ML runtime (pandas/numpy/mlflow), which is not installed on this deployment.'')
      else case te_predict e features of
          Inr v \<Rightarrow> Inr (PyReply v)
        | Inl (RuntimeError, msg) \<Rightarrow> Inl (ServiceUnavailableError, msg)
        | Inl err \<Rightarrow> Inl err)"

text \<open>The text continues with a dash, a character outside the model, and the name of a file.\<close>

definition tool_train_model :: "tool_err + reply" where
  "tool_train_model =
     Inl (ServiceUnavailableError, ''Training pipeline not implemented yet'')"

text \<open>The scheduler's handlers; \<open>known\<close> says which tool names the registry holds.\<close>

definition create_scheduled_job ::
    "(string \<Rightarrow> bool) \<Rightarrow> time \<Rightarrow> job_create \<Rightarrow> user option \<Rightarrow> tool_db \<Rightarrow> handler_result" where
  "create_scheduled_job known now c u s =
     (if \<not> known (jc_tool c) then (Inl (NotFoundError, ''Unknown tool '' @ quoted (jc_tool c)), s)
      else if get_scheduled_job_by_name (jc_name c) s \<noteq> None
        then (Inl (ConflictError, ''Scheduled job '' @ quoted (jc_name c) @ '' already exists''), s)
      else case crud_create_scheduled_job now c (map_option usr_id u) s of (r, s') \<Rightarrow> (Inr (JobReply r), s'))"

definition list_scheduled_jobs :: "int \<Rightarrow> int \<Rightarrow> tool_db \<Rightarrow> tool_err + reply" where
  "list_scheduled_jobs skip limit s =
     (let rows = crud_list_scheduled_jobs (nat skip) (nat limit) s in Inr (JobsReply rows (length rows)))"

definition delete_scheduled_job :: "int \<Rightarrow> tool_db \<Rightarrow> handler_result" where
  "delete_scheduled_job i s = (case crud_delete_scheduled_job i s of
     (None, s') \<Rightarrow> (Inl (NotFoundError, ''Scheduled job not found''), s')
   | (Some _, s') \<Rightarrow> (Inr (DetailReply ''Scheduled job deleted''), s'))"

section \<open>Scheduled runs\<close>

text \<open>The object of a job of the list, in its present state, whether or not its row still exists.\<close>

definition job_object :: "int \<Rightarrow> tool_db \<Rightarrow> job_row option" where
  "job_object i s = List.find (\<lambda>r. jb_id r = i) (tb_rows (td_jobs s) @ td_detached s)"

definition due_by_interval :: "time \<Rightarrow> job_row \<Rightarrow> bool" where
  "due_by_interval now j =
     (case jb_last_run j of None \<Rightarrow> True | Some t \<Rightarrow> of_int (jb_interval j) \<le> now - t)"

definition failed_status :: "tool_err \<Rightarrow> string" where
  "failed_status err = take 500 (''failed: '' @ exn_name (fst err) @ '': '' @ snd err)"

type_synonym invoker = "string \<Rightarrow> (string, pyval) dict \<Rightarrow> user option \<Rightarrow> tool_db \<Rightarrow> handler_result"

definition run_job :: "invoker \<Rightarrow> time \<Rightarrow> user option \<Rightarrow> job_row \<Rightarrow> tool_db \<Rightarrow> job_outcome list \<times> tool_db" where
  "run_job invoke now u j s =
     (if \<not> jb_enabled j then ([], s)
      else
        (let interval = due_by_interval now j; event = evaluate_trigger s j
         in if \<not> (interval \<or> event) then ([], s)
            else case invoke (jb_tool j) (case jb_arguments j of None \<Rightarrow> [] | Some a \<Rightarrow> a) u s of (r, s1) \<Rightarrow>
              (let status = (case r of Inr _ \<Rightarrow> ''success'' | Inl err \<Rightarrow> failed_status err);
                   s2 = snd (update_scheduled_job_run (jb_id j) status now s1)
               in ([\<lparr>jo_id = jb_id j, jo_name = jb_name j, jo_tool = jb_tool j, jo_status = status,
                     jo_trigger = (if event \<and> \<not> interval then ''event'' else ''interval'')\<rparr>], s2))))"

fun run_each :: "invoker \<Rightarrow> time \<Rightarrow> user option \<Rightarrow> int list \<Rightarrow> tool_db \<Rightarrow> job_outcome list \<times> tool_db" where
  "run_each invoke now u [] s = ([], s)"
| "run_each invoke now u (i # is) s =
     (case job_object i s of
        None \<Rightarrow> run_each invoke now u is s
      | Some j \<Rightarrow> (case run_job invoke now u j s of (r, s1) \<Rightarrow>
          (case run_each invoke now u is s1 of (rs, s2) \<Rightarrow> (r @ rs, s2))))"

definition run_due_jobs :: "invoker \<Rightarrow> time \<Rightarrow> user option \<Rightarrow> tool_db \<Rightarrow> job_outcome list \<times> tool_db" where
  "run_due_jobs invoke now u s =
     run_each invoke now u (map jb_id (crud_list_scheduled_jobs 0 1000 s)) s"

definition run_scheduled_jobs :: "invoker \<Rightarrow> time \<Rightarrow> user option \<Rightarrow> tool_db \<Rightarrow> handler_result" where
  "run_scheduled_jobs invoke now u s =
     (case run_due_jobs invoke now u s of (outs, s') \<Rightarrow> (Inr (RanReply outs (length outs)), s'))"

section \<open>Registry and invocation\<close>

record tool =
  tl_name :: string
  tl_class :: args_class
  tl_requires_user :: bool

definition tool_entry :: "string \<Rightarrow> args_class \<Rightarrow> bool \<Rightarrow> tool" where
  "tool_entry name c u = \<lparr>tl_name = name, tl_class = c, tl_requires_user = u\<rparr>"

definition builtin_tools :: "tool list" where
  "builtin_tools =
     [tool_entry ''system_info'' NoArgsC False, tool_entry ''list_datasets'' ListArgsC False,
      tool_entry ''get_dataset'' GetDatasetC False, tool_entry ''create_dataset'' DatasetCreateC True,
      tool_entry ''list_models'' ListArgsC False, tool_entry ''get_model'' GetModelC False,
      tool_entry ''get_model_by_name'' GetModelByNameC False, tool_entry ''register_model'' ModelCreateC True,
      tool_entry ''list_experiments'' ListArgsC False, tool_entry ''get_experiment'' GetExperimentC False,
      tool_entry ''create_experiment'' ExperimentCreateC True, tool_entry ''predict'' PredictionC False,
      tool_entry ''train_model'' NoArgsC False, tool_entry ''run_shell'' RunShellC False,
      tool_entry ''read_file'' ReadFileC False, tool_entry ''write_file'' WriteFileC False,
      tool_entry ''list_dir'' ListDirC False, tool_entry ''process_list'' NoArgsC False,
      tool_entry ''process_kill'' ProcessKillC False, tool_entry ''account_status'' NoArgsC False,
      tool_entry ''create_scheduled_job'' JobCreateC False, tool_entry ''list_scheduled_jobs'' ListArgsC False,
      tool_entry ''run_scheduled_jobs'' NoArgsC False, tool_entry ''delete_scheduled_job'' JobIdC False]"

definition github_tools :: "tool list" where
  "github_tools =
     [tool_entry ''github_repo_list'' ListArgsC False, tool_entry ''github_issue_list'' IssueListC False,
      tool_entry ''github_issue_create'' IssueCreateC False, tool_entry ''github_pr_list'' PrListC False]"

definition TOOLS :: "bool \<Rightarrow> tool list" where
  "TOOLS github = builtin_tools @ (if github then github_tools else [])"

definition get_tool :: "bool \<Rightarrow> string \<Rightarrow> tool option" where
  "get_tool github name = List.find (\<lambda>t. tl_name t = name) (TOOLS github)"

text \<open>The handler of a tool, on arguments of the class of its model; the others act on the host.\<close>

definition call_handler :: "invoker \<Rightarrow> tool_env \<Rightarrow> string \<Rightarrow> tool_args \<Rightarrow> user option \<Rightarrow> tool_db \<Rightarrow> handler_result"
  where
  "call_handler invoke e name a u s =
     (if name = ''system_info'' then (tool_system_info e, s)
      else if name = ''train_model'' then (tool_train_model, s)
      else if name = ''run_scheduled_jobs'' then run_scheduled_jobs invoke (te_now e) u s
      else case a of
          DatasetCreateArgs c \<Rightarrow> tool_create_dataset (te_now e) c u s
        | ModelCreateArgs c \<Rightarrow> tool_register_model (te_now e) c u s
        | ExperimentCreateArgs c \<Rightarrow> tool_create_experiment (te_now e) c u s
        | GetDatasetArgs i \<Rightarrow> (tool_get_dataset i s, s)
        | GetModelArgs i \<Rightarrow> (tool_get_model i s, s)
        | GetModelByNameArgs n v \<Rightarrow> (tool_get_model_by_name n v s, s)
        | GetExperimentArgs i \<Rightarrow> (tool_get_experiment i s, s)
        | PredictionArgs f _ \<Rightarrow> (tool_predict e f, s)
        | JobCreateArgs c \<Rightarrow> create_scheduled_job (\<lambda>n. get_tool (te_github e) n \<noteq> None) (te_now e) c u s
        | JobIdArgs i \<Rightarrow> delete_scheduled_job i s
        | ListArgs skip limit \<Rightarrow>
            (if name = ''list_datasets'' then (tool_list_datasets skip limit s, s)
             else if name = ''list_models'' then (tool_list_models skip limit s, s)
             else if name = ''list_experiments'' then (tool_list_experiments skip limit s, s)
             else if name = ''list_scheduled_jobs'' then (list_scheduled_jobs skip limit s, s)
             else (map_sum id PyReply (te_host e name a), s))
        | _ \<Rightarrow> (map_sum id PyReply (te_host e name a), s))"

definition parse_args :: "tool_env \<Rightarrow> tool \<Rightarrow> (string, pyval) dict \<Rightarrow> tool_args option" where
  "parse_args e t args =
     (case te_coerce e (tl_class t) args of
        None \<Rightarrow> None
      | Some a \<Rightarrow> if class_of a = tl_class t \<and> args_valid a then Some a else None)"

definition write_audit ::
    "tool_env \<Rightarrow> string \<Rightarrow> (string, pyval) dict \<Rightarrow> user option \<Rightarrow> bool \<Rightarrow> string option \<Rightarrow> tool_db \<Rightarrow> tool_db" where
  "write_audit e name args u ok err s =
     create_audit_entry (te_now e) name (map_option usr_id u)
       (Some (take 4000 (json_dumps (te_float e) (PDict (sanitize_arguments args))))) ok
       (case err of None \<Rightarrow> None | Some t \<Rightarrow> if t = [] then None else Some (take 2000 t))
       (Some (te_elapsed e name)) s"

definition invoke_body :: "invoker \<Rightarrow> tool_env \<Rightarrow> invoker" where
  "invoke_body invoke e name args u s =
     (case get_tool (te_github e) name of
        None \<Rightarrow> (Inl (NotFoundError, ''Tool '' @ quoted name @ '' not found''), s)
      | Some t \<Rightarrow>
          (case parse_args e t args of
             None \<Rightarrow>
               (Inl (ValidationFailedError, ''Tool arguments failed validation''),
                write_audit e name args u False (Some (''ValidationError: '' @ te_invalid e name args)) s)
           | Some a \<Rightarrow>
               (case call_handler invoke e name a u s of
                  (Inl err, s1) \<Rightarrow>
                    (Inl err, write_audit e name args u False (Some (exn_name (fst err) @ '': '' @ snd err)) s1)
                | (Inr r, s1) \<Rightarrow> (Inr r, write_audit e name args u True None s1))))"

primrec invoke_tool :: "nat \<Rightarrow> tool_env \<Rightarrow> invoker" where
  "invoke_tool 0 e = (\<lambda>name args u s.
     (Inl (OtherException ''RecursionError'', ''maximum recursion depth exceeded''), s))"
| "invoke_tool (Suc n) e = invoke_body (invoke_tool n e) e"

text \<open>The endpoint of \<open>src/api/agent/router.py\<close>: the current user invokes a tool.\<close>

definition agent_invoke :: "nat \<Rightarrow> tool_env \<Rightarrow> exn + user \<Rightarrow> string \<Rightarrow> (string, pyval) dict \<Rightarrow> tool_db \<Rightarrow> (exn + reply) \<times> tool_db"
  where
  "agent_invoke n e current name args s =
     (case current of
        Inl err \<Rightarrow> (Inl err, s)
      | Inr u \<Rightarrow> (case invoke_tool n e name args (Some u) s of (r, s') \<Rightarrow> (map_sum fst id r, s')))"

section \<open>The audit log\<close>

abbreviation audit_rows :: "tool_db \<Rightarrow> audit_row list" where
  "audit_rows s \<equiv> tb_rows (td_audit s)"

lemma audit_rows_write:
  "audit_rows (write_audit e name args u ok err s) =
     audit_rows s @ [\<lparr>au_id = tb_next (td_audit s), au_tool = name, au_user = map_option usr_id u,
       au_arguments = Some (take 4000 (json_dumps (te_float e) (PDict (sanitize_arguments args)))),
       au_success = ok, au_error = (case err of None \<Rightarrow> None | Some t \<Rightarrow> if t = [] then None else Some (take 2000 t)),
       au_duration = Some (te_elapsed e name), au_created = te_now e\<rparr>]"
  by (simp add: write_audit_def create_audit_entry_def mk_audit_def)

lemma audit_rows_jobs [simp]:
  "audit_rows (snd (crud_create_scheduled_job now c uid s)) = audit_rows s"
  "audit_rows (snd (update_scheduled_job_run i st t s)) = audit_rows s"
  "audit_rows (snd (crud_delete_scheduled_job i s)) = audit_rows s"
  by (simp_all add: crud_create_scheduled_job_def update_scheduled_job_run_def crud_delete_scheduled_job_def
      split: prod.split)

definition appends :: "invoker \<Rightarrow> bool" where
  "appends ivk \<longleftrightarrow> (\<forall>name args u s. prefix (audit_rows s) (audit_rows (snd (ivk name args u s))))"

lemma appendsD: "appends ivk \<Longrightarrow> ivk name args u s = (r, s') \<Longrightarrow> prefix (audit_rows s) (audit_rows s')"
  unfolding appends_def by (metis snd_conv)

lemma run_job_appends:
  assumes "appends ivk"
  shows "prefix (audit_rows s) (audit_rows (snd (run_job ivk now u j s)))"
proof -
  obtain r s1 where ivk: "ivk (jb_tool j) (case jb_arguments j of None \<Rightarrow> [] | Some a \<Rightarrow> a) u s = (r, s1)"
    by fastforce
  from appendsD [OF assms this] show ?thesis by (simp add: run_job_def Let_def ivk)
qed

lemma run_each_appends:
  "appends ivk \<Longrightarrow> prefix (audit_rows s) (audit_rows (snd (run_each ivk now u ks s)))"
proof (induction ks arbitrary: s)
  case (Cons i ks)
  have "prefix (audit_rows s) (audit_rows (snd (run_each ivk now u ks (snd (run_job ivk now u j s)))))" for j
    using run_job_appends [OF Cons.prems, of s now u j] Cons.IH [OF Cons.prems, of "snd (run_job ivk now u j s)"]
    by (rule prefix_order.trans)
  with Cons.IH [OF Cons.prems, of s] show ?case by (simp add: case_prod_unfold split: option.split)
qed simp

lemma handler_appends:
  assumes "appends ivk"
  shows "prefix (audit_rows s) (audit_rows (snd (call_handler ivk e name a u s)))"
proof -
  have "prefix (audit_rows s) (audit_rows (snd (run_scheduled_jobs ivk (te_now e) u s)))"
    using run_each_appends [OF assms] by (simp add: run_scheduled_jobs_def run_due_jobs_def case_prod_unfold)
  moreover have "audit_rows (snd (tool_create_dataset now c u s)) = audit_rows s"
    "audit_rows (snd (tool_register_model now c' u s)) = audit_rows s"
    "audit_rows (snd (tool_create_experiment now c'' u s)) = audit_rows s" for now c c' c''
    by (simp_all add: tool_create_dataset_def tool_register_model_def tool_create_experiment_def case_prod_unfold
        split: sum.split)
  moreover have "audit_rows (snd (create_scheduled_job k now c u s)) = audit_rows s"
    "audit_rows (snd (delete_scheduled_job i s)) = audit_rows s" for k now c i
    using audit_rows_jobs(1) [of now c "map_option usr_id u" s] audit_rows_jobs(3) [of i s]
    by (auto simp: create_scheduled_job_def delete_scheduled_job_def case_prod_unfold simp del: audit_rows_jobs
        split: prod.split option.split)
  ultimately show ?thesis
    unfolding call_handler_def by (cases a) simp_all
qed

lemma invoke_body_appends: "appends ivk \<Longrightarrow> appends (invoke_body ivk e)"
  unfolding appends_def [of "invoke_body ivk e"]
proof (intro allI)
  fix name args u s
  assume ivk: "appends ivk"
  have "prefix (audit_rows s) (audit_rows s1)" if "call_handler ivk e name a u s = (r, s1)" for a r s1
    using handler_appends [OF ivk, of s e name a u] that by simp
  then show "prefix (audit_rows s) (audit_rows (snd (invoke_body ivk e name args u s)))"
    by (auto simp: invoke_body_def audit_rows_write intro: prefix_prefix split: option.split prod.split sum.split)
qed

lemma invoke_tool_appends: "appends (invoke_tool n e)"
  by (induction n) (simp_all add: invoke_body_appends, simp add: appends_def)

lemma sanitize_only_sees_others:
  "map fst a = map fst b \<Longrightarrow> filter (\<lambda>(k, _). \<not> sensitive k) a = filter (\<lambda>(k, _). \<not> sensitive k) b \<Longrightarrow>
   sanitize_arguments a = sanitize_arguments b"
proof (induction a arbitrary: b)
  case (Cons p a)
  then obtain k v w b' where "p = (k, v)" "b = (k, w) # b'" by (cases p; cases b) auto
  with Cons show ?case by (auto simp: sanitize_arguments_def split: if_splits)
qed (simp add: sanitize_arguments_def)


definition demo_env :: tool_env where
  "demo_env = \<lparr>te_now = 100, te_elapsed = (\<lambda>_. 1), te_float = (\<lambda>_. ''0.0''),
     te_coerce = (\<lambda>c _. if c = NoArgsC then Some NoArgs else None), te_invalid = (\<lambda>_ _. ''bad''),
     te_db_ok = True, te_app_name = ''kryvara'', te_version = ''1'', te_app_env = ''test'',
     te_mlflow = False, te_pandas = False, te_rate_limit = True,
     te_predict = (\<lambda>_. Inl (RuntimeError, ''no model'')), te_host = (\<lambda>_ _. Inr PNone), te_github = False\<rparr>"


text \<open>Only the top level is redacted: a secret inside a nested object is written to the log.\<close>

lemma nested_secret_logged:
  "map au_arguments (audit_rows (snd (invoke_tool 1 demo_env ''system_info''
     [(''auth'', PDict [(''password'', PStr ''hunter2'')])] None new_tool_db))) =
   [Some ([CHR 0x7B, CHR 0x22] @ ''auth'' @ [CHR 0x22] @ '': '' @ [CHR 0x7B, CHR 0x22] @ ''password'' @
     [CHR 0x22] @ '': '' @ [CHR 0x22] @ ''hunter2'' @ [CHR 0x22] @ ''}}'')]"
  by code_simp

text \<open>A positive threshold on failures never fires, whatever the log holds; one that is not positive always does.\<close>

lemma fail_count_trigger_ignores_log:
  assumes "jb_trigger j = Some (''tool_fail_count:'' @ str_nat n)"
  shows "evaluate_trigger s j \<longleftrightarrow> n = 0"
proof -
  have part: "py_partition (CHR '':'') (''tool_fail_count:'' @ str_nat n) = (''tool_fail_count'', True, str_nat n)"
    by (simp add: py_partition_def)
  have "evaluate_trigger s j \<longleftrightarrow> int n \<le> 0"
    unfolding evaluate_trigger_def assms option.case part prod.case
    by (simp add: not_success_column_def)
  then show ?thesis by simp
qed

section \<open>Runs of scheduled jobs\<close>

definition keeps_jobs :: "tool_db \<Rightarrow> tool_db \<Rightarrow> bool" where
  "keeps_jobs s s' \<longleftrightarrow> tb_next (td_jobs s) \<le> tb_next (td_jobs s') \<and>
     (\<forall>i j. job_object i s = Some j \<longrightarrow> i < tb_next (td_jobs s) \<longrightarrow>
        (\<exists>j'. job_object i s' = Some j' \<and> jb_tool j' = jb_tool j))"

lemma keeps_jobs_refl [simp]: "keeps_jobs s s"
  by (simp add: keeps_jobs_def)

lemma keeps_jobs_trans: "keeps_jobs s s' \<Longrightarrow> keeps_jobs s' s'' \<Longrightarrow> keeps_jobs s s''"
proof -
  assume a: "keeps_jobs s s'" and b: "keeps_jobs s' s''"
  have "\<exists>j''. job_object i s'' = Some j'' \<and> jb_tool j'' = jb_tool j"
    if j: "job_object i s = Some j" "i < tb_next (td_jobs s)" for i j
  proof -
    from a j obtain j' where "job_object i s' = Some j'" "jb_tool j' = jb_tool j" "i < tb_next (td_jobs s')"
      unfolding keeps_jobs_def by force
    with b show ?thesis unfolding keeps_jobs_def by metis
  qed
  with a b show "keeps_jobs s s''" unfolding keeps_jobs_def by auto
qed

lemma keeps_jobs_same: "td_jobs s' = td_jobs s \<Longrightarrow> td_detached s' = td_detached s \<Longrightarrow> keeps_jobs s s'"
  by (simp add: keeps_jobs_def job_object_def)

lemma keeps_jobs_audit: "keeps_jobs s (write_audit e name args u ok err s)"
  by (rule keeps_jobs_same) (simp_all add: write_audit_def create_audit_entry_def)

lemma keeps_jobs_create: "keeps_jobs s (snd (crud_create_scheduled_job now c uid s))"
  by (auto simp: keeps_jobs_def crud_create_scheduled_job_def tb_insert_def Let_def job_object_def find_append
      mk_job_def split: option.splits)

lemma find_map_same:
  "(\<And>x. idf (f x) = idf x) \<Longrightarrow> List.find (\<lambda>x. idf x = i) (map f xs) = map_option f (List.find (\<lambda>x. idf x = i) xs)"
  by (induction xs) auto

lemma keeps_jobs_update: "keeps_jobs s (snd (update_scheduled_job_run k st t s))"
proof (cases "tb_first (\<lambda>r. jb_id r = k) (td_jobs s)")
  case (Some r)
  define r' where "r' = edit_job_run (st, t) r"
  define f where "f = (\<lambda>x. if jb_id x = k then r' else x)"
  have r: "jb_id r = k" using tb_first_Some [OF Some] by simp
  have r': "jb_id r' = k" "jb_tool r' = jb_tool r"
    using r by (simp_all add: r'_def edit_job_run_def touch_def)
  have idf: "jb_id (f x) = jb_id x" for x using r' by (simp add: f_def)
  have rows: "tb_rows (td_jobs (snd (update_scheduled_job_run k st t s))) = map f (tb_rows (td_jobs s))"
    by (simp add: update_scheduled_job_run_def tb_update_def Some tb_set_def r'_def f_def)
  have rest: "td_detached (snd (update_scheduled_job_run k st t s)) = td_detached s"
    "tb_next (td_jobs (snd (update_scheduled_job_run k st t s))) = tb_next (td_jobs s)"
    by (simp_all add: update_scheduled_job_run_def case_prod_unfold)
  have tool: "jb_tool (f j) = jb_tool j" if "List.find (\<lambda>x. jb_id x = i) (tb_rows (td_jobs s)) = Some j" for i j
  proof (cases "i = k")
    case True
    with that Some have "j = r" by (simp add: tb_first_def)
    with r r' show ?thesis by (simp add: f_def)
  next
    case False
    from that have "jb_id j = i" by (auto simp: find_Some_iff)
    with False show ?thesis by (simp add: f_def)
  qed
  show ?thesis
    by (auto simp: keeps_jobs_def job_object_def find_append rows rest find_map_same [where idf = jb_id and f = f, OF idf] tool split: option.splits)
qed (simp add: update_scheduled_job_run_def tb_update_def)

lemma keeps_jobs_delete: "keeps_jobs s (snd (crud_delete_scheduled_job k s))"
proof (cases "tb_first (\<lambda>r. jb_id r = k) (td_jobs s)")
  case None
  then show ?thesis by (simp add: crud_delete_scheduled_job_def tb_delete_def)
next
  case (Some r)
  let ?rows = "tb_rows (td_jobs s)"
  have r: "jb_id r = k" using tb_first_Some [OF Some] by simp
  have other: "List.find (\<lambda>x. jb_id x = i) (filter (\<lambda>x. jb_id x \<noteq> k) xs) =
      (if i = k then None else List.find (\<lambda>x. jb_id x = i) xs)" for i xs
    by (induction xs) auto
  show ?thesis
    using Some r
    by (auto simp: keeps_jobs_def crud_delete_scheduled_job_def tb_delete_def job_object_def find_append other
        tb_first_def split: option.splits)
qed

lemma other_handlers:
  assumes "name \<noteq> ''run_scheduled_jobs''"
  shows "call_handler ivk e name a u s = call_handler ivk' e name a u s"
  using assms by (simp add: call_handler_def)

lemma other_tools_flat:
  assumes "name \<noteq> ''run_scheduled_jobs''"
  shows "invoke_tool (Suc n) e name args u s = invoke_tool (Suc 0) e name args u s"
  using other_handlers [OF assms, of "invoke_tool n e" e _ _ _ "invoke_tool 0 e"]
  by (simp add: invoke_body_def cong: option.case_cong)

lemma other_tools_keep_jobs:
  assumes "name \<noteq> ''run_scheduled_jobs''"
  shows "keeps_jobs s (snd (invoke_tool (Suc n) e name args u s))"
proof -
  have cat: "keeps_jobs s (s\<lparr>td_catalog := ct\<rparr>)" for ct by (rule keeps_jobs_same) simp_all
  have job: "keeps_jobs s (snd (create_scheduled_job k now c u s))" for k now c
    using keeps_jobs_create [of s now c "map_option usr_id u"]
    by (simp add: create_scheduled_job_def case_prod_unfold)
  have del: "keeps_jobs s (snd (delete_scheduled_job i s))" for i
    using keeps_jobs_delete [of s i]
    by (cases "crud_delete_scheduled_job i s"; cases "fst (crud_delete_scheduled_job i s)")
      (auto simp: delete_scheduled_job_def)
  have h: "keeps_jobs s (snd (call_handler ivk e name a u s))" for ivk a
    using assms job del
    by (cases a) (auto simp: call_handler_def tool_create_dataset_def tool_register_model_def
        tool_create_experiment_def cat split: sum.split prod.split)
  have "keeps_jobs s (snd (invoke_body ivk e name args u s))" for ivk
  proof (cases "get_tool (te_github e) name")
    case (Some t)
    show ?thesis
    proof (cases "parse_args e t args")
      case None
      then show ?thesis by (simp add: invoke_body_def Some keeps_jobs_audit)
    next
      case parsed: (Some a)
      obtain r s1 where q: "call_handler ivk e name a u s = (r, s1)" by fastforce
      with h [of ivk a] have "keeps_jobs s s1" by simp
      then have "keeps_jobs s (write_audit e name args u ok err s1)" for ok err
        by (rule keeps_jobs_trans) (rule keeps_jobs_audit)
      then show ?thesis by (simp add: invoke_body_def Some parsed q split: sum.split)
    qed
  qed (simp add: invoke_body_def)
  then show ?thesis by simp
qed

definition plain_job :: "int \<Rightarrow> tool_db \<Rightarrow> bool" where
  "plain_job i s \<longleftrightarrow> i < tb_next (td_jobs s) \<and>
     (\<exists>j. job_object i s = Some j \<and> jb_tool j \<noteq> ''run_scheduled_jobs'')"

lemma plain_job_kept: "keeps_jobs s s' \<Longrightarrow> plain_job i s \<Longrightarrow> plain_job i s'"
proof -
  assume k: "keeps_jobs s s'" and "plain_job i s"
  then obtain j where j: "job_object i s = Some j" "i < tb_next (td_jobs s)" "jb_tool j \<noteq> ''run_scheduled_jobs''"
    by (auto simp: plain_job_def)
  with k obtain j' where "job_object i s' = Some j'" "jb_tool j' = jb_tool j"
    unfolding keeps_jobs_def by blast
  moreover have "i < tb_next (td_jobs s')" using k j(2) by (auto simp: keeps_jobs_def)
  ultimately show ?thesis using j(3) by (simp add: plain_job_def)
qed

lemma run_job_keeps:
  assumes "jb_tool j \<noteq> ''run_scheduled_jobs''"
  shows "keeps_jobs s (snd (run_job (invoke_tool (Suc n) e) now u j s))"
proof -
  obtain r s1 where q: "invoke_tool (Suc n) e (jb_tool j) (case jb_arguments j of None \<Rightarrow> [] | Some a \<Rightarrow> a) u s = (r, s1)"
    by fastforce
  with other_tools_keep_jobs [OF assms, of s n e "case jb_arguments j of None \<Rightarrow> [] | Some a \<Rightarrow> a" u]
  have "keeps_jobs s s1" by simp
  then have "keeps_jobs s (snd (update_scheduled_job_run i st t s1))" for i st t
    by (rule keeps_jobs_trans) (rule keeps_jobs_update)
  with q show ?thesis by (simp add: run_job_def Let_def del: invoke_tool.simps)
qed

lemma plain_runs_flat:
  "\<forall>i \<in> set ks. plain_job i s \<Longrightarrow>
   run_each (invoke_tool (Suc n) e) now u ks s = run_each (invoke_tool (Suc 0) e) now u ks s"
proof (induction ks arbitrary: s)
  case (Cons i ks)
  then obtain j where j: "job_object i s = Some j" "jb_tool j \<noteq> ''run_scheduled_jobs''"
    by (auto simp: plain_job_def)
  have same: "run_job (invoke_tool (Suc n) e) now u j s = run_job (invoke_tool (Suc 0) e) now u j s"
    unfolding run_job_def other_tools_flat [OF j(2), of n e] ..
  obtain r s1 where q: "run_job (invoke_tool (Suc 0) e) now u j s = (r, s1)" by fastforce
  with run_job_keeps [OF j(2), of s 0 e now u] have "keeps_jobs s s1" by simp
  with Cons.prems have "\<forall>k \<in> set ks. plain_job k s1" using plain_job_kept by auto
  from Cons.IH [OF this] show ?case by (simp add: j(1) same q del: invoke_tool.simps)
qed simp

text \<open>
  C8. Running the due jobs ends, and without the help of the recursion limit: when no job of the table
  names the tool that runs the jobs, two levels of invocation are enough, and any further room
  changes neither the replies nor the state, whatever the jobs themselves create, edit or delete.
\<close>

theorem scheduled_runs_end:
  assumes "tb_wf jb_id (td_jobs s)"
    and "filter (\<lambda>j. jb_tool j = ''run_scheduled_jobs'') (tb_rows (td_jobs s)) = []"
  shows "invoke_tool (Suc (Suc n)) e name args u s = invoke_tool 2 e name args u s"
proof (cases "name = ''run_scheduled_jobs''")
  case False
  then show ?thesis
    using other_tools_flat [OF False, of "Suc n"] other_tools_flat [OF False, of 1]
    by (simp add: numeral_2_eq_2 del: invoke_tool.simps)
next
  case True
  have "plain_job i s" if i: "i \<in> set (map jb_id (crud_list_scheduled_jobs 0 1000 s))" for i
  proof -
    from i obtain j where j: "j \<in> set (tb_rows (td_jobs s))" "jb_id j = i"
      by (auto simp: crud_list_scheduled_jobs_def dest: in_set_page)
    then have "tb_first (\<lambda>r. jb_id r = i) (td_jobs s) = Some j" using tb_first_id [OF assms(1)] by blast
    then have "job_object i s = Some j" by (simp add: job_object_def find_append tb_first_def)
    moreover have "jb_tool j \<noteq> ''run_scheduled_jobs''" using j(1) assms(2) by (auto simp: filter_empty_conv)
    moreover have "i < tb_next (td_jobs s)" using assms(1) j by (auto simp: tb_wf_def)
    ultimately show ?thesis by (auto simp: plain_job_def)
  qed
  then have "run_due_jobs (invoke_tool (Suc n) e) now u s = run_due_jobs (invoke_tool (Suc 0) e) now u s" for now
    unfolding run_due_jobs_def by (intro plain_runs_flat ballI) simp
  then have "call_handler (invoke_tool (Suc n) e) e name a u s = call_handler (invoke_tool (Suc 0) e) e name a u s" for a
    by (simp add: True call_handler_def run_scheduled_jobs_def)
  then have "invoke_body (invoke_tool (Suc n) e) e name args u s = invoke_body (invoke_tool (Suc 0) e) e name args u s"
    by (simp add: invoke_body_def del: invoke_tool.simps cong: option.case_cong)
  then show ?thesis by (simp add: numeral_2_eq_2)
qed

definition demo_jobs :: "string \<Rightarrow> tool_db" where
  "demo_jobs tool = new_tool_db\<lparr>td_jobs := \<lparr>tb_rows = [mk_job (1, \<lparr>jc_name = ''nightly'', jc_tool = tool,
     jc_arguments = [], jc_interval = 60, jc_enabled = True\<rparr>, None) 1], tb_next = 2\<rparr>\<rparr>"

theorem scheduled_runs_end_witness:
  "invoke_tool 9 demo_env ''run_scheduled_jobs'' [] None (demo_jobs ''system_info'') =
     invoke_tool 2 demo_env ''run_scheduled_jobs'' [] None (demo_jobs ''system_info'')"
proof -
  have wf: "tb_wf jb_id (td_jobs (demo_jobs ''system_info''))"
    and plain: "filter (\<lambda>j. jb_tool j = ''run_scheduled_jobs'') (tb_rows (td_jobs (demo_jobs ''system_info''))) = []"
    by (simp_all add: demo_jobs_def tb_wf_def mk_job_def)
  from scheduled_runs_end [OF wf plain, of 7 demo_env "''run_scheduled_jobs''" "[]" None] show ?thesis
    by (simp del: invoke_tool.simps add: eval_nat_numeral)
qed

text \<open>
  A due job that names the tool that runs the due jobs is started again by the run it starts,
  because its last run is recorded only after it: the nesting uses up every level there is, and one
  invocation is logged for each.
\<close>

theorem self_scheduling_exhausts_recursion:
  assumes "tb_rows (td_jobs s) = [j]" and "jb_tool j = ''run_scheduled_jobs''" and "jb_enabled j"
    and "jb_last_run j = None" and "te_coerce e NoArgsC = (\<lambda>_. Some NoArgs)"
  shows "length (audit_rows (snd (invoke_tool n e ''run_scheduled_jobs'' args u s))) = length (audit_rows s) + n"
proof (induction n arbitrary: args)
  case (Suc n)
  have tool: "get_tool (te_github e) ''run_scheduled_jobs'' = Some (tool_entry ''run_scheduled_jobs'' NoArgsC False)"
    by (simp add: get_tool_def TOOLS_def builtin_tools_def tool_entry_def)
  have parse: "parse_args e (tool_entry ''run_scheduled_jobs'' NoArgsC False) args = Some NoArgs"
    by (simp add: parse_args_def tool_entry_def assms(5))
  let ?args = "case jb_arguments j of None \<Rightarrow> [] | Some a \<Rightarrow> a"
  obtain r s1 where q: "invoke_tool n e ''run_scheduled_jobs'' ?args u s = (r, s1)" by fastforce
  have due: "due_by_interval (te_now e) j" by (simp add: due_by_interval_def assms(4))
  have obj: "job_object (jb_id j) s = Some j" by (simp add: job_object_def assms(1))
  have run: "audit_rows (snd (run_job (invoke_tool n e) (te_now e) u j s)) = audit_rows s1"
    by (simp add: run_job_def assms(2,3) due q Let_def)
  have "map jb_id (crud_list_scheduled_jobs 0 1000 s) = [jb_id j]"
    by (simp add: crud_list_scheduled_jobs_def tb_page_def assms(1))
  then have "audit_rows (snd (call_handler (invoke_tool n e) e ''run_scheduled_jobs'' NoArgs u s)) = audit_rows s1"
    using run by (simp add: call_handler_def run_scheduled_jobs_def run_due_jobs_def obj case_prod_unfold)
  moreover obtain q' s2 where h: "call_handler (invoke_tool n e) e ''run_scheduled_jobs'' NoArgs u s = (q', s2)"
    by fastforce
  ultimately have "audit_rows s2 = audit_rows s1" by simp
  moreover have "length (audit_rows s1) = length (audit_rows s) + n"
    using Suc.IH [of ?args] q by simp
  moreover have "snd (invoke_tool (Suc n) e ''run_scheduled_jobs'' args u s) =
      (case q' of Inl err \<Rightarrow> write_audit e ''run_scheduled_jobs'' args u False (Some (exn_name (fst err) @ '': '' @ snd err)) s2
       | Inr _ \<Rightarrow> write_audit e ''run_scheduled_jobs'' args u True None s2)"
    by (simp add: invoke_body_def tool parse h split: sum.split)
  ultimately show ?case by (simp add: audit_rows_write split: sum.split)
qed simp

theorem self_scheduling_exhausts_recursion_witness:
  "length (audit_rows (snd (invoke_tool 50 (demo_env\<lparr>te_coerce := (\<lambda>_ _. Some NoArgs)\<rparr>) ''run_scheduled_jobs'' [] None
     (demo_jobs ''run_scheduled_jobs'')))) = 50"
proof -
  let ?j = "mk_job (1, \<lparr>jc_name = ''nightly'', jc_tool = ''run_scheduled_jobs'',
     jc_arguments = [], jc_interval = 60, jc_enabled = True\<rparr>, None) 1"
  have "tb_rows (td_jobs (demo_jobs ''run_scheduled_jobs'')) = [?j]" by (simp add: demo_jobs_def)
  from self_scheduling_exhausts_recursion [OF this, of "demo_env\<lparr>te_coerce := (\<lambda>_ _. Some NoArgs)\<rparr>" 50 "[]" None]
  show ?thesis by (simp add: mk_job_def demo_jobs_def new_tool_db_def new_table_def)
qed

end
