(* ===== verification/Computer.thy ===== *)
theory Computer
  imports PyRegex Tools
begin

text \<open>
  The host tools of \<open>src/agent/computer.py\<close> on a POSIX host: the policy on shell commands, the scoping of
  paths, and the shell, file, directory and process tools. The operating system is a parameter: the
  symbolic links and the resolution of a path, reading, writing and listing, running a process, the
  remote sandbox. Absolute paths are lists of components; the contents of a
  file are its bytes, written as characters.
\<close>

section \<open>Command policy\<close>

definition rx_not_sep :: rx where
  "rx_not_sep = Star (Chars [(0, 37), (39, 58), (60, 123), (125, 255)])"

definition rx_blank :: rx where
  "rx_blank = plus (Chars rx_space)"

definition rx_letter :: rx where
  "rx_letter = Chars [(97, 122)]"

definition rx_token :: "string \<Rightarrow> rx" where
  "rx_token w = cat [Boundary, Lit w, Boundary]"

definition BLOCKED_PATTERNS :: "rx list" where
  "BLOCKED_PATTERNS =
     [cat [Lit ''rm'', rx_blank, rx_not_sep, Lit ''-'', Star rx_letter, Lit ''r''],
      rx_token ''mkfs'',
      cat [Boundary, Lit ''dd'', rx_blank, rx_not_sep, Lit ''of=/dev/''],
      cat [Lit '':()'', Star (Chars rx_space), Lit ''{'', Star (Chars rx_space), Lit '':'',
           Star (Chars rx_space), Lit ''|'', Star (Chars rx_space), Lit '':''],
      rx_token ''shutdown'', rx_token ''reboot'', rx_token ''halt'', rx_token ''poweroff'',
      cat [Boundary, Lit ''format'', rx_blank, rx_letter, Lit '':''],
      cat [Lit ''del'', rx_blank, Lit ''/s'', rx_not_sep, Lit ([CHR 0x5C, CHR 0x5C] @ ''windows'')],
      cat [Lit ''rd'', rx_blank, Lit ''/s'', rx_not_sep, Lit ([CHR 0x5C, CHR 0x5C] @ ''windows'')],
      cat [Boundary, Lit ''reg'', rx_blank, Lit ''delete'', rx_blank, Lit ''HKLM'']]"

definition shell_metachars :: string where
  "shell_metachars = ''|&;<>'' @ [CHR 0x60] @ ''$()'' @ [CHR 0x0A, CHR 0x0D]"

definition check_command :: "string \<Rightarrow> tool_err + unit" where
  "check_command command =
     (let lowered = py_lower (py_strip command)
      in if list_ex (\<lambda>p. rx_search p lowered) BLOCKED_PATTERNS
           then Inl (ForbiddenError, ''Command blocked by destructive-pattern policy'')
         else if list_ex (\<lambda>c. c \<in> set shell_metachars) command
           then Inl (ForbiddenError, ''Shell metacharacters are not allowed; use a single command with arguments'')
         else Inr ())"

section \<open>Paths\<close>

type_synonym comps = "string list"

datatype read_result = ReadOk string | ReadMissing | ReadFailed string

datatype proc_result = ProcTimeout | ProcDone int string string | ProcRaised tool_err

record entry =
  en_name :: string
  en_path :: comps
  en_dir :: bool
  en_size :: nat

text \<open>
  The iterator over a directory yields entries, \<open>None\<close> for one whose status cannot be read, and may
  raise at its end. The operations on files change an abstract state.
\<close>

record 'fs host =
  ho_root :: comps
  ho_temp :: comps
  ho_extra :: string
  ho_symlink :: "comps \<Rightarrow> bool"
  ho_resolve :: "comps \<Rightarrow> comps"
  ho_read :: "comps \<Rightarrow> 'fs \<Rightarrow> read_result"
  ho_write :: "bool \<Rightarrow> comps \<Rightarrow> string \<Rightarrow> 'fs \<Rightarrow> string option \<times> 'fs"
  ho_is_dir :: "comps \<Rightarrow> 'fs \<Rightarrow> bool"
  ho_entries :: "bool \<Rightarrow> comps \<Rightarrow> 'fs \<Rightarrow> entry option list \<times> tool_err option"
  ho_decode :: "string \<Rightarrow> string"
  ho_exec :: "string \<Rightarrow> comps \<Rightarrow> int \<Rightarrow> 'fs \<Rightarrow> proc_result \<times> 'fs"
  ho_ps :: "proc_result"
  ho_kill :: "int \<Rightarrow> proc_result"
  ho_pid :: int
  ho_e2b_enabled :: bool
  ho_e2b_available :: bool
  ho_e2b :: "string \<Rightarrow> string \<Rightarrow> int \<Rightarrow> tool_err + (bool \<times> int \<times> string \<times> string \<times> rat)"

text \<open>A path is relative, absolute, or absolute with the root \<open>//\<close>, which \<open>pathlib\<close> keeps apart.\<close>

datatype ppath = Rel comps | Abs comps | Abs2 comps

definition path_parts :: "string \<Rightarrow> comps" where
  "path_parts s = filter (\<lambda>p. p \<noteq> [] \<and> p \<noteq> ''.'') (split_slash s)"

definition parse_path :: "string \<Rightarrow> ppath" where
  "parse_path s =
     (if prefix ''//'' s \<and> \<not> prefix ''///'' s then Abs2 (path_parts s)
      else if prefix ''/'' s then Abs (path_parts s) else Rel (path_parts s))"

definition join_path :: "comps \<Rightarrow> string" where
  "join_path p = (if p = [] then ''/'' else concat (map (\<lambda>c. CHR ''/'' # c) p))"

fun split_roots :: "string \<Rightarrow> string list" where
  "split_roots [] = [[]]"
| "split_roots (c # s) =
     (if c = CHR '':'' \<or> c = CHR 0x0A then [] # split_roots s
      else case split_roots s of y # ys \<Rightarrow> (c # y) # ys | [] \<Rightarrow> [[c]])"

text \<open>Relative extra roots are resolved against the working directory, which is the project's here.\<close>

definition absolute :: "'fs host \<Rightarrow> ppath \<Rightarrow> comps" where
  "absolute h p = (case p of Rel q \<Rightarrow> ho_root h @ q | Abs q \<Rightarrow> q | Abs2 q \<Rightarrow> q)"

definition file_roots :: "'fs host \<Rightarrow> comps list" where
  "file_roots h =
     [ho_root h, ho_resolve h (ho_temp h)] @
     map (\<lambda>p. ho_resolve h (absolute h (parse_path p)))
       (filter (\<lambda>p. p \<noteq> []) (map py_strip (split_roots (ho_extra h))))"

text \<open>
  \<open>relative_to\<close> compares the components, and a path with the root \<open>//\<close> is relative to none of the
  roots; the links below the first root that contains the path are looked at one by one.
\<close>

definition has_symlink :: "'fs host \<Rightarrow> comps \<Rightarrow> comps \<Rightarrow> bool" where
  "has_symlink h r q = list_ex (\<lambda>n. ho_symlink h (r @ take n (drop (length r) q)))
     [1..<Suc (length q - length r)]"

definition resolve_scoped :: "'fs host \<Rightarrow> string \<Rightarrow> tool_err + comps" where
  "resolve_scoped h s =
     (let p = parse_path s;
          linked = (case p of
              Abs2 _ \<Rightarrow> False
            | _ \<Rightarrow> (case List.find (\<lambda>r. prefix r (absolute h p)) (file_roots h) of
                 None \<Rightarrow> False | Some r \<Rightarrow> has_symlink h r (absolute h p)))
      in if linked then Inl (ForbiddenError, ''Symlinks are not allowed in paths: '' @ s)
         else
           (let path = ho_resolve h (absolute h p)
            in if list_ex (\<lambda>r. prefix r path) (file_roots h) then Inr path
               else Inl (ForbiddenError, ''Path outside allowed file roots: '' @ s)))"

section \<open>Tools\<close>

definition max_output_chars :: nat where
  "max_output_chars = 8000"

definition truncate_output :: "string \<Rightarrow> string \<times> bool" where
  "truncate_output t =
     (if max_output_chars < length t then (drop (length t - max_output_chars) t, True) else (t, False))"

text \<open>What a run reports: time-out, or the exit code with both truncated streams, and the sandbox time.\<close>

record shell_reply =
  sh_timed_out :: bool
  sh_timeout :: "int option"
  sh_returncode :: "int option"
  sh_stdout :: "(string \<times> bool) option"
  sh_stderr :: "(string \<times> bool) option"
  sh_sandbox_ms :: "rat option"

definition run_shell_host ::
    "'fs host \<Rightarrow> string \<Rightarrow> string option \<Rightarrow> int \<Rightarrow> 'fs \<Rightarrow> (tool_err + shell_reply) \<times> 'fs" where
  "run_shell_host h command workdir timeout s =
     (case check_command command of
        Inl e \<Rightarrow> (Inl e, s)
      | Inr _ \<Rightarrow>
          (case (case workdir of None \<Rightarrow> Inr (ho_root h) | Some w \<Rightarrow> if w = [] then Inr (ho_root h) else resolve_scoped h w) of
             Inl e \<Rightarrow> (Inl e, s)
           | Inr cwd \<Rightarrow>
               (case ho_exec h command cwd timeout s of
                  (ProcTimeout, s') \<Rightarrow>
                    (Inr \<lparr>sh_timed_out = True, sh_timeout = Some timeout, sh_returncode = None,
                          sh_stdout = None, sh_stderr = None, sh_sandbox_ms = None\<rparr>, s')
                | (ProcDone rc out err, s') \<Rightarrow>
                    (Inr \<lparr>sh_timed_out = False, sh_timeout = None, sh_returncode = Some rc,
                          sh_stdout = Some (truncate_output out), sh_stderr = Some (truncate_output err),
                          sh_sandbox_ms = None\<rparr>, s')
                | (ProcRaised e, s') \<Rightarrow> (Inl e, s'))))"

definition sandbox_cwd :: "'fs host \<Rightarrow> comps \<Rightarrow> string" where
  "sandbox_cwd h p =
     (if prefix (ho_root h) p
      then (let rel = drop (length (ho_root h)) p
            in ''/home/user/'' @ (if rel = [] then ''.'' else tl (join_path rel)))
      else ''/home/user'')"

text \<open>The sandbox runs the command as it is: the command policy is only applied on the host.\<close>

definition run_shell_e2b ::
    "'fs host \<Rightarrow> string \<Rightarrow> string option \<Rightarrow> int \<Rightarrow> tool_err + shell_reply" where
  "run_shell_e2b h command workdir timeout =
     (if \<not> ho_e2b_available h then Inl (RuntimeError, ''E2B sandbox not available'')
      else
        (case (case workdir of None \<Rightarrow> Inr ''/home/user'' | Some w \<Rightarrow>
                 if w = [] then Inr ''/home/user'' else map_sum id (sandbox_cwd h) (resolve_scoped h w)) of
           Inl e \<Rightarrow> Inl e
         | Inr cwd \<Rightarrow>
             (case ho_e2b h command cwd timeout of
                Inl e \<Rightarrow> Inl e
              | Inr (late, rc, out, err, ms) \<Rightarrow>
                  Inr \<lparr>sh_timed_out = late, sh_timeout = (if late then Some timeout else None),
                       sh_returncode = Some rc, sh_stdout = Some (truncate_output out),
                       sh_stderr = Some (truncate_output err), sh_sandbox_ms = Some ms\<rparr>)))"

definition run_shell ::
    "'fs host \<Rightarrow> string \<Rightarrow> string option \<Rightarrow> int \<Rightarrow> 'fs \<Rightarrow> (tool_err + shell_reply) \<times> 'fs" where
  "run_shell h command workdir timeout s =
     (if ho_e2b_enabled h then
        (case run_shell_e2b h command workdir timeout of
           Inr r \<Rightarrow> (Inr r, s)
         | Inl e \<Rightarrow> if fst e = RuntimeError then run_shell_host h command workdir timeout s else (Inl e, s))
      else run_shell_host h command workdir timeout s)"

record file_reply =
  fr_path :: comps
  fr_size :: nat
  fr_content :: string
  fr_truncated :: bool

definition read_file :: "'fs host \<Rightarrow> string \<Rightarrow> int \<Rightarrow> 'fs \<Rightarrow> tool_err + file_reply" where
  "read_file h p max_bytes s =
     (case resolve_scoped h p of
        Inl e \<Rightarrow> Inl e
      | Inr path \<Rightarrow>
          (case ho_read h path s of
             ReadMissing \<Rightarrow> Inl (NotFoundError, ''File not found: '' @ p)
           | ReadFailed t \<Rightarrow> Inl (ServiceUnavailableError, ''Cannot read file: '' @ t)
           | ReadOk raw \<Rightarrow>
               Inr \<lparr>fr_path = path, fr_size = length raw, fr_content = ho_decode h (take (nat max_bytes) raw),
                    fr_truncated = max_bytes < int (length raw)\<rparr>))"

definition write_file ::
    "'fs host \<Rightarrow> string \<Rightarrow> string \<Rightarrow> bool \<Rightarrow> 'fs \<Rightarrow> (tool_err + comps \<times> nat) \<times> 'fs" where
  "write_file h p content create_dirs s =
     (case resolve_scoped h p of
        Inl e \<Rightarrow> (Inl e, s)
      | Inr path \<Rightarrow>
          (let data = utf8 content
           in case ho_write h create_dirs path data s of
                (Some t, s') \<Rightarrow> (Inl (ServiceUnavailableError, ''Cannot write file: '' @ t), s')
              | (None, s') \<Rightarrow> (Inr (path, length data), s')))"

fun list_entries :: "nat \<Rightarrow> entry option list \<Rightarrow> tool_err option \<Rightarrow> entry list \<Rightarrow> tool_err + entry list" where
  "list_entries cap [] final acc = (case final of None \<Rightarrow> Inr acc | Some e \<Rightarrow> Inl e)"
| "list_entries cap (x # xs) final acc =
     (if cap \<le> length acc then Inr acc
      else case x of None \<Rightarrow> list_entries cap xs final acc | Some e \<Rightarrow> list_entries cap xs final (acc @ [e]))"

definition list_dir :: "'fs host \<Rightarrow> string \<Rightarrow> bool \<Rightarrow> 'fs \<Rightarrow> tool_err + comps \<times> entry list \<times> nat" where
  "list_dir h p recursive s =
     (case resolve_scoped h p of
        Inl e \<Rightarrow> Inl e
      | Inr dir \<Rightarrow>
          if \<not> ho_is_dir h dir s then Inl (NotFoundError, ''Directory not found: '' @ p)
          else case ho_entries h recursive dir s of
            (items, final) \<Rightarrow>
              map_sum id (\<lambda>es. (dir, es, length es)) (list_entries 500 items final []))"


section \<open>Processes\<close>

text \<open>\<open>str.splitlines\<close>, and \<open>line.split(None, 1)\<close> on a line that has two fields.\<close>

definition line_break :: "char \<Rightarrow> bool" where
  "line_break c = (let n = of_char c :: nat in n = 10 \<or> n = 11 \<or> n = 12 \<or> n = 13 \<or> (28 \<le> n \<and> n \<le> 30) \<or> n = 133)"

fun splitlines_acc :: "string \<Rightarrow> string \<Rightarrow> string list" where
  "splitlines_acc acc [] = (if acc = [] then [] else [rev acc])"
| "splitlines_acc acc [c] = (if line_break c then [rev acc] else [rev (c # acc)])"
| "splitlines_acc acc (c # d # s) =
     (if c = CHR 0x0D \<and> d = CHR 0x0A then rev acc # splitlines_acc [] s
      else if line_break c then rev acc # splitlines_acc [] (d # s)
      else splitlines_acc (c # acc) (d # s))"

definition split_two :: "string \<Rightarrow> (string \<times> string) option" where
  "split_two line =
     (let t = dropWhile py_space line; a = takeWhile (\<lambda>c. \<not> py_space c) t;
          rest = dropWhile py_space (drop (length a) t)
      in if a = [] \<or> rest = [] then None else Some (a, rest))"

text \<open>A process identifier of digits that \<open>int\<close> cannot read (a superscript) raises.\<close>

fun parse_ps :: "string list \<Rightarrow> exn + (int \<times> string) list" where
  "parse_ps [] = Inr []"
| "parse_ps (l # ls) =
     (case split_two l of
        None \<Rightarrow> parse_ps ls
      | Some (a, name) \<Rightarrow>
          if list_all str_isdigit a then
            (case py_int a of
               None \<Rightarrow> Inl ValueError
             | Some pid \<Rightarrow> map_sum id (\<lambda>ps. (pid, name) # ps) (parse_ps ls))
          else parse_ps ls)"

definition process_list :: "'fs host \<Rightarrow> tool_err + (int \<times> string) list \<times> nat" where
  "process_list h =
     (case ho_ps h of
        ProcTimeout \<Rightarrow> Inl (ServiceUnavailableError, ''Cannot list processes'')
      | ProcRaised e \<Rightarrow> Inl (ServiceUnavailableError, ''Cannot list processes: '' @ snd e)
      | ProcDone _ out _ \<Rightarrow>
          (case parse_ps (drop 1 (splitlines_acc [] out)) of
             Inl e \<Rightarrow> Inl (e, ''invalid literal for int() with base 10'')
           | Inr ps \<Rightarrow> Inr (take 500 ps, length (take 500 ps))))"

definition process_kill :: "'fs host \<Rightarrow> int \<Rightarrow> tool_err + int" where
  "process_kill h pid =
     (if pid \<le> 4 \<or> pid = ho_pid h
      then Inl (ForbiddenError, ''Refusing to kill protected pid '' @ str_int pid)
      else case ho_kill h pid of
          ProcTimeout \<Rightarrow> Inl (ServiceUnavailableError, ''Cannot kill process'')
        | ProcRaised e \<Rightarrow> Inl (ServiceUnavailableError, ''Cannot kill process: '' @ snd e)
        | ProcDone rc out err \<Rightarrow>
            if rc \<noteq> 0
            then Inl (ServiceUnavailableError, ''Kill failed for pid '' @ str_int pid @ '': '' @
                   take 500 (py_strip (if err = [] then out else err)))
            else Inr pid)"

section \<open>Searching inside a text\<close>

lemma ends_Lit: "s = pre @ w @ post \<Longrightarrow> length pre = i \<Longrightarrow> i + length w \<in> set (ends (Lit w) s i)"
  by auto

lemma ends_Seq: "j \<in> set (ends r s i) \<Longrightarrow> k \<in> set (ends q s j) \<Longrightarrow> k \<in> set (ends (Seq r q) s i)"
  by auto

lemma ends_Chars: "i < length s \<Longrightarrow> code_in rs (s ! i) \<Longrightarrow> Suc i \<in> set (ends (Chars rs) s i)"
  by simp

lemma rx_searchI: "j \<in> set (ends r s i) \<Longrightarrow> i \<le> length s \<Longrightarrow> rx_search r s"
  unfolding rx_search_def list_ex_iff by (intro bexI [of _ i]) auto

text \<open>A recursive removal spelled with one blank and the option first is recognised anywhere.\<close>

lemma rm_rf_blocked:
  assumes "py_in ''rm -r'' (py_lower (py_strip command))"
  shows "check_command command = Inl (ForbiddenError, ''Command blocked by destructive-pattern policy'')"
proof -
  let ?s = "py_lower (py_strip command)"
  obtain pre post where s: "?s = pre @ ''rm -r'' @ post"
    using assms unfolding py_in_sublist sublist_def by blast
  let ?i = "length pre"
  have "?i + 2 \<in> set (ends (Lit ''rm'') ?s ?i)" using ends_Lit [of ?s pre "''rm''" "'' -r'' @ post" ?i] s by simp
  moreover have "?i + 3 \<in> set (ends rx_blank ?s (?i + 2))"
  proof -
    have "Suc (?i + 2) \<in> set (ends (Chars rx_space) ?s (?i + 2))"
      by (rule ends_Chars) (simp_all add: s nth_append rx_space_def code_in_def)
    moreover have "Suc (?i + 2) \<in> set (ends (Star (Chars rx_space)) ?s (Suc (?i + 2)))" by (rule star_zero)
    ultimately have "Suc (?i + 2) \<in> set (ends rx_blank ?s (?i + 2))" unfolding rx_blank_def by (rule ends_Seq)
    then show ?thesis by (simp add: eval_nat_numeral)
  qed
  moreover have "?i + 3 \<in> set (ends rx_not_sep ?s (?i + 3))" unfolding rx_not_sep_def by (rule star_zero)
  moreover have "?i + 4 \<in> set (ends (Lit ''-'') ?s (?i + 3))"
    using ends_Lit [of ?s "pre @ ''rm ''" "''-''" "''r'' @ post" "?i + 3"] s by simp
  moreover have "?i + 4 \<in> set (ends (Star rx_letter) ?s (?i + 4))" by (rule star_zero)
  moreover have "?i + 5 \<in> set (ends (Lit ''r'') ?s (?i + 4))"
    using ends_Lit [of ?s "pre @ ''rm -''" "''r''" post "?i + 4"] s by simp
  moreover have "?i + 5 \<in> set (ends Eps ?s (?i + 5))" by simp
  ultimately have "?i + 5 \<in> set (ends (hd BLOCKED_PATTERNS) ?s ?i)"
    unfolding BLOCKED_PATTERNS_def list.sel foldr.simps comp_apply id_apply by (blast intro: ends_Seq)
  then have "rx_search (hd BLOCKED_PATTERNS) ?s" by (rule rx_searchI) (simp add: s)
  moreover have "hd BLOCKED_PATTERNS \<in> set BLOCKED_PATTERNS" by (simp add: BLOCKED_PATTERNS_def)
  ultimately show ?thesis by (auto simp: check_command_def Let_def list_ex_iff)
qed

text \<open>
  C39. Writing changes the state of the files only through a path that lies below an allowed root after
  resolution, and then stores exactly the UTF-8 bytes of the content there; any other path is refused
  and nothing happens.
\<close>

theorem writes_stay_inside_roots:
  "snd (write_file h p content create_dirs s) = s \<or>
   (\<exists>path. list_ex (\<lambda>r. prefix r path) (file_roots h) \<and> resolve_scoped h p = Inr path \<and>
      snd (write_file h p content create_dirs s) = snd (ho_write h create_dirs path (utf8 content) s))"
proof (cases "resolve_scoped h p")
  case (Inl e)
  then show ?thesis by (simp add: write_file_def)
next
  case (Inr path)
  then have "list_ex (\<lambda>r. prefix r path) (file_roots h)"
    by (auto simp: resolve_scoped_def Let_def split: if_splits)
  moreover have "snd (write_file h p content create_dirs s) = snd (ho_write h create_dirs path (utf8 content) s)"
    by (simp add: write_file_def Inr Let_def split: prod.split option.split)
  ultimately show ?thesis using Inr by blast
qed

lemma check_command_ok:
  assumes "check_command command = Inr ()"
  shows "filter (\<lambda>c. c \<in> set shell_metachars) command = []" and "\<not> py_in ''rm -r'' (py_lower (py_strip command))"
proof -
  show "filter (\<lambda>c. c \<in> set shell_metachars) command = []"
    using assms by (auto simp: check_command_def Let_def list_ex_iff filter_empty_conv split: if_splits)
  show "\<not> py_in ''rm -r'' (py_lower (py_strip command))"
    using assms rm_rf_blocked by fastforce
qed

lemma resolve_scoped_inside: "resolve_scoped h w = Inr p \<Longrightarrow> list_ex (\<lambda>r. prefix r p) (file_roots h)"
  by (auto simp: resolve_scoped_def Let_def split: if_splits)

lemma run_shell_host_effect:
  "snd (run_shell_host h command workdir timeout s) = s \<or>
   (\<exists>cwd. check_command command = Inr () \<and> list_ex (\<lambda>r. prefix r cwd) (file_roots h) \<and>
      snd (run_shell_host h command workdir timeout s) = snd (ho_exec h command cwd timeout s))"
proof (cases "check_command command")
  case (Inr u)
  define dir where "dir = (case workdir of None \<Rightarrow> Inr (ho_root h) | Some w \<Rightarrow> if w = [] then Inr (ho_root h) else resolve_scoped h w)"
  show ?thesis
  proof (cases dir)
    case (Inl e)
    then show ?thesis using Inr by (simp add: run_shell_host_def dir_def)
  next
    case cwd: (Inr cwd)
    have "list_ex (\<lambda>r. prefix r cwd) (file_roots h)"
      using cwd resolve_scoped_inside
      by (auto simp: dir_def file_roots_def split: option.splits if_splits)
    moreover have "snd (run_shell_host h command workdir timeout s) = snd (ho_exec h command cwd timeout s)"
      using Inr cwd by (simp add: run_shell_host_def dir_def split: prod.split proc_result.split)
    ultimately show ?thesis using Inr by auto
  qed
qed (simp add: run_shell_host_def)


text \<open>
  Three rules are idle: the command is lowered before it is compared with the upper-case hive, and the
  patterns for the Windows directory ask for two backslashes in a row.
\<close>

lemma rx_search_SeqD: "rx_search (Seq r q) s \<Longrightarrow> rx_search q s"
proof -
  assume "rx_search (Seq r q) s"
  then obtain i where i: "i \<le> length s" "ends (Seq r q) s i \<noteq> []"
    by (auto simp: rx_search_def list_ex_iff less_Suc_eq_le simp del: upt_Suc ends.simps)
  then obtain j where j: "j \<in> set (ends r s i)" "ends q s j \<noteq> []"
    by (auto simp: concat_eq_Nil_conv)
  then have "hd (ends q s j) \<in> set (ends q s j)" by simp
  then show ?thesis by (rule rx_searchI) (use ends_bounds [OF i(1) j(1)] in simp)
qed

lemma rx_search_Seq_Eps: "rx_search (Seq (Lit w) Eps) s \<Longrightarrow> py_in w s"
proof -
  assume "rx_search (Seq (Lit w) Eps) s"
  then obtain i where "i \<le> length s" "ends (Lit w) s i \<noteq> []"
    by (auto simp: rx_search_def list_ex_iff less_Suc_eq_le concat_eq_Nil_conv simp del: upt_Suc split: if_splits)
  then have "rx_search (Lit w) s" by (metis last_in_set rx_searchI)
  then show ?thesis by simp
qed

lemma lowered_has_no_capital:
  assumes "65 \<le> (of_char c :: nat)" and "(of_char c :: nat) \<le> 90"
  shows "c \<notin> set (py_lower s)"
proof
  assume "c \<in> set (py_lower s)"
  then obtain d where d: "c = py_lower_char d" by (auto simp: py_lower_def)
  show False
  proof (cases "65 \<le> (of_char d :: nat) \<and> (of_char d :: nat) \<le> 90")
    case True
    then have "(of_char c :: nat) = of_char d + 32"
      by (simp add: d py_lower_char_def Let_def take_bit_nat_eq_self)
    with True assms show False by simp
  next
    case False
    with d assms show False by (auto simp: py_lower_char_def Let_def)
  qed
qed

lemma idle_patterns:
  "\<not> rx_search (BLOCKED_PATTERNS ! 11) (py_lower (py_strip command))"
  "rx_search (BLOCKED_PATTERNS ! 9) s \<Longrightarrow> py_in [CHR 0x5C, CHR 0x5C] s"
  "rx_search (BLOCKED_PATTERNS ! 10) s \<Longrightarrow> py_in [CHR 0x5C, CHR 0x5C] s"
proof -
  show "\<not> rx_search (BLOCKED_PATTERNS ! 11) (py_lower (py_strip command))"
  proof
    assume "rx_search (BLOCKED_PATTERNS ! 11) (py_lower (py_strip command))"
    then have "rx_search (cat [Boundary, Lit ''reg'', rx_blank, Lit ''delete'', rx_blank, Lit ''HKLM'']) (py_lower (py_strip command))"
      by (simp add: BLOCKED_PATTERNS_def)
    then have "py_in ''HKLM'' (py_lower (py_strip command))"
      unfolding foldr.simps comp_apply id_apply
      by (intro rx_search_Seq_Eps) (elim rx_search_SeqD [THEN rx_search_SeqD, THEN rx_search_SeqD, THEN rx_search_SeqD, THEN rx_search_SeqD])
    then have "CHR ''H'' \<in> set (py_lower (py_strip command))"
      by (auto simp: py_in_sublist sublist_def)
    then show False using lowered_has_no_capital [of "CHR ''H''"] by simp
  qed
  have two: "py_in [CHR 0x5C, CHR 0x5C] s" if "py_in ([CHR 0x5C, CHR 0x5C] @ ''windows'') s"
    using that by (auto simp: py_in_sublist intro: sublist_order.order_trans [OF _ that [unfolded py_in_sublist]])
  show "py_in [CHR 0x5C, CHR 0x5C] s" if "rx_search (BLOCKED_PATTERNS ! 9) s"
  proof -
    from that have "rx_search (cat [Lit ''del'', rx_blank, Lit ''/s'', rx_not_sep, Lit ([CHR 0x5C, CHR 0x5C] @ ''windows'')]) s"
      by (simp add: BLOCKED_PATTERNS_def)
    then have "py_in ([CHR 0x5C, CHR 0x5C] @ ''windows'') s"
      unfolding foldr.simps comp_apply id_apply
      by (intro rx_search_Seq_Eps) (elim rx_search_SeqD [THEN rx_search_SeqD, THEN rx_search_SeqD, THEN rx_search_SeqD])
    then show ?thesis by (rule two)
  qed
  show "py_in [CHR 0x5C, CHR 0x5C] s" if "rx_search (BLOCKED_PATTERNS ! 10) s"
  proof -
    from that have "rx_search (cat [Lit ''rd'', rx_blank, Lit ''/s'', rx_not_sep, Lit ([CHR 0x5C, CHR 0x5C] @ ''windows'')]) s"
      by (simp add: BLOCKED_PATTERNS_def)
    then have "py_in ([CHR 0x5C, CHR 0x5C] @ ''windows'') s"
      unfolding foldr.simps comp_apply id_apply
      by (intro rx_search_Seq_Eps) (elim rx_search_SeqD [THEN rx_search_SeqD, THEN rx_search_SeqD, THEN rx_search_SeqD])
    then show ?thesis by (rule two)
  qed
qed

text \<open>A path written with two leading slashes skips the inspection of symbolic links.\<close>

lemma double_slash_skips_links:
  "resolve_scoped h (''//tmp/link'') = (let path = ho_resolve h [''tmp'', ''link'']
     in if list_ex (\<lambda>r. prefix r path) (file_roots h) then Inr path
        else Inl (ForbiddenError, ''Path outside allowed file roots: //tmp/link''))"
  by (simp add: resolve_scoped_def parse_path_def path_parts_def absolute_def Let_def)

lemma list_entries_capped:
  "length acc \<le> cap \<Longrightarrow> list_entries cap xs final acc = Inr es \<Longrightarrow> length es \<le> cap \<and>
     es = take cap (acc @ List.map_filter id xs)"
proof (induction cap xs final acc rule: list_entries.induct)
  case (2 cap x xs final acc)
  then show ?case by (cases x) (auto simp: map_filter_simps split: if_splits)
qed (auto simp: map_filter_simps split: option.splits)

end
