(* ===== verification/Aegis.thy ===== *)
theory Aegis
  imports PyRegex "HOL-Library.Word"
begin

text \<open>
  The safety layer of \<open>src/agent/aegis\<close>: the forbidden patterns and the scan of generated code
  (\<open>invariants.py\<close>, \<open>verifier.py\<close>), the address filter against requests into private networks
  (\<open>is_blocked_ip\<close>, with the address syntax of the \<open>ipaddress\<close> module; name resolution is a
  parameter), the approval gate (\<open>gatekeeper.py\<close>) and the resource governor (\<open>governor.py\<close>, the
  readings of \<open>psutil\<close> are arguments).
\<close>

section \<open>Forbidden patterns\<close>

datatype risk_level = CRITICAL | HIGH | MEDIUM | LOW

definition risk_value :: "risk_level \<Rightarrow> nat" where
  "risk_value r = (case r of CRITICAL \<Rightarrow> 3 | HIGH \<Rightarrow> 2 | MEDIUM \<Rightarrow> 1 | LOW \<Rightarrow> 0)"

record safety_invariant =
  inv_name :: string
  inv_pattern :: rx
  inv_risk :: risk_level
  inv_allowed :: "string list option"

definition bslash :: string where
  "bslash = [CHR 0x5C]"

definition rx_number :: rx where
  "rx_number = plus (Chars rx_digit)"

definition rx_rmtree :: rx where
  "rx_rmtree =
     alts [Lit ''shutil.rmtree('',
           cat [Lit ''os.system('', Star Dot, Lit ''rm'', plus (Chars rx_space), Lit ''-rf'']]"

definition rx_system_files :: rx where
  "rx_system_files =
     alts [Lit (''C:'' @ bslash @ ''Windows'' @ bslash), Lit ''/etc/passwd'', Lit ''/etc/shadow'']"

definition rx_shell :: rx where
  "rx_shell =
     alts [cat [Lit ''subprocess.Popen('', Star Dot, Lit ''shell=True'', Star Dot], Lit ''os.popen('']"

definition rx_private_host :: rx where
  "rx_private_host =
     alts [Lit ''internal'', Lit ''localhost'', Lit ''127.0.0.1'',
       cat [Lit ''10.'', rx_number, Lit ''.'', rx_number, Lit ''.'', rx_number],
       cat [Lit ''172.'',
            alts [cat [Lit ''1'', Chars [(54, 57)]], cat [Lit ''2'', Chars rx_digit],
                  cat [Lit ''3'', Chars [(48, 49)]]],
            Lit ''.'', rx_number, Lit ''.'', rx_number],
       cat [Lit ''192.168.'', rx_number, Lit ''.'', rx_number],
       cat [Lit ''169.254.'', rx_number, Lit ''.'', rx_number]]"

definition rx_connection :: rx where
  "rx_connection =
     alts [Lit ''socket.socket('',
           cat [Lit ''requests.'', alts [Lit ''get'', Lit ''post''], Lit ''('', Star Dot, Boundary,
                rx_private_host, Boundary]]"

definition rx_ctypes :: rx where
  "rx_ctypes = alts [Lit ''import ctypes'', Lit ''ctypes.'']"

definition rx_exit :: rx where
  "rx_exit = alts [Lit ''os._exit('', Lit ''sys.exit('']"

definition FORBIDDEN_PATTERNS :: "safety_invariant list" where
  "FORBIDDEN_PATTERNS =
     [\<lparr>inv_name = ''Recursive Delete'', inv_pattern = rx_rmtree, inv_risk = CRITICAL,
        inv_allowed = Some [''C:'' @ bslash @ ''Users'' @ bslash @ ''User'' @ bslash @
          ''KRYVARACODE'' @ bslash @ ''temp'' @ bslash, ''/tmp/'']\<rparr>,
      \<lparr>inv_name = ''System File Access'', inv_pattern = rx_system_files, inv_risk = CRITICAL,
        inv_allowed = None\<rparr>,
      \<lparr>inv_name = ''Arbitrary Remote Shell'', inv_pattern = rx_shell, inv_risk = CRITICAL,
        inv_allowed = None\<rparr>,
      \<lparr>inv_name = ''Unauthorized Socket/Connection'', inv_pattern = rx_connection, inv_risk = HIGH,
        inv_allowed = None\<rparr>,
      \<lparr>inv_name = ''CTypes Memory Access'', inv_pattern = rx_ctypes, inv_risk = HIGH,
        inv_allowed = None\<rparr>,
      \<lparr>inv_name = ''Process Termination'', inv_pattern = rx_exit, inv_risk = MEDIUM,
        inv_allowed = None\<rparr>]"

text \<open>
  A rule is skipped when it has allowed prefixes and the target path is a non-empty string that
  starts with one of them; the path is compared as it is, without normalisation.
\<close>

definition exempt :: "safety_invariant \<Rightarrow> pyval \<Rightarrow> bool" where
  "exempt i target =
     (case (inv_allowed i, target) of
        (Some ps, PStr t) \<Rightarrow> ps \<noteq> [] \<and> t \<noteq> [] \<and> list_ex (\<lambda>p. prefix p t) ps
      | _ \<Rightarrow> False)"

definition check_violation :: "string \<Rightarrow> pyval \<Rightarrow> safety_invariant list" where
  "check_violation code target =
     filter (\<lambda>i. rx_search (inv_pattern i) code \<and> \<not> exempt i target) FORBIDDEN_PATTERNS"

text \<open>
  The metadata of a scan is a dictionary; a missing \<open>target_path\<close> is \<open>None\<close>. The verdict carries the
  violations and the sum of their risk values; the branches on the severity only differ in what is
  logged.
\<close>

definition verify_code :: "string \<Rightarrow> (string, pyval) dict \<Rightarrow> bool \<times> safety_invariant list option \<times> nat"
  where
  "verify_code code metadata =
     (let target = (case dict_get metadata ''target_path'' of None \<Rightarrow> PNone | Some v \<Rightarrow> v);
          violations = check_violation code target
      in if violations = [] then (True, None, 0)
         else (let total = sum_list (map (risk_value \<circ> inv_risk) violations);
                   critical = filter (\<lambda>v. inv_risk v = CRITICAL) violations
               in if critical \<noteq> [] then (False, Some violations, total)
                  else if 3 \<le> total then (False, Some violations, total)
                  else (False, Some violations, total)))"

text \<open>A tool definition whose code is a string (any other value makes the pattern search raise).\<close>

definition scan_tool_definition :: "(string, pyval) dict \<Rightarrow> exn + bool" where
  "scan_tool_definition tool_def =
     (let code = (case dict_get tool_def ''code'' of None \<Rightarrow> PStr [] | Some v \<Rightarrow> v);
          metadata =
            [(''tool_name'', case dict_get tool_def ''name'' of None \<Rightarrow> PStr ''unknown'' | Some v \<Rightarrow> v),
             (''target_path'', case dict_get tool_def ''target_path'' of None \<Rightarrow> PNone | Some v \<Rightarrow> v)]
      in case code of PStr c \<Rightarrow> Inr (fst (verify_code c metadata)) | _ \<Rightarrow> Inl TypeError)"

section \<open>The verdict\<close>

text \<open>A needle of a rule is a literal one of its alternatives consists of.\<close>

lemma check_violation_iff:
  "i \<in> set (check_violation code target) \<longleftrightarrow>
     i \<in> set FORBIDDEN_PATTERNS \<and> rx_search (inv_pattern i) code \<and> \<not> exempt i target"
  by (auto simp: check_violation_def)

lemma verify_code_safe_iff:
  "fst (verify_code code metadata) \<longleftrightarrow>
     check_violation code (case dict_get metadata ''target_path'' of None \<Rightarrow> PNone | Some v \<Rightarrow> v) = []"
  by (simp add: verify_code_def Let_def)

lemma verify_code_rejects:
  assumes "i \<in> set FORBIDDEN_PATTERNS" and "rx_search (inv_pattern i) code"
    and "\<not> exempt i (case dict_get metadata ''target_path'' of None \<Rightarrow> PNone | Some v \<Rightarrow> v)"
  shows "\<not> fst (verify_code code metadata)"
  using assms by (metis check_violation_iff verify_code_safe_iff empty_iff list.set(1))

definition needles :: "string list" where
  "needles =
     [''C:'' @ bslash @ ''Windows'' @ bslash, ''/etc/passwd'', ''/etc/shadow'', ''os.popen('', ''socket.socket('',
      ''import ctypes'', ''ctypes.'', ''os._exit('', ''sys.exit('']"

lemma needle_rule:
  assumes "w \<in> set needles"
  shows "\<exists>i \<in> set FORBIDDEN_PATTERNS. inv_allowed i = None \<and> (\<forall>code. py_in w code \<longrightarrow> rx_search (inv_pattern i) code)"
  using assms
  by (auto simp: needles_def FORBIDDEN_PATTERNS_def rx_system_files_def rx_shell_def rx_connection_def
      rx_ctypes_def rx_exit_def)

lemma not_exempt_None: "inv_allowed i = None \<Longrightarrow> \<not> exempt i target"
  by (simp add: exempt_def)

text \<open>
  Whatever the metadata says, code that contains one of the nine forbidden literals anywhere is
  rejected: no target path exempts from these rules.
\<close>

theorem forbidden_literals_never_pass:
  assumes "w \<in> set needles" and "py_in w code"
  shows "\<not> fst (verify_code code metadata)"
proof -
  obtain i where i: "i \<in> set FORBIDDEN_PATTERNS" "inv_allowed i = None" "rx_search (inv_pattern i) code"
    using needle_rule [OF assms(1)] assms(2) by blast
  show ?thesis by (rule verify_code_rejects [OF i(1) i(3) not_exempt_None [OF i(2)]])
qed

theorem forbidden_literals_never_pass_witness:
  "\<not> fst (verify_code ''x = open('/etc/passwd')'' [(''target_path'', PStr ''/tmp/x'')])"
  by (rule forbidden_literals_never_pass [of "''/etc/passwd''"]) (code_simp, code_simp)

text \<open>
  C12. The verdict is safe exactly when no rule matches, apart from the rule against recursive deletes,
  which is also passed over when the target path starts with one of the two temporary directories.
  The score adds the values of the rules that are left, and any of them means rejection.
\<close>

theorem verify_code_exact:
  "verify_code code metadata =
     (let target = (case dict_get metadata ''target_path'' of None \<Rightarrow> PNone | Some v \<Rightarrow> v);
          temp = (\<exists>t. target = PStr t \<and>
            (prefix ''/tmp/'' t \<or> prefix (''C:'' @ bslash @ ''Users'' @ bslash @ ''User'' @ bslash @ ''KRYVARACODE'' @ bslash @ ''temp'' @ bslash) t));
          vs = filter (\<lambda>i. rx_search (inv_pattern i) code \<and> \<not> (inv_name i = ''Recursive Delete'' \<and> temp))
                 FORBIDDEN_PATTERNS
      in (vs = [], if vs = [] then None else Some vs, sum_list (map (risk_value \<circ> inv_risk) vs)))"
proof -
  define target where "target = (case dict_get metadata ''target_path'' of None \<Rightarrow> PNone | Some v \<Rightarrow> v)"
  define temp where "temp = (\<exists>t. target = PStr t \<and>
    (prefix ''/tmp/'' t \<or> prefix (''C:'' @ bslash @ ''Users'' @ bslash @ ''User'' @ bslash @ ''KRYVARACODE'' @ bslash @ ''temp'' @ bslash) t))"
  have ex: "exempt i target \<longleftrightarrow> inv_name i = ''Recursive Delete'' \<and> temp" if "i \<in> set FORBIDDEN_PATTERNS" for i
    using that by (cases target) (auto simp: FORBIDDEN_PATTERNS_def exempt_def temp_def)
  have "check_violation code target =
      filter (\<lambda>i. rx_search (inv_pattern i) code \<and> \<not> (inv_name i = ''Recursive Delete'' \<and> temp)) FORBIDDEN_PATTERNS"
    unfolding check_violation_def by (rule filter_cong [OF refl]) (simp add: ex)
  then show ?thesis
    unfolding verify_code_def Let_def target_def [symmetric] temp_def [symmetric] by simp
qed

lemma traversal_escapes_temp:
  "fst (verify_code ''shutil.rmtree(p)'' [(''target_path'', PStr ''/tmp/../home'')])"
  by code_simp

section \<open>Addresses\<close>

text \<open>
  \<open>ipaddress.ip_address\<close> and \<open>ip_network\<close>: the two address families as words, the text forms of
  addresses, and membership in a network. A text is read as IPv4 first and as IPv6 otherwise; a
  scope identifier is checked and dropped.
\<close>

datatype ip = V4 "32 word" | V6 "128 word"

fun split_on :: "char \<Rightarrow> string \<Rightarrow> string list" where
  "split_on c [] = [[]]"
| "split_on c (x # xs) =
     (if x = c then [] # split_on c xs
      else case split_on c xs of y # ys \<Rightarrow> (x # y) # ys | [] \<Rightarrow> [[x]])"

definition parse_octet :: "string \<Rightarrow> nat option" where
  "parse_octet s =
     (if s = [] \<or> \<not> list_all is_digit s \<or> 3 < length s \<or> (s \<noteq> ''0'' \<and> hd s = CHR ''0'') then None
      else let n = foldl (\<lambda>a c. 10 * a + digit_val c) 0 s in if 255 < n then None else Some n)"

definition parse_v4 :: "string \<Rightarrow> 32 word option" where
  "parse_v4 s =
     (case map parse_octet (split_on (CHR ''.'') s) of
        [Some a, Some b, Some c, Some d] \<Rightarrow>
          Some (of_nat (((a * 256 + b) * 256 + c) * 256 + d))
      | _ \<Rightarrow> None)"

definition hex_val :: "char \<Rightarrow> nat option" where
  "hex_val c =
     (let n = of_char c :: nat
      in if 48 \<le> n \<and> n \<le> 57 then Some (n - 48)
         else if 65 \<le> n \<and> n \<le> 70 then Some (n - 55)
         else if 97 \<le> n \<and> n \<le> 102 then Some (n - 87) else None)"

definition parse_hextet :: "string \<Rightarrow> nat option" where
  "parse_hextet s =
     (if s = [] \<or> 4 < length s \<or> list_ex (\<lambda>c. hex_val c = None) s then None
      else Some (foldl (\<lambda>a c. 16 * a + the (hex_val c)) 0 s))"

definition shift_in :: "128 word option \<Rightarrow> nat option \<Rightarrow> 128 word option" where
  "shift_in acc h = (case (acc, h) of (Some a, Some n) \<Rightarrow> Some (push_bit 16 a + of_nat n) | _ \<Rightarrow> None)"

definition parse_hextets :: "nat option list \<Rightarrow> nat \<Rightarrow> nat option list \<Rightarrow> 128 word option" where
  "parse_hextets hi skipped lo =
     foldl shift_in (map_option (push_bit (16 * skipped)) (foldl shift_in (Some 0) hi)) lo"

text \<open>The hextets of the text; a dotted quad at the end stands for two of them.\<close>

definition hextet_parts :: "string \<Rightarrow> (bool \<times> nat option) list option" where
  "hextet_parts s =
     (let parts = split_on (CHR '':'') s;
          read = map (\<lambda>p. (p = [], parse_hextet p))
      in if length parts < 3 then None
         else if CHR ''.'' \<in> set (last parts) then
           (case parse_v4 (last parts) of
              None \<Rightarrow> None
            | Some w \<Rightarrow> Some (read (butlast parts) @
                [(False, Some (unat (drop_bit 16 w))), (False, Some (unat (take_bit 16 w)))]))
         else Some (read parts))"

definition parse_v6_plain :: "string \<Rightarrow> 128 word option" where
  "parse_v6_plain s =
     (case hextet_parts s of
        None \<Rightarrow> None
      | Some parts \<Rightarrow>
          let n = length parts; gaps = filter (\<lambda>i. fst (parts ! i)) [1..<n - 1]
          in if 9 < n then None
             else case gaps of
               [] \<Rightarrow> if n = 8 \<and> \<not> fst (hd parts) \<and> \<not> fst (last parts)
                     then parse_hextets (map snd parts) 0 [] else None
             | [k] \<Rightarrow>
                 (let hi = (if fst (hd parts) then k - 1 else k);
                      lo = (if fst (last parts) then n - k - 2 else n - k - 1)
                  in if (fst (hd parts) \<and> 0 < hi) \<or> (fst (last parts) \<and> 0 < lo) \<or> 8 < hi + lo + 1
                     then None
                     else parse_hextets (map snd (take hi parts)) (8 - (hi + lo))
                       (if lo = 0 then [] else map snd (drop (n - lo) parts)))
             | _ \<Rightarrow> None)"

definition parse_v6 :: "string \<Rightarrow> 128 word option" where
  "parse_v6 s =
     (case py_partition (CHR ''%'') s of (addr, sep, scope) \<Rightarrow>
        if CHR ''/'' \<in> set s \<or> (sep \<and> (scope = [] \<or> CHR ''%'' \<in> set scope)) then None
        else parse_v6_plain addr)"

definition ip_address :: "string \<Rightarrow> ip option" where
  "ip_address s =
     (case parse_v4 s of
        Some w \<Rightarrow> Some (V4 w)
      | None \<Rightarrow> map_option V6 (parse_v6 s))"

text \<open>A network is its first address and the number of leading bits that count; host bits are cleared.\<close>

definition clear_host :: "nat \<Rightarrow> 'a::len word \<Rightarrow> 'a word" where
  "clear_host p w = (let h = LENGTH('a) - p in push_bit h (drop_bit h w))"

definition ip_network :: "string \<Rightarrow> (ip \<times> nat) option" where
  "ip_network s =
     (case split_on (CHR ''/'') s of
        [a, p] \<Rightarrow>
          (case (ip_address a, parse_nat p) of
             (Some (V4 w), Some n) \<Rightarrow> if 32 < n then None else Some (V4 (clear_host n w), n)
           | (Some (V6 w), Some n) \<Rightarrow> if 128 < n then None else Some (V6 (clear_host n w), n)
           | _ \<Rightarrow> None)
      | _ \<Rightarrow> None)"

definition in_network :: "ip \<Rightarrow> ip \<times> nat \<Rightarrow> bool" where
  "in_network a net =
     (case (a, net) of
        (V4 w, (V4 b, p)) \<Rightarrow> clear_host p w = b
      | (V6 w, (V6 b, p)) \<Rightarrow> clear_host p w = b
      | _ \<Rightarrow> False)"

definition BLOCKED_IP_RANGES :: "string list" where
  "BLOCKED_IP_RANGES =
     [''127.0.0.0/8'', ''10.0.0.0/8'', ''172.16.0.0/12'', ''192.168.0.0/16'', ''169.254.0.0/16'',
      ''::1/128'', ''fc00::/7'', ''fe80::/10'']"

definition blocked_networks :: "(ip \<times> nat) list" where
  "blocked_networks = List.map_filter ip_network BLOCKED_IP_RANGES"

text \<open>
  The addresses of a name as \<open>socket.getaddrinfo\<close> reports them: each entry's socket address may be
  empty, and the call itself may raise.
\<close>

fun any_blocked :: "string option list \<Rightarrow> bool" where
  "any_blocked [] = False"
| "any_blocked (None # infos) = any_blocked infos"
| "any_blocked (Some a # infos) =
     (case ip_address a of
        None \<Rightarrow> any_blocked infos
      | Some addr \<Rightarrow> if list_ex (in_network addr) blocked_networks then True else any_blocked infos)"

definition hostname_is_blocked :: "(string \<Rightarrow> exn + string option list) \<Rightarrow> string \<Rightarrow> exn + bool" where
  "hostname_is_blocked getaddrinfo host =
     (case getaddrinfo host of Inl e \<Rightarrow> Inl e | Inr infos \<Rightarrow> Inr (any_blocked infos))"

definition is_blocked_ip :: "(string \<Rightarrow> exn + string option list) \<Rightarrow> string \<Rightarrow> exn + bool" where
  "is_blocked_ip getaddrinfo s =
     (case ip_address s of
        None \<Rightarrow> hostname_is_blocked getaddrinfo s
      | Some addr \<Rightarrow> Inr (list_ex (in_network addr) blocked_networks))"

lemmas ip_defs =
  ip_address_def parse_v4_def parse_octet_def is_digit_def digit_val_def parse_v6_def py_partition_def
  parse_v6_plain_def hextet_parts_def parse_hextets_def parse_hextet_def shift_in_def hex_val_def Let_def

lemma ip_address_examples:
  "ip_address ''127.0.0.1'' = Some (V4 0x7F000001)" "ip_address ''::1'' = Some (V6 1)"
  "ip_address ''fe80::1%eth0'' = Some (V6 0xFE800000000000000000000000000001)"
  "ip_address ''::ffff:127.0.0.1'' = Some (V6 0xFFFF7F000001)" "ip_address ''01.2.3.4'' = None"
  "ip_address ''1::2::3'' = None" "ip_address ''1:2:3:4:5:6:7::'' = Some (V6 0x00010002000300040005000600070000)"
  "ip_address ''::'' = Some (V6 0)" "ip_address ''1:2:3:4:5:6:7:8'' = Some (V6 0x00010002000300040005000600070008)"
  "ip_address '':1:2:3:4:5:6:7'' = None" "ip_address ''1::2'' = Some (V6 0x00010000000000000000000000000002)"
  by (simp_all add: ip_defs)

lemma blocked_networks_are:
  "blocked_networks =
     [(V4 0x7F000000, 8), (V4 0x0A000000, 8), (V4 0xAC100000, 12), (V4 0xC0A80000, 16),
      (V4 0xA9FE0000, 16), (V6 1, 128), (V6 0xFC000000000000000000000000000000, 7),
      (V6 0xFE800000000000000000000000000000, 10)]"
  by (simp add: blocked_networks_def BLOCKED_IP_RANGES_def map_filter_def ip_network_def clear_host_def
      parse_nat_def ip_defs)

text \<open>Reading a dotted quad.\<close>

lemma split_on_append: "c \<notin> set xs \<Longrightarrow> split_on c (xs @ c # ys) = xs # split_on c ys"
  by (induction xs) auto

lemma split_on_single: "c \<notin> set xs \<Longrightarrow> split_on c xs = [xs]"
  by (induction xs) auto

lemma str_nat_chars: "c \<in> set (str_nat n) \<Longrightarrow> is_digit c"
  using str_nat_digits [of n] by (simp add: list_all_iff)

lemma parse_octet_str_nat:
  assumes "n < 256"
  shows "parse_octet (str_nat n) = Some n"
proof -
  have "n < 10 \<or> (10 \<le> n \<and> n < 100) \<or> (100 \<le> n \<and> n < 1000)" using assms by arith
  then have "length (str_nat n) \<le> 3 \<and> (hd (str_nat n) = CHR ''0'' \<longrightarrow> str_nat n = ''0'')"
  proof (elim disjE)
    assume n: "n < 10"
    then have "str_nat n = [char_of (48 + n)]" by (subst str_nat.simps) simp
    then show ?thesis by simp
  next
    assume n: "10 \<le> n \<and> n < 100"
    then have "\<not> n < 10" "n div 10 < 10" by presburger+
    then have "str_nat n = [char_of (48 + n div 10), char_of (48 + n mod 10)]"
      by (subst str_nat.simps, subst str_nat.simps) simp
    moreover have "char_of (48 + n div 10) \<noteq> CHR ''0''"
    proof
      assume "char_of (48 + n div 10) = CHR ''0''"
      then have "digit_val (char_of (48 + n div 10)) = 0" by (simp add: digit_val_def)
      moreover have "n div 10 < 10" "n div 10 \<noteq> 0" using n by presburger+
      ultimately show False by simp
    qed
    ultimately show ?thesis by simp
  next
    assume n: "100 \<le> n \<and> n < 1000"
    then have "\<not> n < 10" "\<not> n div 10 < 10" "n div 10 div 10 < 10"
      by (auto simp: less_mult_imp_div_less div_less_iff_less_mult)
    then have "str_nat n =
        [char_of (48 + n div 10 div 10), char_of (48 + n div 10 mod 10), char_of (48 + n mod 10)]"
      by (subst str_nat.simps, subst str_nat.simps, subst str_nat.simps) simp
    moreover have "char_of (48 + n div 10 div 10) \<noteq> CHR ''0''"
    proof
      assume "char_of (48 + n div 10 div 10) = CHR ''0''"
      then have "digit_val (char_of (48 + n div 10 div 10)) = 0" by (simp add: digit_val_def)
      moreover have "n div 10 div 10 < 10" "n div 10 div 10 \<noteq> 0"
        using n by (auto simp: less_mult_imp_div_less div_less_iff_less_mult div_eq_0_iff)
      ultimately show False by simp
    qed
    ultimately show ?thesis by simp
  qed
  then show ?thesis
    using assms by (auto simp: parse_octet_def Let_def foldl_str_nat str_nat_digits)
qed

definition dotted :: "nat \<Rightarrow> nat \<Rightarrow> nat \<Rightarrow> nat \<Rightarrow> string" where
  "dotted a b c d = str_nat a @ ''.'' @ str_nat b @ ''.'' @ str_nat c @ ''.'' @ str_nat d"

lemma parse_v4_dotted:
  assumes "a < 256" and "b < 256" and "c < 256" and "d < 256"
  shows "parse_v4 (dotted a b c d) = Some (of_nat (((a * 256 + b) * 256 + c) * 256 + d))"
proof -
  have "CHR ''.'' \<notin> set (str_nat n)" for n
    using str_nat_chars by (fastforce simp: is_digit_def)
  then have "split_on (CHR ''.'') (dotted a b c d) = [str_nat a, str_nat b, str_nat c, str_nat d]"
    by (simp add: dotted_def split_on_append split_on_single)
  with assms show ?thesis by (simp add: parse_v4_def parse_octet_str_nat)
qed

lemma clear_host_eq:
  assumes "N < 2 ^ 32" and "K < 2 ^ 32"
  shows "clear_host p (of_nat N :: 32 word) = of_nat K \<longleftrightarrow> N div 2 ^ (32 - p) * 2 ^ (32 - p) = K"
proof -
  let ?h = "32 - p" and ?w = "of_nat N :: 32 word"
  have t: "take_bit 32 N = N" using assms(1) by (simp add: take_bit_nat_eq_self)
  have N: "unat ?w = N" using assms(1) by (simp add: unat_of_nat take_bit_nat_eq_self)
  have "unat (clear_host p ?w) = take_bit 32 (push_bit ?h (drop_bit ?h N))"
    by (simp add: clear_host_def Let_def unsigned_push_bit_eq unsigned_drop_bit_eq N t)
  also have "\<dots> = N div 2 ^ ?h * 2 ^ ?h"
  proof -
    have "N div 2 ^ ?h * 2 ^ ?h \<le> N" by (rule div_times_less_eq_dividend)
    then have "N div 2 ^ ?h * 2 ^ ?h < 2 ^ 32" using assms(1) by linarith
    then show ?thesis unfolding push_bit_eq_mult drop_bit_eq_div by (rule take_bit_nat_eq_self)
  qed
  finally have "unat (clear_host p ?w) = N div 2 ^ ?h * 2 ^ ?h" .
  moreover have "unat (of_nat K :: 32 word) = K" using assms(2) by (simp add: unat_of_nat take_bit_nat_eq_self)
  ultimately show ?thesis by (metis word_unat_eq_iff)
qed

text \<open>
  A dotted quad is refused exactly when it lies in the loopback, link-local or one of the three
  private ranges, whatever the resolver answers.
\<close>

theorem blocked_dotted_quads:
  assumes "a < 256" and "b < 256" and "c < 256" and "d < 256"
  shows "is_blocked_ip getaddrinfo (dotted a b c d) =
     Inr (a = 127 \<or> a = 10 \<or> (a = 172 \<and> 16 \<le> b \<and> b < 32) \<or> (a = 192 \<and> b = 168) \<or> (a = 169 \<and> b = 254))"
proof -
  define N where "N = ((a * 256 + b) * 256 + c) * 256 + d"
  have N: "N < 2 ^ 32" using assms by (simp add: N_def)
  have d24: "N div 2 ^ 24 = a" and d16: "N div 2 ^ 16 = a * 256 + b" using assms by (simp_all add: N_def)
  have d20: "N div 2 ^ 20 = a * 16 + b div 16" using assms by (simp add: N_def)
  have eq: "in_network (V4 (of_nat N)) (V4 (of_nat K), p) \<longleftrightarrow> N div 2 ^ (32 - p) * 2 ^ (32 - p) = K"
    if "K < 2 ^ 32" for K p
    using clear_host_eq [OF N that] by (simp add: in_network_def)
  have pair: "e < 16 \<Longrightarrow> a * 16 + e = 2753 \<longleftrightarrow> a = 172 \<and> e = 1" for e by presburger
  have b1: "in_network (V4 (of_nat N)) (V4 0x7F000000, 8) \<longleftrightarrow> a = 127"
    using eq [of "0x7F000000" 8] d24 by simp
  have b2: "in_network (V4 (of_nat N)) (V4 0x0A000000, 8) \<longleftrightarrow> a = 10"
    using eq [of "0x0A000000" 8] d24 by simp
  have b3: "in_network (V4 (of_nat N)) (V4 0xAC100000, 12) \<longleftrightarrow> a = 172 \<and> 16 \<le> b \<and> b < 32"
  proof -
    have "in_network (V4 (of_nat N)) (V4 0xAC100000, 12) \<longleftrightarrow> N div 2 ^ 20 = 2753"
      using eq [of "0xAC100000" 12] by simp
    also have "\<dots> \<longleftrightarrow> a = 172 \<and> b div 16 = 1" unfolding d20 using pair [of "b div 16"] assms(2) by (simp add: less_mult_imp_div_less)
    finally show ?thesis by auto
  qed
  have b4: "in_network (V4 (of_nat N)) (V4 0xC0A80000, 16) \<longleftrightarrow> a = 192 \<and> b = 168"
  proof -
    have "in_network (V4 (of_nat N)) (V4 0xC0A80000, 16) \<longleftrightarrow> N div 2 ^ 16 = 49320"
      using eq [of "0xC0A80000" 16] by simp
    also have "\<dots> \<longleftrightarrow> a = 192 \<and> b = 168" unfolding d16 using assms(2) by presburger
    finally show ?thesis .
  qed
  have b5: "in_network (V4 (of_nat N)) (V4 0xA9FE0000, 16) \<longleftrightarrow> a = 169 \<and> b = 254"
  proof -
    have "in_network (V4 (of_nat N)) (V4 0xA9FE0000, 16) \<longleftrightarrow> N div 2 ^ 16 = 43518"
      using eq [of "0xA9FE0000" 16] by simp
    also have "\<dots> \<longleftrightarrow> a = 169 \<and> b = 254" unfolding d16 using assms(2) by presburger
    finally show ?thesis .
  qed
  have b6: "\<not> in_network (V4 w) (V6 v, p)" for w v p by (simp add: in_network_def)
  have "ip_address (dotted a b c d) = Some (V4 (of_nat N))"
    using assms by (simp add: ip_address_def parse_v4_dotted N_def)
  then show ?thesis
    by (simp add: is_blocked_ip_def blocked_networks_are b1 b2 b3 b4 b5 b6)
qed

theorem blocked_dotted_quads_witness:
  "is_blocked_ip (\<lambda>_. Inr []) (dotted 172 31 0 9) = Inr True \<and>
   is_blocked_ip (\<lambda>_. Inr []) (dotted 172 32 0 9) = Inr False"
  by (simp add: blocked_dotted_quads)

text \<open>An IPv4 address written in its IPv6-mapped form passes, the loopback address included.\<close>

lemma mapped_addresses_pass:
  "is_blocked_ip getaddrinfo ''::ffff:127.0.0.1'' = Inr False"
  "is_blocked_ip getaddrinfo ''0.0.0.0'' = Inr False"
  by (simp_all add: is_blocked_ip_def blocked_networks_are ip_defs in_network_def clear_host_def)

text \<open>A name is refused as soon as one of its addresses is.\<close>

lemma any_blocked_iff:
  "any_blocked infos \<longleftrightarrow>
     (\<exists>a addr. Some a \<in> set infos \<and> ip_address a = Some addr \<and> list_ex (in_network addr) blocked_networks)"
  by (induction infos rule: any_blocked.induct) (auto split: option.splits)

lemma name_to_private_address_blocked:
  assumes "ip_address host = None" and "getaddrinfo host = Inr infos" and "Some (dotted 10 b c d) \<in> set infos"
    and "b < 256" "c < 256" "d < 256"
  shows "is_blocked_ip getaddrinfo host = Inr True"
proof -
  have "is_blocked_ip getaddrinfo (dotted 10 b c d) = Inr True"
    using assms(4-6) blocked_dotted_quads [of 10 b c d getaddrinfo] by simp
  moreover obtain addr where "ip_address (dotted 10 b c d) = Some addr"
    using assms(4-6) by (auto simp: ip_address_def parse_v4_dotted)
  ultimately have "any_blocked infos"
    using assms(3) by (auto simp: any_blocked_iff is_blocked_ip_def)
  with assms(1,2) show ?thesis by (simp add: is_blocked_ip_def hostname_is_blocked_def)
qed

section \<open>The approval gate\<close>

datatype approval_status = PENDING | APPROVED | REJECTED | EXPIRED

record approval_request =
  aq_id :: string
  aq_action :: string
  aq_description :: string
  aq_risk :: string
  aq_timestamp :: time
  aq_context :: "(string, pyval) dict"

record approval_response =
  ar_id :: string
  ar_status :: approval_status
  ar_operator :: string
  ar_reason :: "string option"
  ar_timestamp :: time

record gatekeeper =
  gk_pending :: "(string, approval_request) dict"
  gk_history :: "(string, approval_response) dict"

definition new_gatekeeper :: gatekeeper where
  "new_gatekeeper = \<lparr>gk_pending = [], gk_history = []\<rparr>"

text \<open>\<open>int()\<close> of a float drops the fraction; time stamps are not negative.\<close>

definition gk_request_id :: "time \<Rightarrow> string \<Rightarrow> string" where
  "gk_request_id now action = ''req_'' @ str_int (floor now) @ ''_'' @ action"

definition simulate_operator_response :: "time \<Rightarrow> approval_request \<Rightarrow> approval_response" where
  "simulate_operator_response now q =
     (let deny = py_in ''DELETE'' (py_upper (aq_description q)) \<and> aq_risk q = ''CRITICAL''
      in \<lparr>ar_id = aq_id q, ar_status = (if deny then REJECTED else APPROVED),
          ar_operator = ''simulated_operator_01'',
          ar_reason = Some (if deny then ''Destructive action rejected by operator.''
                            else ''Action within safety parameters.''),
          ar_timestamp = now\<rparr>)"

definition process_response :: "approval_response \<Rightarrow> gatekeeper \<Rightarrow> gatekeeper" where
  "process_response r g =
     g\<lparr>gk_history := dict_put (ar_id r) r (gk_history g),
       gk_pending := (if dict_get (gk_pending g) (ar_id r) \<noteq> None
                      then dict_del (ar_id r) (gk_pending g) else gk_pending g)\<rparr>"

definition request_approval ::
  "time \<Rightarrow> string \<Rightarrow> string \<Rightarrow> string \<Rightarrow> (string, pyval) dict option \<Rightarrow> gatekeeper \<Rightarrow> gatekeeper \<times> bool"
  where
  "request_approval now action description risk context g =
     (let rid = gk_request_id now action;
          q = \<lparr>aq_id = rid, aq_action = action, aq_description = description, aq_risk = risk,
               aq_timestamp = now, aq_context = (case context of None \<Rightarrow> [] | Some c \<Rightarrow> c)\<rparr>;
          g1 = g\<lparr>gk_pending := dict_put rid q (gk_pending g)\<rparr>;
          r = simulate_operator_response now q
      in (process_response r g1, ar_status r = APPROVED))"

definition verify_action_permit :: "string \<Rightarrow> gatekeeper \<Rightarrow> bool" where
  "verify_action_permit rid g =
     (case dict_get (gk_history g) rid of None \<Rightarrow> False | Some r \<Rightarrow> ar_status r = APPROVED)"

fun gatekeeper_history :: "(time \<times> string \<times> string \<times> string) list \<Rightarrow> gatekeeper \<Rightarrow> gatekeeper" where
  "gatekeeper_history [] g = g"
| "gatekeeper_history ((now, action, description, risk) # qs) g =
     gatekeeper_history qs (fst (request_approval now action description risk None g))"

definition denied :: "string \<Rightarrow> string \<Rightarrow> bool" where
  "denied description risk \<longleftrightarrow> py_in ''DELETE'' (py_upper description) \<and> risk = ''CRITICAL''"

lemma request_approval_verdict:
  "snd (request_approval now action description risk context g) \<longleftrightarrow> \<not> denied description risk"
  by (simp add: request_approval_def simulate_operator_response_def denied_def Let_def)

lemma permit_after_request:
  "verify_action_permit rid (fst (request_approval now action description risk context g)) =
     (if rid = gk_request_id now action then \<not> denied description risk else verify_action_permit rid g)"
  by (simp add: request_approval_def process_response_def simulate_operator_response_def denied_def
      verify_action_permit_def Let_def)

lemma pending_after_request:
  "gk_pending g = [] \<Longrightarrow> gk_pending (fst (request_approval now action description risk context g)) = []"
  by (simp add: request_approval_def process_response_def simulate_operator_response_def Let_def
      dict_put_def dict_del_def)

text \<open>
  After any sequence of requests nothing is pending, and an identifier is permitted exactly when
  the last request under it was not a critical one that mentions a deletion in any case: two requests
  for one action in the same second share an identifier, and the later verdict replaces the earlier.
\<close>

theorem permits_follow_last_request:
  "gk_pending (gatekeeper_history qs new_gatekeeper) = [] \<and>
   verify_action_permit rid (gatekeeper_history qs new_gatekeeper) =
     (case filter (\<lambda>(now, action, _). gk_request_id now action = rid) (rev qs) of
        [] \<Rightarrow> False
      | (_, _, description, risk) # _ \<Rightarrow> \<not> denied description risk)"
proof -
  have "gk_pending (gatekeeper_history qs g) = [] \<and>
     verify_action_permit rid (gatekeeper_history qs g) =
       (case filter (\<lambda>(now, action, _). gk_request_id now action = rid) (rev qs) of
          [] \<Rightarrow> verify_action_permit rid g
        | (_, _, description, risk) # _ \<Rightarrow> \<not> denied description risk)"
    if "gk_pending g = []" for g
    using that
  proof (induction qs arbitrary: g)
    case (Cons q qs)
    obtain now action description risk where q: "q = (now, action, description, risk)"
      by (cases q) auto
    show ?case
      using Cons.IH [OF pending_after_request [OF Cons.prems]]
      by (simp add: q permit_after_request split: list.split)
  qed simp
  from this [of new_gatekeeper] show ?thesis
    by (simp add: new_gatekeeper_def verify_action_permit_def split: list.split)
qed

section \<open>The governor\<close>

record governor =
  gv_cpu :: rat
  gv_ram :: rat
  gv_max_cost :: rat
  gv_cost :: rat

datatype vitals = CpuHigh rat | RamHigh rat | CostExceeded rat | VitalsHealthy

definition new_governor :: "rat \<Rightarrow> rat \<Rightarrow> rat \<Rightarrow> governor" where
  "new_governor cpu ram cost = \<lparr>gv_cpu = cpu, gv_ram = ram, gv_max_cost = cost, gv_cost = 0\<rparr>"

definition check_vitals :: "rat \<Rightarrow> rat \<Rightarrow> governor \<Rightarrow> bool \<times> vitals" where
  "check_vitals cpu ram g =
     (if gv_cpu g < cpu then (False, CpuHigh cpu)
      else if gv_ram g < ram then (False, RamHigh ram)
      else if gv_max_cost g < gv_cost g then (False, CostExceeded (gv_cost g))
      else (True, VitalsHealthy))"

definition record_cost :: "rat \<Rightarrow> governor \<Rightarrow> governor" where
  "record_cost c g = g\<lparr>gv_cost := gv_cost g + c\<rparr>"

text \<open>A session is cut off by cost exactly when the costs recorded so far exceed the limit.\<close>

lemma session_cost: "gv_cost (fold record_cost cs g) = gv_cost g + sum_list cs"
  by (induction cs arbitrary: g) (simp_all add: record_cost_def)

lemma vitals_after_costs:
  "fst (check_vitals cpu ram (fold record_cost cs (new_governor c r m))) \<longleftrightarrow> cpu \<le> c \<and> ram \<le> r \<and> sum_list cs \<le> m"
proof -
  have "gv_cpu (fold record_cost cs g) = gv_cpu g \<and> gv_ram (fold record_cost cs g) = gv_ram g \<and>
      gv_max_cost (fold record_cost cs g) = gv_max_cost g" for g
    by (induction cs arbitrary: g) (simp_all add: record_cost_def)
  then show ?thesis by (auto simp: check_vitals_def session_cost new_governor_def)
qed

section \<open>The order of the risk levels\<close>

text \<open>Levels are ordered by their numbers, so that the worst of a list is its maximum.\<close>

instantiation risk_level :: linorder
begin

definition less_eq_risk_level :: "risk_level \<Rightarrow> risk_level \<Rightarrow> bool" where
  "less_eq_risk_level a b = (risk_value a \<le> risk_value b)"

definition less_risk_level :: "risk_level \<Rightarrow> risk_level \<Rightarrow> bool" where
  "less_risk_level a b = (risk_value a < risk_value b)"

instance
proof
  show "a \<le> b \<Longrightarrow> b \<le> a \<Longrightarrow> a = b" for a b :: risk_level
    by (cases a; cases b) (simp_all add: less_eq_risk_level_def risk_value_def)
qed (auto simp: less_eq_risk_level_def less_risk_level_def)

end

lemma risk_value_mono: "a \<le> b \<Longrightarrow> risk_value a \<le> risk_value b"
  by (simp add: less_eq_risk_level_def)

text \<open>The score of refused code is at least that of its worst violation, and it is refused whatever the score.\<close>

lemma score_at_least_worst:
  assumes "verify_code code md = (safe, Some vs, score)"
  shows "vs \<noteq> [] \<and> risk_value (Max (set (map inv_risk vs))) \<le> score \<and> \<not> safe"
proof -
  have vs: "vs \<noteq> []" "score = sum_list (map (risk_value \<circ> inv_risk) vs)" "\<not> safe"
    using assms by (auto simp: verify_code_def Let_def split: if_splits)
  then have "Max (set (map inv_risk vs)) \<in> set (map inv_risk vs)" by (intro Max_in) auto
  then obtain v where "v \<in> set vs" "Max (set (map inv_risk vs)) = inv_risk v" by auto
  then show ?thesis using vs by (auto intro!: member_le_sum_list)
qed

end
