(* ===== verification/Rag.thy ===== *)
theory Rag
  imports Prelude
begin

text \<open>
  Retrieval-augmented generation, \<open>src/features/rag\<close>: the chunker, which cuts a text at sentence ends
  and carries an overlap into the next chunk, the augmenter, which puts retrieved documents before a
  prompt within a budget, and the retriever, a vector store that uses a remote server as long as that
  answers and a list in memory afterwards. The server's answers and the similarity of two vectors
  (numpy's or the standard library's floats) are parameters.
\<close>

section \<open>Chunker\<close>

record chunker =
  ck_size :: int
  ck_overlap :: int

definition new_chunker :: "int \<Rightarrow> int \<Rightarrow> exn + chunker" where
  "new_chunker csize overlap =
     (if csize \<le> 0 then Inl ValueError
      else if overlap < 0 then Inl ValueError
      else if csize \<le> overlap then Inl ValueError
      else Inr \<lparr>ck_size = csize, ck_overlap = overlap\<rparr>)"

text \<open>\<open>re.split\<close> at white space that follows one of the three sentence ends; \<open>acc\<close> is the part read so far, reversed.\<close>

definition sentence_end :: "char \<Rightarrow> bool" where
  "sentence_end c \<longleftrightarrow> c = CHR ''.'' \<or> c = CHR ''!'' \<or> c = CHR ''?''"

function sentence_parts :: "string \<Rightarrow> string \<Rightarrow> string list" where
  "sentence_parts acc [] = [rev acc]"
| "sentence_parts acc (c # s) =
     (if acc \<noteq> [] \<and> sentence_end (hd acc) \<and> py_space c
      then rev acc # sentence_parts [] (dropWhile py_space s)
      else sentence_parts (c # acc) s)"
  by pat_completeness auto
termination
  by (relation "measure (length \<circ> snd)") (auto simp: le_imp_less_Suc length_dropWhile_le)

definition split_sentences :: "string \<Rightarrow> string list" where
  "split_sentences doc = filter (\<lambda>p. py_strip p \<noteq> []) (sentence_parts [] doc)"

text \<open>\<open>s.split()\<close>: the maximal runs of other characters.\<close>

fun split_ws :: "string \<Rightarrow> string list" where
  "split_ws [] = [[]]"
| "split_ws (c # s) =
     (if py_space c then [] # split_ws s
      else case split_ws s of y # ys \<Rightarrow> (c # y) # ys | [] \<Rightarrow> [[c]])"

definition py_words :: "string \<Rightarrow> string list" where
  "py_words s = filter (\<lambda>w. w \<noteq> []) (split_ws s)"

definition join_words :: "string \<Rightarrow> string \<Rightarrow> string" where
  "join_words current word = (if current = [] then word else current @ '' '' @ word)"

definition flush :: "string list \<Rightarrow> string \<Rightarrow> string list" where
  "flush chunks current = (if py_strip current \<noteq> [] then chunks @ [py_strip current] else chunks)"

definition apply_overlap :: "chunker \<Rightarrow> string \<Rightarrow> string \<Rightarrow> string" where
  "apply_overlap k previous sentence =
     (if ck_overlap k \<le> 0 \<or> previous = [] then sentence
      else
        (let tail = py_last (ck_overlap k) previous;
             cut = (if CHR '' '' \<in> set tail then tl (dropWhile (\<lambda>c. c \<noteq> CHR '' '') tail) else tail)
         in cut @ '' '' @ sentence))"

fun long_loop :: "chunker \<Rightarrow> string list \<Rightarrow> string list \<Rightarrow> string \<Rightarrow> string list" where
  "long_loop k [] chunks current = flush chunks current"
| "long_loop k (w # ws) chunks current =
     (if int (length (join_words current w)) \<le> ck_size k then long_loop k ws chunks (join_words current w)
      else if ck_size k < int (length w) then long_loop k ws (flush chunks current @ [w]) []
      else long_loop k ws (flush chunks current) w)"

definition split_long_sentence :: "chunker \<Rightarrow> string \<Rightarrow> string list" where
  "split_long_sentence k sentence = long_loop k (py_words sentence) [] []"

fun chunk_loop :: "chunker \<Rightarrow> string list \<Rightarrow> string list \<Rightarrow> string \<Rightarrow> string list" where
  "chunk_loop k [] chunks current = flush chunks current"
| "chunk_loop k (s # ss) chunks current =
     (if ck_size k < int (length s)
      then chunk_loop k ss (flush chunks current @ split_long_sentence k s)
             (if py_strip current \<noteq> [] then [] else current)
      else if int (length (join_words current s)) \<le> ck_size k
      then chunk_loop k ss chunks (join_words current s)
      else chunk_loop k ss (flush chunks current) (apply_overlap k current s))"

definition chunk :: "chunker \<Rightarrow> string \<Rightarrow> string list" where
  "chunk k doc =
     (if doc = [] \<or> py_strip doc = [] then []
      else let sentences = split_sentences doc
           in if sentences = [] then [] else chunk_loop k sentences [] [])"

section \<open>Sizes of chunks\<close>

lemma length_apply_overlap:
  "0 \<le> ck_overlap k \<Longrightarrow> int (length (apply_overlap k p s)) \<le> ck_overlap k + 1 + int (length s)"
proof -
  assume o: "0 \<le> ck_overlap k"
  let ?tail = "py_last (ck_overlap k) p"
  have tail: "0 < ck_overlap k \<Longrightarrow> int (length ?tail) \<le> ck_overlap k" by (simp add: length_py_last)
  have "length (tl (dropWhile (\<lambda>c. c \<noteq> CHR '' '') ?tail)) \<le> length ?tail"
    using length_dropWhile_le [of "\<lambda>c. c \<noteq> CHR '' ''" ?tail] by (simp add: le_diff_conv)
  with tail o show ?thesis by (auto simp: apply_overlap_def Let_def)
qed

definition chunk_ok :: "chunker \<Rightarrow> int \<Rightarrow> string \<Rightarrow> bool" where
  "chunk_ok k n c \<longleftrightarrow> c \<noteq> [] \<and> (int (length c) \<le> n \<or> list_all (\<lambda>x. \<not> py_space x) c)"

lemma flush_ok:
  assumes "list_all (chunk_ok k n) cs" and "int (length cur) \<le> n"
  shows "list_all (chunk_ok k n) (flush cs cur)"
  using assms length_py_strip [of cur] by (simp add: flush_def chunk_ok_def)

lemma py_words_no_space: "w \<in> set (py_words s) \<Longrightarrow> w \<noteq> [] \<and> list_all (\<lambda>x. \<not> py_space x) w"
proof -
  have "list_all (\<lambda>w. list_all (\<lambda>x. \<not> py_space x) w) (split_ws s)"
    by (induction s) (auto split: list.split)
  then show "w \<in> set (py_words s) \<Longrightarrow> w \<noteq> [] \<and> list_all (\<lambda>x. \<not> py_space x) w"
    by (auto simp: py_words_def list_all_iff)
qed

lemma long_loop_ok:
  assumes "\<forall>w \<in> set ws. w \<noteq> [] \<and> list_all (\<lambda>x. \<not> py_space x) w" and "list_all (chunk_ok k n) cs"
    and "int (length cur) \<le> ck_size k" and "ck_size k \<le> n" and "0 < ck_size k"
  shows "list_all (chunk_ok k n) (long_loop k ws cs cur)"
  using assms
proof (induction k ws cs cur rule: long_loop.induct)
  case (2 k w ws cs cur)
  have fl: "list_all (chunk_ok k n) (flush cs cur)"
    by (rule flush_ok) (use "2.prems" in auto)
  have w: "chunk_ok k n w" using "2.prems"(1) by (simp add: chunk_ok_def)
  consider "int (length (join_words cur w)) \<le> ck_size k"
    | "\<not> int (length (join_words cur w)) \<le> ck_size k" "ck_size k < int (length w)"
    | "\<not> int (length (join_words cur w)) \<le> ck_size k" "\<not> ck_size k < int (length w)" by blast
  then show ?case
  proof cases
    case 1
    with "2.IH"(1) "2.prems" show ?thesis by simp
  next
    case 2
    with "2.IH"(2) "2.prems" fl w show ?thesis by simp
  next
    case 3
    with "2.IH"(3) "2.prems" fl show ?thesis by simp
  qed
next
  case (1 k cs cur)
  then show ?case by (simp add: flush_ok)
qed

lemma chunk_loop_ok:
  assumes "list_all (chunk_ok k (ck_size k + ck_overlap k + 1)) cs"
    and "int (length cur) \<le> ck_size k + ck_overlap k + 1" and "0 < ck_size k" and "0 \<le> ck_overlap k"
  shows "list_all (chunk_ok k (ck_size k + ck_overlap k + 1)) (chunk_loop k ss cs cur)"
  using assms
proof (induction k ss cs cur rule: chunk_loop.induct)
  case (2 k s ss cs cur)
  let ?n = "ck_size k + ck_overlap k + 1"
  have fl: "list_all (chunk_ok k ?n) (flush cs cur)" by (rule flush_ok) (use "2.prems" in auto)
  consider "ck_size k < int (length s)"
    | "\<not> ck_size k < int (length s)" "int (length (join_words cur s)) \<le> ck_size k"
    | "\<not> ck_size k < int (length s)" "\<not> int (length (join_words cur s)) \<le> ck_size k" by blast
  then show ?case
  proof cases
    case 1
    have "list_all (chunk_ok k ?n) (split_long_sentence k s)"
      unfolding split_long_sentence_def
      by (rule long_loop_ok) (use "2.prems" py_words_no_space in auto)
    with 1 "2.IH"(1) "2.prems" fl show ?thesis by simp
  next
    case 2
    with "2.IH"(2) "2.prems" show ?thesis by simp
  next
    case 3
    with "2.IH"(3) "2.prems" fl length_apply_overlap [of k cur s] show ?thesis by simp
  qed
next
  case (1 k cs cur)
  then show ?case by (simp add: flush_ok)
qed

text \<open>
  Every chunk is non-empty and at most one blank and the overlap longer than the configured size,
  unless it is a single word without any white space. The size itself is not a bound: a chunk that
  starts with an overlap can exceed it.
\<close>

theorem chunk_sizes_bounded:
  assumes "new_chunker csize overlap = Inr k"
  shows "filter (\<lambda>c. c = [] \<or> (csize + overlap + 1 < int (length c) \<and> list_ex py_space c)) (chunk k doc) = []"
proof -
  from assms have k: "ck_size k = csize" "ck_overlap k = overlap" "0 < csize" "0 \<le> overlap"
    by (auto simp: new_chunker_def split: if_splits)
  have "list_all (chunk_ok k (ck_size k + ck_overlap k + 1)) (chunk k doc)"
    using chunk_loop_ok [where cs = "[]" and k = k and cur = "[]" and ss = "split_sentences doc"] k by (simp add: chunk_def Let_def)
  then show ?thesis by (fastforce simp: filter_empty_conv chunk_ok_def k list_ex_iff list_all_iff)
qed

theorem chunk_sizes_bounded_witness:
  "filter (\<lambda>c. c = [] \<or> (10 + 4 + 1 < int (length c) \<and> list_ex py_space c))
     (chunk \<lparr>ck_size = 10, ck_overlap = 4\<rparr> ''aaaa bbb. ccccc dd.'') = [] \<and>
   map length (chunk \<lparr>ck_size = 10, ck_overlap = 4\<rparr> ''aaaa bbb. ccccc dd.'') = [9, 14]"
proof -
  have "new_chunker 10 4 = Inr \<lparr>ck_size = 10, ck_overlap = 4\<rparr>" by (simp add: new_chunker_def)
  from chunk_sizes_bounded [OF this, of "''aaaa bbb. ccccc dd.''"]
  have "filter (\<lambda>c. c = [] \<or> (10 + 4 + 1 < int (length c) \<and> list_ex py_space c))
     (chunk \<lparr>ck_size = 10, ck_overlap = 4\<rparr> ''aaaa bbb. ccccc dd.'') = []" .
  moreover have "map length (chunk \<lparr>ck_size = 10, ck_overlap = 4\<rparr> ''aaaa bbb. ccccc dd.'') = [9, 14]"
    by code_simp
  ultimately show ?thesis by blast
qed

section \<open>No word is lost\<close>

lemma split_ws_append_space: "py_space c \<Longrightarrow> split_ws (a @ c # b) = split_ws a @ split_ws b"
proof (induction a)
  case (Cons x a)
  moreover have "split_ws a \<noteq> []" by (cases a) (auto split: list.split)
  ultimately show ?case by (auto split: list.split)
qed simp

lemma py_words_append_space: "py_space c \<Longrightarrow> py_words (a @ c # b) = py_words a @ py_words b"
  by (simp add: py_words_def split_ws_append_space)

lemma py_words_Nil [simp]: "py_words [] = []"
  by (simp add: py_words_def)

lemma blank_is_space [simp]: "py_space CHR '' ''"
  by (simp add: py_space_def)

lemma py_words_Cons_space: "py_space c \<Longrightarrow> py_words (c # s) = py_words s"
  by (simp add: py_words_def)

lemma py_words_spaces: "list_all py_space sp \<Longrightarrow> py_words (sp @ s) = py_words s"
  by (induction sp) (simp_all add: py_words_Cons_space)

lemma py_words_snoc_spaces: "list_all py_space sp \<Longrightarrow> py_words (s @ sp) = py_words s"
proof (induction sp rule: rev_induct)
  case (snoc c sp)
  then have "py_words ((s @ sp) @ c # []) = py_words (s @ sp) @ py_words []"
    by (intro py_words_append_space) simp
  with snoc show ?case by simp
qed simp

lemma py_words_strip [simp]: "py_words (py_strip s) = py_words s"
proof -
  have l: "py_words (py_lstrip t) = py_words t" for t
  proof -
    have "t = takeWhile py_space t @ py_lstrip t" by (simp add: py_lstrip_def)
    moreover have "list_all py_space (takeWhile py_space t)" by (auto simp: list_all_iff dest: set_takeWhileD)
    ultimately show ?thesis using py_words_spaces by metis
  qed
  have r: "py_words (py_rstrip t) = py_words t" for t
  proof -
    have "t = py_rstrip t @ rev (takeWhile py_space (rev t))"
      unfolding py_rstrip_def by (metis rev_append rev_rev_ident takeWhile_dropWhile_id)
    moreover have "list_all py_space (rev (takeWhile py_space (rev t)))"
      by (auto simp: list_all_iff dest: set_takeWhileD)
    ultimately show ?thesis using py_words_snoc_spaces by metis
  qed
  show ?thesis by (simp add: py_strip_def l r)
qed

lemma py_words_blank: "py_strip s = [] \<Longrightarrow> py_words s = []"
  using py_words_strip [of s] by (simp del: py_words_strip)

lemma py_words_join [simp]: "py_words (join_words a b) = py_words a @ py_words b"
  by (simp add: join_words_def py_words_append_space)

lemma py_words_word: "w \<noteq> [] \<Longrightarrow> list_all (\<lambda>x. \<not> py_space x) w \<Longrightarrow> py_words w = [w]"
proof -
  have "list_all (\<lambda>x. \<not> py_space x) w \<Longrightarrow> split_ws w = [w]" for w
    by (induction w) auto
  then show "w \<noteq> [] \<Longrightarrow> list_all (\<lambda>x. \<not> py_space x) w \<Longrightarrow> py_words w = [w]"
    by (simp add: py_words_def)
qed

abbreviation words_of :: "string list \<Rightarrow> string list" where
  "words_of cs \<equiv> concat (map py_words cs)"

lemma words_flush [simp]: "words_of (flush cs cur) = words_of cs @ py_words cur"
  by (simp add: flush_def py_words_blank)

lemma words_long_loop:
  assumes "list_all (\<lambda>w. py_words w = [w]) ws"
  shows "words_of (long_loop k ws cs cur) = words_of cs @ py_words cur @ ws"
  using assms by (induction k ws cs cur rule: long_loop.induct) simp_all

lemma words_split_long [simp]: "words_of (split_long_sentence k s) = py_words s"
proof -
  have "list_all (\<lambda>w. py_words w = [w]) (py_words s)"
    using py_words_no_space py_words_word by (fastforce simp: list_all_iff)
  from words_long_loop [OF this, of k "[]" "[]"] show ?thesis by (simp add: split_long_sentence_def)
qed

lemma words_chunk_loop:
  "ck_overlap k = 0 \<Longrightarrow> words_of (chunk_loop k ss cs cur) = words_of cs @ py_words cur @ words_of ss"
  by (induction k ss cs cur rule: chunk_loop.induct) (simp_all add: apply_overlap_def py_words_blank)

lemma words_sentence_parts: "words_of (sentence_parts acc s) = py_words (rev acc @ s)"
proof (induction acc s rule: sentence_parts.induct)
  case (2 acc c s)
  show ?case
  proof (cases "acc \<noteq> [] \<and> sentence_end (hd acc) \<and> py_space c")
    case True
    have "py_words (dropWhile py_space s) = py_words s"
    proof -
      have "s = takeWhile py_space s @ dropWhile py_space s" by simp
      moreover have "list_all py_space (takeWhile py_space s)" by (auto simp: list_all_iff dest: set_takeWhileD)
      ultimately show ?thesis using py_words_spaces by metis
    qed
    with True "2.IH"(1) show ?thesis by (simp add: py_words_append_space)
  next
    case False
    then have "sentence_parts acc (c # s) = sentence_parts (c # acc) s" by auto
    with "2.IH"(2) False show ?thesis by simp
  qed
qed simp

lemma words_split_sentences: "words_of (split_sentences doc) = py_words doc"
proof -
  have "words_of (filter (\<lambda>p. py_strip p \<noteq> []) ps) = words_of ps" for ps
    by (induction ps) (auto simp: py_words_blank)
  then show ?thesis using words_sentence_parts [of "[]" doc] by (simp add: split_sentences_def)
qed

text \<open>
  C35. Without an overlap the words of the chunks, read in order, are exactly the words of the text:
  cutting at sentence ends and splitting long sentences loses, repeats and reorders nothing.
\<close>

theorem chunks_keep_the_words:
  assumes "new_chunker csize 0 = Inr k"
  shows "concat (map py_words (chunk k doc)) = py_words doc"
proof -
  from assms have k: "ck_overlap k = 0" by (auto simp: new_chunker_def split: if_splits)
  show ?thesis
  proof (cases "doc = [] \<or> py_strip doc = []")
    case True
    then show ?thesis by (auto simp: chunk_def py_words_blank)
  next
    case False
    then show ?thesis
      using words_chunk_loop [OF k, of "split_sentences doc" "[]" "[]"] words_split_sentences [of doc]
      by (auto simp: chunk_def Let_def)
  qed
qed

theorem chunks_keep_the_words_witness:
  "concat (map py_words (chunk \<lparr>ck_size = 7, ck_overlap = 0\<rparr> ''One two. Three four'')) = [''One'', ''two.'', ''Three'', ''four''] \<and>
   length (chunk \<lparr>ck_size = 7, ck_overlap = 0\<rparr> ''One two. Three four'') = 4"
proof -
  have "new_chunker 7 0 = Inr \<lparr>ck_size = 7, ck_overlap = 0\<rparr>" by (simp add: new_chunker_def)
  from chunks_keep_the_words [OF this, of "''One two. Three four''"]
  have "concat (map py_words (chunk \<lparr>ck_size = 7, ck_overlap = 0\<rparr> ''One two. Three four'')) = py_words ''One two. Three four''" .
  moreover have "py_words ''One two. Three four'' = [''One'', ''two.'', ''Three'', ''four'']" by code_simp
  moreover have "length (chunk \<lparr>ck_size = 7, ck_overlap = 0\<rparr> ''One two. Three four'') = 4" by code_simp
  ultimately show ?thesis by simp
qed

section \<open>Augmenter\<close>

datatype context_doc = PlainDoc string | DictDoc "string option" "string option"

definition separator :: string where
  "separator = [CHR 0x0A, CHR 0x0A] @ ''---'' @ [CHR 0x0A, CHR 0x0A]"

definition new_augmenter :: "int \<Rightarrow> exn + int" where
  "new_augmenter budget = (if budget \<le> 0 then Inl ValueError else Inr budget)"

text \<open>The text of a document: \<open>None\<close> for a dictionary without text, which is passed over.\<close>

definition doc_text :: "context_doc \<Rightarrow> string option" where
  "doc_text d =
     (case d of
        PlainDoc t \<Rightarrow> Some t
      | DictDoc t c \<Rightarrow>
          (let pick = (case t of Some (x # xs) \<Rightarrow> x # xs | _ \<Rightarrow> (case c of Some y \<Rightarrow> y | None \<Rightarrow> []))
           in if pick = [] then None else Some pick))"

fun context_parts :: "int \<Rightarrow> context_doc list \<Rightarrow> string list \<Rightarrow> int \<Rightarrow> string list" where
  "context_parts budget [] parts used = parts"
| "context_parts budget (d # ds) parts used =
     (case doc_text d of
        None \<Rightarrow> context_parts budget ds parts used
      | Some t \<Rightarrow>
          (let remaining = budget - used
           in if remaining \<le> 0 then parts
              else let u = (if remaining < int (length t) then take (nat remaining) t else t)
                   in context_parts budget ds (parts @ [u]) (used + int (length u))))"

fun join_with :: "string \<Rightarrow> string list \<Rightarrow> string" where
  "join_with sep [] = []"
| "join_with sep [x] = x"
| "join_with sep (x # y # xs) = x @ sep @ join_with sep (y # xs)"

definition augment :: "int \<Rightarrow> string \<Rightarrow> context_doc list \<Rightarrow> string" where
  "augment budget prompt docs =
     (if docs = [] then prompt
      else let parts = context_parts budget docs [] 0
           in if parts = [] then prompt
              else ''Use the following context to answer the question:'' @ [CHR 0x0A, CHR 0x0A] @
                   join_with separator parts @ separator @ prompt)"

text \<open>The specification: cut the concatenated texts at the budget, document by document.\<close>

fun cut_at :: "nat \<Rightarrow> string list \<Rightarrow> string list" where
  "cut_at n [] = []"
| "cut_at n (t # ts) = (if n = 0 then [] else take n t # cut_at (n - length t) ts)"

lemma context_parts_cut:
  "0 \<le> used \<Longrightarrow> used \<le> budget \<Longrightarrow>
   context_parts budget ds parts used = parts @ cut_at (nat (budget - used)) (List.map_filter doc_text ds)"
proof (induction budget ds parts used rule: context_parts.induct)
  case (2 budget d ds parts used)
  show ?case
  proof (cases "doc_text d")
    case None
    with 2 show ?thesis by (simp add: map_filter_simps)
  next
    case (Some t)
    show ?thesis
    proof (cases "budget - used \<le> 0")
      case True
      with Some "2.prems" show ?thesis by (simp add: map_filter_simps)
    next
      case False
      define u where "u = (if budget - used < int (length t) then take (nat (budget - used)) t else t)"
      have u: "u = take (nat (budget - used)) t" "int (length u) \<le> budget - used"
        using False by (auto simp: u_def)
      have n: "nat (budget - (used + int (length u))) = nat (budget - used) - length t"
        using False by (auto simp: u(1))
      have "context_parts budget ds (parts @ [u]) (used + int (length u)) =
          (parts @ [u]) @ cut_at (nat (budget - (used + int (length u)))) (List.map_filter doc_text ds)"
        using "2.IH"(2) [OF Some refl] False u "2.prems" by (simp add: u_def [symmetric])
      with Some False show ?thesis
        by (simp add: map_filter_simps u_def [symmetric] n) (simp add: u(1))
    qed
  qed
qed (simp add: map_filter_simps)

lemma concat_cut_at: "concat (cut_at n ts) = take n (concat ts)"
  by (induction n ts rule: cut_at.induct) auto

lemma length_cut_at: "length (cut_at n ts) \<le> length ts"
  by (induction n ts rule: cut_at.induct) auto

lemma length_join_with:
  "length (join_with sep ps) = length (concat ps) + (length ps - 1) * length sep"
  by (induction sep ps rule: join_with.induct) (auto simp: algebra_simps)

text \<open>
  The injected context is exactly the first \<open>budget\<close> characters of the documents' texts, so the
  budget bounds the texts but not the separators, seven characters for every document used.
\<close>

theorem context_fits_budget:
  assumes "new_augmenter budget = Inr b"
  shows "concat (context_parts b docs [] 0) = take (nat budget) (concat (List.map_filter doc_text docs)) \<and>
    length (augment b prompt docs) \<le> 51 + nat budget + 7 * length (List.map_filter doc_text docs) + length prompt"
proof -
  have b: "b = budget" "0 < budget" using assms by (auto simp: new_augmenter_def split: if_splits)
  let ?ts = "List.map_filter doc_text docs"
  have parts: "context_parts b docs [] 0 = cut_at (nat budget) ?ts"
    using context_parts_cut [of 0 b docs "[]"] b by simp
  have joined: "concat (context_parts b docs [] 0) = take (nat budget) (concat ?ts)"
    by (simp add: parts concat_cut_at)
  have "length (concat (cut_at (nat budget) ?ts)) \<le> nat budget" by (simp add: concat_cut_at)
  moreover have "length (cut_at (nat budget) ?ts) \<le> length ?ts" by (rule length_cut_at)
  ultimately have "length (augment b prompt docs) \<le> 51 + nat budget + 7 * length ?ts + length prompt"
    unfolding augment_def Let_def parts
    by (cases "cut_at (nat budget) ?ts") (auto simp: length_join_with separator_def)
  with joined show ?thesis by blast
qed

theorem context_fits_budget_witness:
  "concat (context_parts 5 [PlainDoc ''abc'', DictDoc None (Some ''defg''), PlainDoc ''x''] [] 0) = ''abcde''"
proof -
  have "new_augmenter 5 = Inr 5" by (simp add: new_augmenter_def)
  from context_fits_budget [OF this, of "[PlainDoc ''abc'', DictDoc None (Some ''defg''), PlainDoc ''x'']" "[]"]
  show ?thesis by (simp add: map_filter_simps doc_text_def)
qed

section \<open>Retriever\<close>

text \<open>
  The collection on the server and the calls to it are one parameter: what the server answers to an
  insertion, a query, a deletion and a count, \<open>None\<close> when the call raises. The state keeps whether
  the server is still used and the entries in memory.
\<close>

type_synonym metadata = "(string, pyval) dict"

record 'v retriever =
  re_use_qdrant :: bool
  re_collection_created :: bool
  re_vectors :: "'v list list"
  re_metadata :: "metadata list"
  re_dimension :: nat
  re_hybrid :: bool

record 'v server =
  sv_ensure :: bool
  sv_upsert :: "('v list \<times> metadata) list \<Rightarrow> bool"
  sv_query :: "'v list \<Rightarrow> nat \<Rightarrow> (pyval list \<times> string) option \<Rightarrow> metadata option \<Rightarrow> (rat \<times> metadata option) list option"
  sv_delete :: "metadata \<Rightarrow> nat option"
  sv_drop :: bool
  sv_count :: "nat option option"

definition new_retriever :: "bool \<Rightarrow> bool \<Rightarrow> 'v retriever" where
  "new_retriever reachable hybrid =
     \<lparr>re_use_qdrant = reachable, re_collection_created = False, re_vectors = [], re_metadata = [],
      re_dimension = 0, re_hybrid = hybrid\<rparr>"

definition ensure_collection :: "'v server \<Rightarrow> 'v retriever \<Rightarrow> 'v retriever" where
  "ensure_collection sv r =
     (if \<not> re_use_qdrant r \<or> re_collection_created r then r
      else if sv_ensure sv then r\<lparr>re_collection_created := True\<rparr> else r\<lparr>re_use_qdrant := False\<rparr>)"

definition add_to_memory :: "'v list list \<Rightarrow> metadata list \<Rightarrow> 'v retriever \<Rightarrow> 'v retriever" where
  "add_to_memory vs ms r = r\<lparr>re_vectors := re_vectors r @ vs, re_metadata := re_metadata r @ ms\<rparr>"

text \<open>The text is stored with the metadata of the points, but not with the copy the fallback keeps.\<close>

definition add_to_qdrant ::
    "'v server \<Rightarrow> 'v list list \<Rightarrow> metadata list \<Rightarrow> string list option \<Rightarrow> 'v retriever \<Rightarrow> 'v retriever" where
  "add_to_qdrant sv vs ms texts r =
     (let r1 = ensure_collection sv r;
          points = (case texts of None \<Rightarrow> zip vs ms
                    | Some ts \<Rightarrow> zip vs (map (\<lambda>(m, t). dict_put ''text'' (PStr t) m) (zip ms ts)))
      in if sv_upsert sv points then r1
         else add_to_memory vs ms (r1\<lparr>re_use_qdrant := False\<rparr>))"

definition re_add ::
    "'v server \<Rightarrow> 'v list list \<Rightarrow> metadata list option \<Rightarrow> string list option \<Rightarrow> 'v retriever \<Rightarrow> (exn + unit) \<times> 'v retriever"
  where
  "re_add sv vs ms texts r =
     (if vs = [] then (Inr (), r)
      else let dim = length (hd vs) in
        if dim = 0 then (Inl ValueError, r)
        else if list_ex (\<lambda>v. length v \<noteq> dim) vs then (Inl ValueError, r)
        else if (case ms of None \<Rightarrow> False | Some m \<Rightarrow> length m \<noteq> length vs) then (Inl ValueError, r)
        else
          (let meta = (case ms of None \<Rightarrow> replicate (length vs) [] | Some m \<Rightarrow> m)
           in if (case texts of None \<Rightarrow> False | Some t \<Rightarrow> length t \<noteq> length vs) then (Inl ValueError, r)
              else if re_dimension r \<noteq> 0 \<and> dim \<noteq> re_dimension r then (Inl ValueError, r)
              else
                (let r1 = (if re_dimension r = 0 then r\<lparr>re_dimension := dim\<rparr> else r)
                 in (Inr (), if re_use_qdrant r1 then add_to_qdrant sv vs meta texts r1
                             else add_to_memory vs meta r1))))"

text \<open>\<open>sorted(..., reverse=True)\<close> keeps the order of equal scores.\<close>

definition search_memory ::
    "('v list \<Rightarrow> 'v list \<Rightarrow> rat) \<Rightarrow> 'v list \<Rightarrow> int \<Rightarrow> 'v retriever \<Rightarrow> exn + (rat \<times> metadata) list" where
  "search_memory sim q top_k r =
     (if re_vectors r = [] then Inr []
      else if length q \<noteq> re_dimension r then Inl ValueError
      else Inr (take (nat top_k)
        (sort_key (\<lambda>(score, _). - score) (zip (map (sim q) (re_vectors r)) (re_metadata r)))))"

definition truthy :: "pyval \<Rightarrow> bool" where
  "truthy v = (case v of PNone \<Rightarrow> False | PBool b \<Rightarrow> b | PInt i \<Rightarrow> i \<noteq> 0 | PFloat r \<Rightarrow> r \<noteq> 0
     | PStr s \<Rightarrow> s \<noteq> [] | PList xs \<Rightarrow> xs \<noteq> [] | PDict d \<Rightarrow> d \<noteq> [])"

text \<open>A hybrid query hands the texts kept in memory and the query's text to the sparse embedder.\<close>

definition search_qdrant ::
    "('v list \<Rightarrow> 'v list \<Rightarrow> rat) \<Rightarrow> 'v server \<Rightarrow> 'v list \<Rightarrow> int \<Rightarrow> string option \<Rightarrow> metadata option \<Rightarrow> 'v retriever
     \<Rightarrow> (exn + (rat \<times> metadata) list) \<times> 'v retriever" where
  "search_qdrant sim sv q top_k query_text flt r =
     (let r1 = ensure_collection sv r;
          corpus = filter truthy (List.map_filter (\<lambda>m. dict_get m ''text'') (re_metadata r1));
          sparse = (if re_hybrid r1 \<and> corpus \<noteq> [] then map_option (Pair corpus) query_text else None)
      in case sv_query sv q (nat top_k) sparse (case flt of Some [] \<Rightarrow> None | f \<Rightarrow> f) of
           Some hits \<Rightarrow> (Inr (map (\<lambda>(s, p). (s, case p of None \<Rightarrow> [] | Some m \<Rightarrow> m)) hits), r1)
         | None \<Rightarrow> (search_memory sim q top_k r1, r1\<lparr>re_use_qdrant := False\<rparr>))"

definition re_search ::
    "('v list \<Rightarrow> 'v list \<Rightarrow> rat) \<Rightarrow> 'v server \<Rightarrow> 'v list \<Rightarrow> int \<Rightarrow> string option \<Rightarrow> metadata option \<Rightarrow> 'v retriever
     \<Rightarrow> (exn + (rat \<times> metadata) list) \<times> 'v retriever" where
  "re_search sim sv q top_k query_text flt r =
     (if top_k \<le> 0 then (Inr [], r)
      else if re_use_qdrant r then search_qdrant sim sv q top_k query_text flt r
      else (search_memory sim q top_k r, r))"

definition re_clear :: "'v server \<Rightarrow> 'v retriever \<Rightarrow> 'v retriever" where
  "re_clear sv r =
     r\<lparr>re_collection_created := (if re_use_qdrant r \<and> sv_drop sv then False else re_collection_created r),
       re_vectors := [], re_metadata := [], re_dimension := 0\<rparr>"

definition delete_by_filter :: "'v server \<Rightarrow> metadata \<Rightarrow> 'v retriever \<Rightarrow> nat" where
  "delete_by_filter sv f r =
     (if re_use_qdrant r then (case sv_delete sv f of None \<Rightarrow> 0 | Some n \<Rightarrow> n) else 0)"

definition re_len :: "'v server \<Rightarrow> 'v retriever \<Rightarrow> nat" where
  "re_len sv r =
     (if re_use_qdrant r then
        (case sv_count sv of
           None \<Rightarrow> length (re_vectors r)
         | Some n \<Rightarrow> (case n of None \<Rightarrow> 0 | Some k \<Rightarrow> k))
      else length (re_vectors r))"

datatype 'v rag_op =
    AddOp "'v server" "'v list list" "metadata list option" "string list option"
  | SearchOp "'v server" "'v list" int "string option" "metadata option"
  | ClearOp "'v server"

fun run_rag :: "('v list \<Rightarrow> 'v list \<Rightarrow> rat) \<Rightarrow> 'v rag_op \<Rightarrow> 'v retriever \<Rightarrow> 'v retriever" where
  "run_rag sim (AddOp sv vs ms ts) r = snd (re_add sv vs ms ts r)"
| "run_rag sim (SearchOp sv q k t f) r = snd (re_search sim sv q k t f r)"
| "run_rag sim (ClearOp sv) r = re_clear sv r"

text \<open>
  What holds of the store at all times: vectors and metadata go together, all vectors have the
  recorded dimension, and as long as the server is used nothing is kept in memory.
\<close>

definition rag_inv :: "'v retriever \<Rightarrow> bool" where
  "rag_inv r \<longleftrightarrow> length (re_vectors r) = length (re_metadata r) \<and>
     (\<forall>v \<in> set (re_vectors r). length v = re_dimension r) \<and>
     (re_dimension r = 0 \<longrightarrow> re_vectors r = []) \<and>
     (re_use_qdrant r \<longrightarrow> re_vectors r = [] \<and> re_metadata r = [])"

lemma rag_inv_new: "rag_inv (new_retriever b h)"
  by (simp add: rag_inv_def new_retriever_def)

lemma rag_inv_flags:
  "rag_inv r \<Longrightarrow> rag_inv (ensure_collection sv r)" "rag_inv r \<Longrightarrow> rag_inv (r\<lparr>re_use_qdrant := False\<rparr>)"
  "rag_inv (re_clear sv r)"
  by (auto simp: rag_inv_def ensure_collection_def re_clear_def)

lemma ensure_keeps [simp]:
  "re_vectors (ensure_collection sv r) = re_vectors r" "re_metadata (ensure_collection sv r) = re_metadata r"
  "re_dimension (ensure_collection sv r) = re_dimension r" "re_hybrid (ensure_collection sv r) = re_hybrid r"
  by (simp_all add: ensure_collection_def)

lemma rag_inv_memory:
  "rag_inv r \<Longrightarrow> \<not> re_use_qdrant r \<Longrightarrow> length vs = length ms \<Longrightarrow> list_all (\<lambda>v. length v = re_dimension r) vs \<Longrightarrow>
   re_dimension r \<noteq> 0 \<Longrightarrow> rag_inv (add_to_memory vs ms r)"
  by (auto simp: rag_inv_def add_to_memory_def list_all_iff)

lemma rag_inv_qdrant:
  assumes "rag_inv r" and "length vs = length ms" and "list_all (\<lambda>v. length v = re_dimension r) vs"
    and "re_dimension r \<noteq> 0"
  shows "rag_inv (add_to_qdrant sv vs ms ts r)"
proof -
  let ?r = "(ensure_collection sv r)\<lparr>re_use_qdrant := False\<rparr>"
  have "rag_inv (add_to_memory vs ms ?r)"
    using assms by (intro rag_inv_memory rag_inv_flags) simp_all
  with rag_inv_flags(1) [OF assms(1)] show ?thesis by (simp add: add_to_qdrant_def Let_def)
qed

lemma rag_inv_add: "rag_inv r \<Longrightarrow> rag_inv (snd (re_add sv vs ms ts r))"
proof -
  assume r: "rag_inv r"
  define dim where "dim = length (hd vs)"
  define r1 where "r1 = (if re_dimension r = 0 then r\<lparr>re_dimension := dim\<rparr> else r)"
  define meta where "meta = (case ms of None \<Rightarrow> replicate (length vs) [] | Some m \<Rightarrow> m)"
  have r1: "rag_inv r1" using r by (auto simp: r1_def rag_inv_def)
  have add: "rag_inv (if re_use_qdrant r1 then add_to_qdrant sv vs meta ts r1 else add_to_memory vs meta r1)"
    if "dim \<noteq> 0" "\<not> list_ex (\<lambda>v. length v \<noteq> dim) vs" "\<not> (re_dimension r \<noteq> 0 \<and> dim \<noteq> re_dimension r)"
      "length vs = length meta"
  proof -
    have "list_all (\<lambda>v. length v = re_dimension r1) vs"
      using that by (auto simp: r1_def list_all_iff list_ex_iff)
    moreover have "re_dimension r1 \<noteq> 0" using that(1) by (simp add: r1_def)
    ultimately show ?thesis using rag_inv_qdrant [OF r1 that(4)] rag_inv_memory [OF r1 _ that(4)] by simp
  qed
  have meta: "\<not> (case ms of None \<Rightarrow> False | Some m \<Rightarrow> length m \<noteq> length vs) \<Longrightarrow> length vs = length meta"
    by (auto simp: meta_def split: option.splits)
  show ?thesis
    unfolding re_add_def Let_def dim_def [symmetric] r1_def [symmetric] meta_def [symmetric]
    using r add meta by (simp split: if_splits)
qed

lemma rag_inv_search: "rag_inv r \<Longrightarrow> rag_inv (snd (re_search sim sv q k t f r))"
  using rag_inv_flags(1) [of r sv] rag_inv_flags(2) [of "ensure_collection sv r"]
  by (simp add: re_search_def search_qdrant_def Let_def split: option.split)

lemma rag_inv_run: "rag_inv r \<Longrightarrow> rag_inv (run_rag sim op r)"
  by (cases op) (simp_all add: rag_inv_add rag_inv_search rag_inv_flags)

lemma rag_inv_history: "rag_inv (fold (run_rag sim) ops (new_retriever b h))"
proof -
  have "rag_inv r \<Longrightarrow> rag_inv (fold (run_rag sim) ops r)" for r
    by (induction ops arbitrary: r) (simp_all add: rag_inv_run)
  then show ?thesis using rag_inv_new by blast
qed

text \<open>
  As long as the server is used, the texts for the sparse half of a hybrid query are looked for in
  the metadata kept in memory, which is empty then: after every history a search gives the server a
  dense query only, whatever the text of the query, and when the server fails the answer comes from
  an empty list although documents were added.
\<close>

theorem hybrid_search_never_used:
  assumes "re_use_qdrant (fold (run_rag sim) ops (new_retriever b h))" and "0 < top_k"
  shows "fst (re_search sim sv q top_k query_text flt (fold (run_rag sim) ops (new_retriever b h))) =
    (case sv_query sv q (nat top_k) None (case flt of Some [] \<Rightarrow> None | f \<Rightarrow> f) of
       Some hits \<Rightarrow> Inr (map (\<lambda>(s, p). (s, case p of None \<Rightarrow> [] | Some m \<Rightarrow> m)) hits)
     | None \<Rightarrow> Inr [])"
proof -
  let ?r = "fold (run_rag sim) ops (new_retriever b h)"
  have empty: "re_vectors ?r = []" "re_metadata ?r = []"
    using rag_inv_history [of sim ops b h] assms(1) by (auto simp: rag_inv_def)
  show ?thesis
    using assms by (simp add: re_search_def search_qdrant_def Let_def empty search_memory_def map_filter_simps split: option.split)
qed

definition demo_server :: "bool \<Rightarrow> rat server" where
  "demo_server up = \<lparr>sv_ensure = True, sv_upsert = (\<lambda>_. True),
     sv_query = (\<lambda>_ _ _ _. if up then Some [(1, None)] else None), sv_delete = (\<lambda>_. None), sv_drop = True,
     sv_count = Some (Some 1)\<rparr>"

theorem hybrid_search_never_used_witness:
  "fst (re_search (\<lambda>_ _. 0) (demo_server False) [1] 5 (Some ''q'') None
     (fold (run_rag (\<lambda>_ _. 0)) [AddOp (demo_server True) [[1]] None (Some [''doc''])] (new_retriever True True))) = Inr []"
proof -
  have "re_use_qdrant (fold (run_rag (\<lambda>_ _. 0)) [AddOp (demo_server True) [[1]] None (Some [''doc''])] (new_retriever True True))"
    by (simp add: re_add_def new_retriever_def add_to_qdrant_def ensure_collection_def demo_server_def Let_def)
  from hybrid_search_never_used [OF this, of 5 "demo_server False" "[1]" "Some ''q''" None]
  show ?thesis by (simp add: demo_server_def)
qed

text \<open>What the search in memory returns: the best entries, best first, ties in the order of insertion.\<close>

lemma search_memory_best:
  assumes "search_memory sim q top_k r = Inr hits" and "rag_inv r" and "re_vectors r \<noteq> []"
  shows "sorted (map (\<lambda>(s, _). - s) hits) \<and> length hits = min (nat top_k) (length (re_vectors r)) \<and>
    hits = take (nat top_k) (sort_key (\<lambda>(s, _). - s) (zip (map (sim q) (re_vectors r)) (re_metadata r)))"
proof -
  let ?all = "sort_key (\<lambda>(s, _). - s) (zip (map (sim q) (re_vectors r)) (re_metadata r))"
  have hits: "hits = take (nat top_k) ?all"
    using assms(1,3) by (simp add: search_memory_def split: if_splits)
  moreover have "sorted (map (\<lambda>(s, _). - s) ?all)" by simp
  ultimately have "sorted (map (\<lambda>(s, _). - s) hits)" by (simp add: take_map [symmetric] sorted_wrt_take)
  moreover have "length (re_vectors r) = length (re_metadata r)" using assms(2) by (simp add: rag_inv_def)
  ultimately show ?thesis using hits by simp
qed

end
