(* ===== verification/Memory.thy ===== *)
theory Memory
  imports Rag
begin

text \<open>
  The memory graph, \<open>src/agent/sovereign/memory_graph.py\<close>: nodes by identifier, an index of their tags,
  ranked queries, and the extraction of lessons from a model's reply. The embedding provider, the
  identifiers drawn and the model are parameters.
\<close>

section \<open>Memory\<close>

record memory_node =
  mn_id :: string
  mn_tier :: string
  mn_category :: string
  mn_content :: string
  mn_context :: "(string, pyval) dict"
  mn_timestamp :: time
  mn_tags :: "string list"
  mn_related :: "string list"
  mn_confidence :: rat
  mn_embedding :: "rat list option"

record memory =
  me_nodes :: "(string, memory_node) dict"
  me_index :: "(string, string list) dict"

record provider =
  pv_encode :: "string \<Rightarrow> rat list"
  pv_similarity :: "rat list \<Rightarrow> rat list \<Rightarrow> rat"

definition new_memory :: memory where
  "new_memory = \<lparr>me_nodes = [], me_index = []\<rparr>"

definition index_tag :: "string \<Rightarrow> string \<Rightarrow> (string, string list) dict \<Rightarrow> (string, string list) dict" where
  "index_tag nid tag idx = dict_put tag ((case dict_get idx tag of None \<Rightarrow> [] | Some ids \<Rightarrow> ids) @ [nid]) idx"

text \<open>The tags of a node are a set; \<open>nid\<close> is the random identifier.\<close>

definition commit ::
    "provider \<Rightarrow> string \<Rightarrow> time \<Rightarrow> string \<Rightarrow> string \<Rightarrow> string \<Rightarrow> (string, pyval) dict \<Rightarrow> string list option
     \<Rightarrow> rat list option \<Rightarrow> memory \<Rightarrow> memory" where
  "commit pv nid now tier category content context tags embedding s =
     (let node = \<lparr>mn_id = nid, mn_tier = tier, mn_category = category, mn_content = content, mn_context = context,
                  mn_timestamp = now, mn_tags = remdups (case tags of None \<Rightarrow> [] | Some ts \<Rightarrow> ts), mn_related = [], mn_confidence = 1,
                  mn_embedding = Some (case embedding of None \<Rightarrow> pv_encode pv content | Some e \<Rightarrow> e)\<rparr>
      in \<lparr>me_nodes = dict_put nid node (me_nodes s),
          me_index = fold (index_tag nid) (mn_tags node) (me_index s)\<rparr>)"

definition commit_lesson ::
    "provider \<Rightarrow> string \<Rightarrow> time \<Rightarrow> string \<Rightarrow> string \<Rightarrow> (string, pyval) dict \<Rightarrow> string list option \<Rightarrow> memory \<Rightarrow> memory" where
  "commit_lesson pv nid now category content context tags s =
     commit pv nid now ''semantic'' category content context tags None s"

definition link_nodes :: "string \<Rightarrow> string \<Rightarrow> memory \<Rightarrow> memory" where
  "link_nodes a b s =
     (if dict_get (me_nodes s) a \<noteq> None \<and> dict_get (me_nodes s) b \<noteq> None
      then s\<lparr>me_nodes := dict_mut b (\<lambda>n. n\<lparr>mn_related := mn_related n @ [a]\<rparr>)
              (dict_mut a (\<lambda>n. n\<lparr>mn_related := mn_related n @ [b]\<rparr>) (me_nodes s))\<rparr>
      else s)"

fun look_up :: "(string, memory_node) dict \<Rightarrow> string list \<Rightarrow> exn + memory_node list" where
  "look_up nodes [] = Inr []"
| "look_up nodes (i # ids) =
     (case dict_get nodes i of None \<Rightarrow> Inl KeyError | Some n \<Rightarrow> map_sum id ((#) n) (look_up nodes ids))"

definition candidates :: "string list option \<Rightarrow> memory \<Rightarrow> exn + memory_node list" where
  "candidates tags s =
     (case tags of
        Some (t # ts) \<Rightarrow>
          look_up (me_nodes s) (concat (map (\<lambda>tag. case dict_get (me_index s) tag of None \<Rightarrow> [] | Some ids \<Rightarrow> ids) (t # ts)))
      | _ \<Rightarrow> Inr (dict_values (me_nodes s)))"

definition keyword_score :: "string \<Rightarrow> string \<Rightarrow> rat" where
  "keyword_score query content =
     (let qs = remdups (py_words (py_lower query)); cs = py_words (py_lower content);
          overlap = length (filter (\<lambda>w. w \<in> set cs) qs)
      in min 1 (of_nat overlap / (of_nat (length qs) + 1 / 1000000)))"

definition node_score :: "provider \<Rightarrow> string \<Rightarrow> memory_node \<Rightarrow> rat" where
  "node_score pv query n =
     (let qv = pv_encode pv query;
          sem = (case mn_embedding n of
                   Some e \<Rightarrow> if qv \<noteq> [] \<and> e \<noteq> [] then pv_similarity pv qv e else 0
                 | None \<Rightarrow> 0)
      in if sem = 0 then keyword_score query (mn_content n) else sem)"

fun take_unique :: "int \<Rightarrow> memory_node list \<Rightarrow> memory_node list \<Rightarrow> memory_node list" where
  "take_unique limit acc [] = acc"
| "take_unique limit acc (n # ns) =
     (let acc' = (if mn_id n \<in> set (map mn_id acc) then acc else acc @ [n])
      in if limit \<le> int (length acc') then acc' else take_unique limit acc' ns)"

definition query ::
    "provider \<Rightarrow> string \<Rightarrow> string option \<Rightarrow> string list option \<Rightarrow> int \<Rightarrow> memory \<Rightarrow> exn + memory_node list" where
  "query pv q tier tags limit s =
     (case candidates tags s of
        Inl e \<Rightarrow> Inl e
      | Inr cs \<Rightarrow>
          (let kept = (case tier of Some (c # t) \<Rightarrow> filter (\<lambda>n. mn_tier n = c # t) cs | _ \<Rightarrow> cs)
           in Inr (take_unique limit [] (sort_key (\<lambda>n. - node_score pv q n) kept))))"

definition query_patterns :: "provider \<Rightarrow> string \<Rightarrow> string list option \<Rightarrow> memory \<Rightarrow> exn + memory_node list" where
  "query_patterns pv text tags s = query pv text None tags 5 s"

definition get_distilled_lessons :: "provider \<Rightarrow> string \<Rightarrow> int \<Rightarrow> memory \<Rightarrow> exn + string list" where
  "get_distilled_lessons pv q limit s =
     map_sum id (map mn_content) (query pv q (Some ''semantic'') (Some [''distilled_rule'']) limit s)"

text \<open>\<open>str.replace(w, "")\<close>, and the lines and fields of a reply.\<close>

function remove_all :: "string \<Rightarrow> string \<Rightarrow> string" where
  "remove_all w [] = []"
| "remove_all w (c # s) =
     (if w \<noteq> [] \<and> prefix w (c # s) then remove_all w (drop (length w) (c # s)) else c # remove_all w s)"
  by pat_completeness auto
termination
  by (relation "measure (length \<circ> snd)") (auto simp: neq_Nil_conv)

fun split_at_char :: "char \<Rightarrow> string \<Rightarrow> string list" where
  "split_at_char d [] = [[]]"
| "split_at_char d (c # s) =
     (if c = d then [] # split_at_char d s
      else case split_at_char d s of y # ys \<Rightarrow> (c # y) # ys | [] \<Rightarrow> [[c]])"

definition parse_rule :: "string \<Rightarrow> (string \<times> string list) option" where
  "parse_rule line =
     (if prefix ''RULE:'' line then
        (case split_at_char (CHR ''|'') line of
           a # b # c # _ \<Rightarrow>
             Some (py_strip (remove_all ''RULE:'' a) @ '': '' @ py_strip (remove_all ''CONTENT:'' b),
                   map py_strip (split_at_char (CHR '','') (remove_all ''TAGS:'' c)))
         | _ \<Rightarrow> None)
      else None)"

fun commit_rules ::
    "provider \<Rightarrow> time \<Rightarrow> string list \<Rightarrow> (nat \<Rightarrow> string) \<Rightarrow> nat \<Rightarrow> (string \<times> string list) list \<Rightarrow> memory
     \<Rightarrow> string list \<times> memory" where
  "commit_rules pv now sources ids k [] s = ([], s)"
| "commit_rules pv now sources ids k ((content, tags) # rs) s =
     (case commit_rules pv now sources ids (Suc k) rs
        (commit pv (ids k) now ''semantic'' ''distilled_rule'' content
           [(''source_traces'', PList (map PStr sources))] (Some tags) None s) of
        (out, s') \<Rightarrow> (ids k # out, s'))"

text \<open>\<open>llm\<close> answers the prompt built from the traces, or fails; \<open>ids\<close> supplies the new identifiers.\<close>

definition distill_lessons ::
    "provider \<Rightarrow> time \<Rightarrow> (memory_node list \<Rightarrow> string option) \<Rightarrow> (nat \<Rightarrow> string) \<Rightarrow> string list \<Rightarrow> memory
     \<Rightarrow> string list \<times> memory" where
  "distill_lessons pv now llm ids episodic s =
     (if episodic = [] then ([], s)
      else case llm (List.map_filter (dict_get (me_nodes s)) episodic) of
          None \<Rightarrow> ([], s)
        | Some response \<Rightarrow>
            commit_rules pv now episodic ids 0 (List.map_filter parse_rule (split_at_char (CHR 0x0A) response)) s)"

section \<open>What memory recalls\<close>

datatype memory_op =
    CommitNode string time string string string "(string, pyval) dict" "string list option" "rat list option"
  | LinkNodes string string

fun apply_memory_op :: "provider \<Rightarrow> memory_op \<Rightarrow> memory \<Rightarrow> memory" where
  "apply_memory_op pv (CommitNode nid now tier category content ctx tags e) s =
     commit pv nid now tier category content ctx tags e s"
| "apply_memory_op pv (LinkNodes a b) s = link_nodes a b s"

definition memory_history :: "provider \<Rightarrow> memory_op list \<Rightarrow> memory" where
  "memory_history pv ops = fold (apply_memory_op pv) ops new_memory"

fun new_node_ids :: "memory_op list \<Rightarrow> string list" where
  "new_node_ids [] = []"
| "new_node_ids (CommitNode nid now tier category content ctx tags e # ops) = nid # new_node_ids ops"
| "new_node_ids (LinkNodes a b # ops) = new_node_ids ops"

text \<open>The index lists exactly the stored nodes that carry a tag, each under its own identifier.\<close>

definition memory_ok :: "memory \<Rightarrow> bool" where
  "memory_ok s \<longleftrightarrow> dict_wf (me_nodes s) \<and>
     (\<forall>i n. dict_get (me_nodes s) i = Some n \<longrightarrow> mn_id n = i) \<and>
     (\<forall>tag i. i \<in> set (case dict_get (me_index s) tag of None \<Rightarrow> [] | Some ids \<Rightarrow> ids) \<longleftrightarrow>
        (\<exists>n. dict_get (me_nodes s) i = Some n \<and> tag \<in> set (mn_tags n)))"

lemma index_of_tags:
  "set (case dict_get (fold (index_tag nid) ts idx) tag of None \<Rightarrow> [] | Some ids \<Rightarrow> ids) =
     (if tag \<in> set ts then {nid} else {}) \<union> set (case dict_get idx tag of None \<Rightarrow> [] | Some ids \<Rightarrow> ids)"
  by (induction ts arbitrary: idx) (auto simp: index_tag_def split: option.splits)

lemma commit_ok:
  assumes "memory_ok s" "dict_get (me_nodes s) nid = None"
  shows "memory_ok (commit pv nid now tier category content ctx tags e s)"
  using assms by (auto simp: memory_ok_def commit_def Let_def index_of_tags split: if_splits)

lemma link_ok: "memory_ok s \<Longrightarrow> memory_ok (link_nodes a b s)"
  unfolding memory_ok_def link_nodes_def by (auto split: if_splits)

lemma commit_nodes:
  "dict_get (me_nodes (commit pv nid now tier category content ctx tags e s)) i \<noteq> None \<longleftrightarrow>
     i = nid \<or> dict_get (me_nodes s) i \<noteq> None"
  by (simp add: commit_def Let_def)

lemma link_nodes_keys:
  "dict_get (me_nodes (link_nodes a b s)) i = None \<longleftrightarrow> dict_get (me_nodes s) i = None"
  by (auto simp: link_nodes_def)

lemma history_ok:
  assumes "memory_ok s" "distinct (new_node_ids ops)"
    "list_all (\<lambda>i. dict_get (me_nodes s) i = None) (new_node_ids ops)"
  shows "memory_ok (fold (apply_memory_op pv) ops s)"
  using assms
proof (induction ops arbitrary: s)
  case (Cons a ops)
  show ?case
  proof (cases a)
    case (CommitNode nid now tier category content ctx tags e)
    let ?s = "commit pv nid now tier category content ctx tags e s"
    have ok: "memory_ok ?s"
      using Cons.prems by (simp add: CommitNode commit_ok)
    moreover have "list_all (\<lambda>i. dict_get (me_nodes ?s) i = None) (new_node_ids ops)"
      using Cons.prems by (auto simp: CommitNode list_all_iff commit_def Let_def)
    ultimately have "memory_ok (fold (apply_memory_op pv) ops ?s)"
      using Cons.prems(2) by (intro Cons.IH) (simp_all add: CommitNode)
    then show ?thesis by (simp add: CommitNode)
  next
    case (LinkNodes x y)
    then show ?thesis
      using Cons.prems Cons.IH [of "link_nodes x y s"] by (simp add: link_ok link_nodes_keys)
  qed
qed simp

lemma memory_history_ok: "distinct (new_node_ids ops) \<Longrightarrow> memory_ok (memory_history pv ops)"
  unfolding memory_history_def by (rule history_ok) (simp_all add: memory_ok_def new_memory_def list_all_iff)

lemma stored_ids_distinct:
  assumes "memory_ok s" shows "distinct (map mn_id (dict_values (me_nodes s)))"
proof -
  have "map (mn_id \<circ> snd) (me_nodes s) = dict_keys (me_nodes s)"
    using assms by (auto simp: memory_ok_def simp flip: dict_mem_get)
  moreover have "distinct (dict_keys (me_nodes s))"
    using assms by (simp add: memory_ok_def dict_wf_def)
  ultimately show ?thesis by (metis map_map)
qed

text \<open>The nodes a query may return, and the first occurrences of a list of nodes.\<close>

definition has_tag :: "string list option \<Rightarrow> memory_node \<Rightarrow> bool" where
  "has_tag tags n = (case tags of Some (t # ts) \<Rightarrow> list_ex (\<lambda>tag. tag \<in> set (mn_tags n)) (t # ts) | _ \<Rightarrow> True)"

definition matching_nodes :: "string option \<Rightarrow> string list option \<Rightarrow> memory \<Rightarrow> memory_node list" where
  "matching_nodes tier tags s =
     filter (\<lambda>n. (case tier of Some (c # t) \<Rightarrow> mn_tier n = c # t | _ \<Rightarrow> True) \<and> has_tag tags n)
       (dict_values (me_nodes s))"

fun first_nodes :: "string list \<Rightarrow> memory_node list \<Rightarrow> memory_node list" where
  "first_nodes seen [] = []"
| "first_nodes seen (n # ns) =
     (if mn_id n \<in> set seen then first_nodes seen ns else n # first_nodes (mn_id n # seen) ns)"

lemma first_nodes_cong: "set seen = set seen' \<Longrightarrow> first_nodes seen ns = first_nodes seen' ns"
proof (induction ns arbitrary: seen seen')
  case (Cons n ns)
  show ?case
    using Cons.IH [of "mn_id n # seen" "mn_id n # seen'"] Cons.IH [OF Cons.prems] Cons.prems by simp
qed simp

lemma take_unique_eq:
  "int (length acc) < limit \<Longrightarrow>
     take_unique limit acc ns = acc @ take (nat limit - length acc) (first_nodes (map mn_id acc) ns)"
proof (induction ns arbitrary: acc)
  case (Cons n ns)
  have "first_nodes (map mn_id (acc @ [n])) ns = first_nodes (mn_id n # map mn_id acc) ns"
    by (rule first_nodes_cong) auto
  moreover have "nat limit - length acc = Suc (nat limit - Suc (length acc))"
    using Cons.prems by simp
  ultimately show ?case
    using Cons.prems Cons.IH [of "acc @ [n]"] Cons.IH [of acc] by (auto simp: Let_def)
qed simp

lemma take_unique_first: "take_unique limit [] ns = take (nat (max 1 limit)) (first_nodes [] ns)"
proof (cases "0 < limit")
  case True
  then show ?thesis using take_unique_eq [of "[]" limit ns] by (simp add: max_def)
next
  case False
  then show ?thesis by (cases ns) (simp_all add: Let_def max_def)
qed

lemma first_nodes_subseq: "subseq (first_nodes seen ns) ns"
  by (induction ns arbitrary: seen) auto

lemma first_nodes_ids:
  "set (map mn_id (first_nodes seen ns)) = set (map mn_id ns) - set seen"
  "distinct (map mn_id (first_nodes seen ns))"
  by (induction ns arbitrary: seen) (auto simp del: set_map simp: list.set_map)

lemma look_up_total:
  "list_all (\<lambda>i. dict_get nodes i \<noteq> None) ids \<Longrightarrow> look_up nodes ids = Inr (map (the \<circ> dict_get nodes) ids)"
  by (induction ids) auto

lemma candidates_exact:
  assumes "memory_ok s"
  obtains cs where "candidates tags s = Inr cs"
    "set cs = {n \<in> set (dict_values (me_nodes s)). has_tag tags n}"
proof (cases "\<exists>t ts. tags = Some (t # ts)")
  case False
  then have "candidates tags s = Inr (dict_values (me_nodes s))"
    by (simp add: candidates_def split: option.split list.split)
  moreover have "has_tag tags n" for n
    using False by (simp add: has_tag_def split: option.split list.split)
  ultimately show ?thesis using that by simp
next
  case True
  then obtain t ts where tags: "tags = Some (t # ts)" by blast
  let ?ids = "concat (map (\<lambda>tag. case dict_get (me_index s) tag of None \<Rightarrow> [] | Some ids \<Rightarrow> ids) (t # ts))"
  have ids: "i \<in> set ?ids \<longleftrightarrow> (\<exists>n. dict_get (me_nodes s) i = Some n \<and> has_tag tags n)" for i
  proof -
    have index: "i \<in> set (case dict_get (me_index s) tag of None \<Rightarrow> [] | Some ids \<Rightarrow> ids) \<longleftrightarrow>
       (\<exists>n. dict_get (me_nodes s) i = Some n \<and> tag \<in> set (mn_tags n))" for tag
      using assms unfolding memory_ok_def by blast
    have "i \<in> set ?ids \<longleftrightarrow> list_ex (\<lambda>tag. i \<in> set (case dict_get (me_index s) tag of None \<Rightarrow> [] | Some ids \<Rightarrow> ids)) (t # ts)"
      unfolding set_concat set_map list_ex_iff by blast
    then show ?thesis unfolding index has_tag_def tags option.case list.case list_ex_iff by blast
  qed
  have "list_all (\<lambda>i. dict_get (me_nodes s) i \<noteq> None) ?ids"
    unfolding list_all_iff using ids by blast
  then have "candidates tags s = Inr (map (the \<circ> dict_get (me_nodes s)) ?ids)"
    by (simp only: candidates_def tags option.case list.case look_up_total)
  moreover have "n \<in> set (map (the \<circ> dict_get (me_nodes s)) ?ids) \<longleftrightarrow>
     n \<in> set (dict_values (me_nodes s)) \<and> has_tag tags n" for n
  proof -
    have "n \<in> set (map (the \<circ> dict_get (me_nodes s)) ?ids) \<longleftrightarrow> (\<exists>i. i \<in> set ?ids \<and> n = the (dict_get (me_nodes s) i))"
      unfolding set_map comp_def by blast
    also have "\<dots> \<longleftrightarrow> (\<exists>i. dict_get (me_nodes s) i = Some n \<and> has_tag tags n)"
      unfolding ids by force
    also have "\<dots> \<longleftrightarrow> (\<exists>i. dict_get (me_nodes s) i = Some n) \<and> has_tag tags n"
      by blast
    also have "(\<exists>i. dict_get (me_nodes s) i = Some n) \<longleftrightarrow> n \<in> set (dict_values (me_nodes s))"
      using assms by (force simp: memory_ok_def dict_mem_get [symmetric])
    finally show ?thesis .
  qed
  ultimately show ?thesis using that by (simp only: set_eq_iff mem_Collect_eq) blast
qed

lemma sorted_subseq: "subseq xs ys \<Longrightarrow> sorted ys \<Longrightarrow> sorted xs"
  by (metis subseq_conv_nths sorted_nths)

lemma sorted_take_drop:
  assumes "sorted (map f xs)" "x \<in> set (take k xs)" "y \<in> set (drop k xs)"
  shows "f x \<le> f y"
proof -
  have "sorted (map f (take k xs) @ map f (drop k xs))"
    using assms(1) by (simp flip: map_append)
  then show ?thesis using assms(2,3) by (auto simp: sorted_append)
qed

text \<open>A query over a consistent memory is the ranking of the matching nodes, cut at the limit.\<close>

lemma query_ranking:
  assumes "memory_ok s"
  obtains ranked where
    "query pv q tier tags limit s = Inr (take (nat (max 1 limit)) ranked)"
    "set ranked = set (matching_nodes tier tags s)" "distinct (map mn_id ranked)"
    "sorted (map (\<lambda>n. - node_score pv q n) ranked)"
proof -
  obtain cs where cs: "candidates tags s = Inr cs"
      "set cs = {n \<in> set (dict_values (me_nodes s)). has_tag tags n}"
    using assms by (rule candidates_exact)
  let ?kept = "case tier of Some (c # t) \<Rightarrow> filter (\<lambda>n. mn_tier n = c # t) cs | _ \<Rightarrow> cs"
  let ?sorted = "sort_key (\<lambda>n. - node_score pv q n) ?kept"
  let ?ranked = "first_nodes [] ?sorted"
  have kept: "set ?kept = set (matching_nodes tier tags s)"
    using cs(2) by (auto simp: matching_nodes_def split: option.split list.split)
  have ids: "inj_on mn_id (set (dict_values (me_nodes s)))"
    using stored_ids_distinct [OF assms] by (simp only: distinct_map)
  have sub: "set ?ranked \<subseteq> set ?sorted"
    using first_nodes_subseq [of "[]" ?sorted] by (metis subseq_conv_nths set_nths_subset)
  have "mn_id ` set ?ranked = mn_id ` set ?sorted"
    using first_nodes_ids(1) [of "[]" ?sorted] by simp
  moreover have "set ?sorted \<subseteq> set (dict_values (me_nodes s))"
    using kept by (auto simp: matching_nodes_def)
  ultimately have "set ?ranked = set ?sorted"
    using ids sub by (meson inj_on_image_eq_iff subset_trans)
  then have "set ?ranked = set (matching_nodes tier tags s)"
    by (simp only: set_sort kept)
  moreover have "sorted (map (\<lambda>n. - node_score pv q n) ?ranked)"
    by (rule sorted_subseq [OF subseq_map [OF first_nodes_subseq]]) simp
  moreover have "query pv q tier tags limit s = Inr (take (nat (max 1 limit)) ?ranked)"
    by (simp only: query_def cs(1) sum.case Let_def take_unique_first)
  ultimately show ?thesis using that first_nodes_ids(2) by blast
qed

text \<open>
  C13. When the identifiers drawn are distinct, no query of a memory ever raises: it returns distinct
  stored nodes of the tier that carry one of the tags, best score first, at most \<open>limit\<close> of them but
  at least one when there is any, and no other matching node scores higher than a returned one.
\<close>

theorem query_returns_best_matches:
  assumes "distinct (new_node_ids ops)"
  shows "\<exists>ns. query pv q tier tags limit (memory_history pv ops) = Inr ns \<and>
     sorted (map (\<lambda>n. - node_score pv q n) ns) \<and> distinct (map mn_id ns) \<and>
     length ns = min (nat (max 1 limit)) (length (matching_nodes tier tags (memory_history pv ops))) \<and>
     set ns \<subseteq> set (matching_nodes tier tags (memory_history pv ops)) \<and>
     filter (\<lambda>m. m \<notin> set ns \<and> list_ex (\<lambda>n. node_score pv q n < node_score pv q m) ns)
       (matching_nodes tier tags (memory_history pv ops)) = []"
proof -
  let ?s = "memory_history pv ops" and ?k = "nat (max 1 limit)"
  let ?M = "matching_nodes tier tags ?s"
  have ok: "memory_ok ?s" using assms by (rule memory_history_ok)
  then obtain ranked where ranked: "query pv q tier tags limit ?s = Inr (take ?k ranked)"
      "set ranked = set ?M" "distinct (map mn_id ranked)" "sorted (map (\<lambda>n. - node_score pv q n) ranked)"
    by (rule query_ranking)
  have "distinct ?M"
    unfolding matching_nodes_def using stored_ids_distinct [OF ok]
    by (intro distinct_filter) (simp only: distinct_map)
  then have "length ranked = length ?M"
    using ranked(2,3) by (metis distinct_card distinct_map)
  moreover have "sorted (map (\<lambda>n. - node_score pv q n) (take ?k ranked))"
    using ranked(4) by (metis sorted_wrt_take take_map)
  moreover have "distinct (map mn_id (take ?k ranked))"
    using ranked(3) by (metis distinct_take take_map)
  moreover have "set (take ?k ranked) \<subseteq> set ?M"
    using ranked(2) set_take_subset by metis
  moreover have "filter (\<lambda>m. m \<notin> set (take ?k ranked) \<and>
      list_ex (\<lambda>n. node_score pv q n < node_score pv q m) (take ?k ranked)) ?M = []"
  proof -
    have "node_score pv q m \<le> node_score pv q n"
      if "m \<in> set ?M" "m \<notin> set (take ?k ranked)" "n \<in> set (take ?k ranked)" for m n
    proof -
      have "m \<in> set (drop ?k ranked)"
        using that(1,2) ranked(2) by (metis Un_iff append_take_drop_id set_append)
      then show ?thesis using sorted_take_drop [OF ranked(4) that(3)] by simp
    qed
    then show ?thesis unfolding filter_empty_conv list_ex_iff by (meson not_le)
  qed
  ultimately show ?thesis using ranked(1) by (intro exI [of _ "take ?k ranked"]) (simp add: min.commute)
qed

theorem query_returns_best_matches_witness:
  "\<exists>ns. query \<lparr>pv_encode = \<lambda>_. [], pv_similarity = \<lambda>_ _. 0\<rparr> ''fix'' (Some ''semantic'') (Some [''t'']) 0
     (memory_history \<lparr>pv_encode = \<lambda>_. [], pv_similarity = \<lambda>_ _. 0\<rparr>
       [CommitNode ''m1'' 0 ''semantic'' ''c'' ''a fix'' [] (Some [''t'']) None,
        CommitNode ''m2'' 1 ''semantic'' ''c'' ''more'' [] (Some [''t'']) None]) = Inr ns \<and> length ns = 1"
proof -
  let ?ops = "[CommitNode ''m1'' 0 ''semantic'' ''c'' ''a fix'' [] (Some [''t'']) None,
        CommitNode ''m2'' 1 ''semantic'' ''c'' ''more'' [] (Some [''t'']) None]"
  let ?pv = "\<lparr>pv_encode = \<lambda>_. [], pv_similarity = \<lambda>_ _. 0\<rparr>"
  have "distinct (new_node_ids ?ops)" by simp
  moreover have "length (matching_nodes (Some ''semantic'') (Some [''t'']) (memory_history ?pv ?ops)) = 2"
    by (simp add: matching_nodes_def has_tag_def memory_history_def commit_def new_memory_def Let_def dict_put_def)
  ultimately show ?thesis
    using query_returns_best_matches [of ?ops ?pv "''fix''" "Some ''semantic''" "Some [''t'']" 0] by auto
qed

text \<open>
  Lessons distilled from traces have the category \<open>distilled_rule\<close>, but the lookup asks for a tag of that
  name, which only the model's reply can supply: a rule tagged otherwise is never found again.
\<close>

lemma distilled_rule_not_found:
  assumes "''distilled_rule'' \<notin> set tags"
  shows "get_distilled_lessons pv q limit
     (snd (commit_rules pv now sources (\<lambda>_. nid) 0 [(content, tags)] new_memory)) = Inr []"
proof -
  have "dict_get (fold (index_tag nid) ts idx) t = dict_get idx t" if "t \<notin> set ts" for ts idx and t :: string
    using that by (induction ts arbitrary: idx) (auto simp: index_tag_def)
  then have "dict_get (me_index (snd (commit_rules pv now sources (\<lambda>_. nid) 0 [(content, tags)] new_memory)))
      ''distilled_rule'' = None"
    using assms(1) by (simp add: commit_def new_memory_def Let_def)
  then show ?thesis
    by (simp add: get_distilled_lessons_def query_def candidates_def)
qed

end
