(* ===== verification/Forge.thy ===== *)
theory Forge
  imports Prelude
begin

text \<open>
  The tool forge, \<open>src/agent/forge\<close>: the validation of generated code and its execution (\<open>sandbox.py\<close>),
  the test runs (\<open>verifier.py\<close>), the code templates (\<open>synthesizer.py\<close>), the registry of forged tools
  (\<open>registry.py\<close>), the pipeline that connects them (\<open>manager.py\<close>), the schema inference of
  \<open>network_discovery.py\<close> and the dispatch of \<open>protocol_bridge.py\<close>. The parser of the language, the
  interpreter that runs a program and the decoder of its output are parameters, and so are the lessons
  that the memory returns.
\<close>

section \<open>Validation\<close>

text \<open>
  The syntax tree as the checks see it: calls, attributes, names, the two import statements with the
  names they list, and every other node with its children. An \<open>import from\<close> keeps its module.
\<close>

datatype ast =
    Call ast "ast list"
  | Attribute ast string
  | NameN string
  | Import "string list"
  | ImportFrom string "string list"
  | Other "ast list"

definition forbidden_patterns :: "string list" where
  "forbidden_patterns =
     [''__import__'', ''exec'', ''eval'', ''compile'', ''getattr'', ''setattr'', ''delattr'',
      ''globals'', ''locals'', ''dir'', ''vars'', ''__builtins__'', ''__globals__'', ''__locals__'',
      ''__class__'', ''__subclasses__'', ''__mro__'', ''__bases__'', ''importlib'',
      ''importlib.import_module'', ''sys.modules'', ''os.system'', ''os.popen'', ''subprocess.Popen'',
      ''subprocess.run'', ''subprocess.call'', ''subprocess.check_output'', ''ctypes'', ''ctypes.CDLL'',
      ''ctypes.windll'', ''resource'', ''resource.setrlimit'', ''signal'', ''signal.signal'',
      ''threading'', ''multiprocessing'', ''socket'', ''urllib'', ''requests'', ''http.client'',
      ''ftplib'', ''telnetlib'', ''smtplib'', ''poplib'', ''imaplib'', ''nntplib'', ''xmlrpc'',
      ''pickle.loads'', ''pickle.load'', ''marshal.loads'', ''marshal.load'', ''shelve.open'',
      ''dbm.open'', ''sqlite3.connect'', ''ctypes.cast'', ''ctypes.addressof'', ''ctypes.string_at'',
      ''gc.get_objects'', ''gc.get_referrers'', ''inspect.currentframe'', ''inspect.getframeinfo'',
      ''inspect.getouterframes'', ''sys._getframe'', ''sys._current_frames'', ''sys.settrace'',
      ''sys.setprofile'', ''sys.setrecursionlimit'', ''sys.setcheckinterval'', ''sys.setdlopenflags'',
      ''sys.set_int_max_str_digits'', ''sys.setswitchinterval'', ''types.FunctionType'',
      ''types.CodeType'', ''types.FrameType'', ''types.GeneratorType'', ''types.TracebackType'']"

definition has_forbidden :: "string \<Rightarrow> bool" where
  "has_forbidden s \<longleftrightarrow> list_ex (\<lambda>p. py_in p s) forbidden_patterns"

fun attr_chain :: "ast \<Rightarrow> string list \<Rightarrow> string list option" where
  "attr_chain (Attribute v a) parts = attr_chain v (a # parts)"
| "attr_chain (NameN n) parts = Some (n # parts)"
| "attr_chain _ parts = None"

fun join_dots :: "string list \<Rightarrow> string" where
  "join_dots [] = []"
| "join_dots [x] = x"
| "join_dots (x # y # xs) = x @ ''.'' @ join_dots (y # xs)"

definition get_full_attribute_name :: "ast \<Rightarrow> string option" where
  "get_full_attribute_name n = map_option join_dots (attr_chain n [])"

fun children :: "ast \<Rightarrow> ast list" where
  "children (Call f xs) = f # xs"
| "children (Attribute v _) = [v]"
| "children (Other xs) = xs"
| "children _ = []"

fun weight :: "ast \<Rightarrow> nat" where
  "weight (Call f xs) = Suc (weight f + sum_list (map weight xs))"
| "weight (Attribute v _) = Suc (weight v)"
| "weight (Other xs) = Suc (sum_list (map weight xs))"
| "weight _ = 1"

lemma weight_children: "sum_list (map weight (children n)) < weight n"
  by (cases n) auto

text \<open>\<open>ast.walk\<close>: breadth first, with a queue.\<close>

function ast_walk :: "ast list \<Rightarrow> ast list" where
  "ast_walk [] = []"
| "ast_walk (n # todo) = n # ast_walk (todo @ children n)"
  by pat_completeness auto
termination
  by (relation "measure (\<lambda>ns. sum_list (map weight ns))") (auto simp: weight_children)

fun check_imports :: "string list \<Rightarrow> string option" where
  "check_imports [] = None"
| "check_imports (x # xs) =
     (if x \<in> set forbidden_patterns then Some (''Forbidden import: '' @ x)
      else if has_forbidden x then Some (''Forbidden import pattern: '' @ x)
      else check_imports xs)"

definition check_call :: "ast \<Rightarrow> string option" where
  "check_call f =
     (case f of
        NameN n \<Rightarrow> if n \<in> set forbidden_patterns then Some (''Forbidden function call: '' @ n) else None
      | Attribute _ _ \<Rightarrow>
          (case get_full_attribute_name f of
             None \<Rightarrow> None
           | Some a \<Rightarrow> if a \<noteq> [] \<and> has_forbidden a then Some (''Forbidden attribute access: '' @ a) else None)
      | _ \<Rightarrow> None)"

definition check_node :: "ast \<Rightarrow> string option" where
  "check_node n =
     (case n of
        Call f _ \<Rightarrow> check_call f
      | Attribute _ a \<Rightarrow> if a \<in> set forbidden_patterns then Some (''Forbidden attribute access: '' @ a) else None
      | Import xs \<Rightarrow> check_imports xs
      | ImportFrom _ xs \<Rightarrow> check_imports xs
      | _ \<Rightarrow> None)"

fun first_error :: "ast list \<Rightarrow> string option" where
  "first_error [] = None"
| "first_error (n # ns) = (case check_node n of Some e \<Rightarrow> Some e | None \<Rightarrow> first_error ns)"

definition validate_code :: "(string \<Rightarrow> string + ast) \<Rightarrow> string \<Rightarrow> string option" where
  "validate_code parse code =
     (case parse code of
        Inl e \<Rightarrow> Some (''Syntax error in synthesized code: '' @ e)
      | Inr tree \<Rightarrow> first_error (ast_walk [tree]))"

section \<open>Execution\<close>

datatype run_result = RunTimeout | RunDone int string string | RunRaised string

text \<open>The interpreter on the wrapped program and the arguments, and the decoder of what it prints.\<close>

record sandbox =
  sb_parse :: "string \<Rightarrow> string + ast"
  sb_run :: "string \<Rightarrow> (string, pyval) dict \<Rightarrow> run_result"
  sb_loads :: "string \<Rightarrow> pyval option"

definition parse_result :: "sandbox \<Rightarrow> string \<Rightarrow> pyval" where
  "parse_result sb out = (case sb_loads sb out of Some v \<Rightarrow> v | None \<Rightarrow> PStr out)"

text \<open>Result and error of an execution; the error is the text on the error stream when the program exits with a status.\<close>

definition execute :: "sandbox \<Rightarrow> string \<Rightarrow> (string, pyval) dict \<Rightarrow> pyval option \<times> string option" where
  "execute sb code args =
     (case validate_code (sb_parse sb) code of
        Some e \<Rightarrow> (None, Some (''Code validation failed: '' @ e))
      | None \<Rightarrow>
          (case sb_run sb code args of
             RunDone rc out err \<Rightarrow>
               if rc \<noteq> 0 then (None, Some err) else (Some (parse_result sb (py_strip out)), None)
           | RunTimeout \<Rightarrow> (None, Some ''Timeout expired'')
           | RunRaised e \<Rightarrow> (None, Some e)))"

section \<open>Text of values\<close>

definition repr_char :: "char \<Rightarrow> char \<Rightarrow> string" where
  "repr_char q c =
     (let n = of_char c :: nat; hex = (\<lambda>d. if d < 10 then char_of (48 + d) else char_of (87 + d))
      in if c = q \<or> n = 92 then [CHR 0x5C, c]
         else if n = 10 then CHR 0x5C # ''n'' else if n = 13 then CHR 0x5C # ''r''
         else if n = 9 then CHR 0x5C # ''t''
         else if n < 32 \<or> (127 \<le> n \<and> n < 161) \<or> n = 173 then CHR 0x5C # ''x'' @ [hex (n div 16), hex (n mod 16)]
         else [c])"

definition repr_string :: "string \<Rightarrow> string" where
  "repr_string s =
     (let q = (if CHR 0x27 \<in> set s \<and> CHR 0x22 \<notin> set s then CHR 0x22 else CHR 0x27)
      in q # concat (map (repr_char q) s) @ [q])"

fun comma_list :: "string list \<Rightarrow> string" where
  "comma_list [] = []"
| "comma_list [x] = x"
| "comma_list (x # y # xs) = x @ '', '' @ comma_list (y # xs)"

text \<open>\<open>repr\<close> and \<open>str\<close> of a value; the text of a float is a parameter.\<close>

fun py_repr :: "(rat \<Rightarrow> string) \<Rightarrow> pyval \<Rightarrow> string"
  and repr_list :: "(rat \<Rightarrow> string) \<Rightarrow> pyval list \<Rightarrow> string list"
  and repr_items :: "(rat \<Rightarrow> string) \<Rightarrow> (string \<times> pyval) list \<Rightarrow> string list" where
  "py_repr f PNone = ''None''"
| "py_repr f (PBool b) = (if b then ''True'' else ''False'')"
| "py_repr f (PInt i) = str_int i"
| "py_repr f (PFloat r) = f r"
| "py_repr f (PStr s) = repr_string s"
| "py_repr f (PList xs) = ''['' @ comma_list (repr_list f xs) @ '']''"
| "py_repr f (PDict d) = ''{'' @ comma_list (repr_items f d) @ ''}''"
| "repr_list f [] = []"
| "repr_list f (x # xs) = py_repr f x # repr_list f xs"
| "repr_items f [] = []"
| "repr_items f ((k, v) # d) = (repr_string k @ '': '' @ py_repr f v) # repr_items f d"

definition py_str :: "(rat \<Rightarrow> string) \<Rightarrow> pyval \<Rightarrow> string" where
  "py_str f v = (case v of PStr s \<Rightarrow> s | _ \<Rightarrow> py_repr f v)"

section \<open>Test runs\<close>

record test_case =
  tc_args :: "(string, pyval) dict"
  tc_expected :: "pyval option"

definition test_prefix :: "nat \<Rightarrow> string" where
  "test_prefix i = ''Test '' @ str_nat i"

text \<open>
  One test: whether it passes, and its log. An error counts when its text is not empty. Results print as
  \<open>None\<close> when there is none.
\<close>

definition run_test :: "(rat \<Rightarrow> string) \<Rightarrow> sandbox \<Rightarrow> string \<Rightarrow> nat \<Rightarrow> test_case \<Rightarrow> bool \<times> string" where
  "run_test f sb code i t =
     (case execute sb code (tc_args t) of
        (result, error) \<Rightarrow>
          let e = (case error of None \<Rightarrow> [] | Some x \<Rightarrow> x);
              shown = (case result of None \<Rightarrow> ''None'' | Some v \<Rightarrow> py_str f v)
          in if e \<noteq> [] then (False, test_prefix i @ '' failed with runtime error: '' @ e)
             else case (if tc_expected t = Some PNone then None else tc_expected t) of
                 None \<Rightarrow> (True, test_prefix i @ '' executed successfully (no expected value provided).'')
               | Some x \<Rightarrow>
                   if shown \<noteq> py_str f x
                   then (False, test_prefix i @ '' failed: Expected '' @ py_str f x @ '', got '' @ shown)
                   else (True, test_prefix i @ '' passed.''))"

fun verify_from :: "(rat \<Rightarrow> string) \<Rightarrow> sandbox \<Rightarrow> string \<Rightarrow> nat \<Rightarrow> test_case list \<Rightarrow> bool \<times> string list" where
  "verify_from f sb code i [] = (True, [])"
| "verify_from f sb code i (t # ts) =
     (case (run_test f sb code i t, verify_from f sb code (Suc i) ts) of
        ((ok, lg), (oks, lgs)) \<Rightarrow> (ok \<and> oks, lg # lgs))"

definition verify_tool :: "(rat \<Rightarrow> string) \<Rightarrow> sandbox \<Rightarrow> string \<Rightarrow> test_case list \<Rightarrow> bool \<times> string list" where
  "verify_tool f sb code ts = verify_from f sb code 1 ts"

datatype param_info = ParamDict "string option" | ParamStr string | ParamOther

definition sample_value :: "param_info \<Rightarrow> pyval" where
  "sample_value p =
     (let t = (case p of ParamDict None \<Rightarrow> ''str'' | ParamDict (Some t) \<Rightarrow> t | ParamStr t \<Rightarrow> t | ParamOther \<Rightarrow> ''str'')
      in if t = ''int'' then PInt 1 else if t = ''float'' then PFloat 1 else if t = ''bool'' then PBool True
         else PStr ''test_value'')"

record tool_spec =
  sp_name :: "string option"
  sp_description :: "string option"
  sp_params :: "(string, param_info) dict"
  sp_hint :: "string option"

definition generate_test_cases :: "tool_spec \<Rightarrow> test_case list" where
  "generate_test_cases sp =
     [\<lparr>tc_args = map (\<lambda>(k, p). (k, sample_value p)) (sp_params sp), tc_expected = None\<rparr>]"

section \<open>Code templates\<close>

definition newline :: string where
  "newline = [CHR 0x0A]"

fun join_lines :: "string list \<Rightarrow> string" where
  "join_lines [] = []"
| "join_lines [x] = x"
| "join_lines (x # y # xs) = x @ newline @ join_lines (y # xs)"

fun split_lines :: "string \<Rightarrow> string list" where
  "split_lines [] = [[]]"
| "split_lines (c # s) =
     (if c = CHR 0x0A then [] # split_lines s
      else case split_lines s of y # ys \<Rightarrow> (c # y) # ys | [] \<Rightarrow> [[c]])"

definition import_mapping :: "(string, string) dict" where
  "import_mapping =
     [(''http'', ''import requests''), (''file'', ''import pathlib''), (''data'', ''import pandas as pd''),
      (''math'', ''import numpy as np''), (''system'', ''import psutil''), (''shell'', ''import subprocess'')]"

definition determine_imports :: "string \<Rightarrow> string" where
  "determine_imports hint =
     join_lines ([''import os'', ''import sys'', ''import json'', ''from typing import Any, Dict, List''] @
       map snd (filter (\<lambda>(k, _). py_in k (py_lower hint)) import_mapping))"

definition param_lines :: "string \<Rightarrow> string list" where
  "param_lines p =
     [''# Processing '' @ p @ ''...'',
      ''result['' @ [CHR 0x27] @ ''data'' @ [CHR 0x27] @ '']['' @ repr_string p @ ''] = f'' @ [CHR 0x27] @
        ''Processed { '' @ p @ '' }'' @ [CHR 0x27]]"

definition generate_logic_body :: "string \<Rightarrow> string list \<Rightarrow> string" where
  "generate_logic_body hint params =
     join_lines ([''# Logic synthesized from hint: '' @ hint,
       ''result = {'' @ repr_string ''status'' @ '': '' @ repr_string ''success'' @ '', '' @ repr_string ''data'' @ '': {}}''] @
       concat (map param_lines params) @ [''return result''])"

definition indent_block :: "string \<Rightarrow> string" where
  "indent_block s = join_lines (map (\<lambda>l. if py_strip l \<noteq> [] then ''    '' @ l else l) (split_lines s))"

definition get_default :: "'a \<Rightarrow> 'a option \<Rightarrow> 'a" where
  "get_default d v = (case v of None \<Rightarrow> d | Some x \<Rightarrow> x)"

definition lesson_block :: "string list \<Rightarrow> string" where
  "lesson_block lessons =
     (if lessons = [] then []
      else ''    # LEARNED CONSTRAINTS:'' @ newline @ join_lines (map (\<lambda>l. ''    # - '' @ l) lessons) @ newline)"

definition docquote :: string where
  "docquote = [CHR 0x22, CHR 0x22, CHR 0x22]"

definition synthesize :: "tool_spec \<Rightarrow> string list \<Rightarrow> string" where
  "synthesize sp lessons =
     (let hint = get_default [] (sp_hint sp);
          args = comma_list (map (\<lambda>(n, i). n @ '': '' @
            (case i of ParamDict t \<Rightarrow> get_default ''Any'' t | _ \<Rightarrow> ''Any'')) (sp_params sp));
          block = lesson_block lessons
      in determine_imports hint @ newline @ newline @
         ''def execute('' @ args @ '') -> Any:'' @ newline @
         ''    '' @ docquote @ newline @
         ''    '' @ get_default ''Synthesized tool implementation.'' (sp_description sp) @ newline @
         ''    '' @ docquote @ newline @
         ''    try:'' @ newline @
         (if block = [] then [] else indent_block block) @
         indent_block (generate_logic_body hint (map fst (sp_params sp))) @ newline @
         ''    except Exception as e:'' @ newline @
         ''        return f'' @ [CHR 0x22] @ ''Execution Error: {str(e)}'' @ [CHR 0x22] @ newline)"

section \<open>Registry and pipeline\<close>

record tool_definition =
  df_name :: string
  df_description :: string
  df_parameters :: "(string, param_info) dict"
  df_path :: string
  df_function :: string
  df_version :: string
  df_created :: time
  df_verified :: bool

type_synonym forge_registry = "(string, tool_definition) dict"

definition register_tool :: "tool_definition \<Rightarrow> forge_registry \<Rightarrow> forge_registry" where
  "register_tool d r = dict_put (df_name d) d r"

definition unregister_tool :: "string \<Rightarrow> forge_registry \<Rightarrow> forge_registry" where
  "unregister_tool name r = (if dict_get r name \<noteq> None then dict_del name r else r)"

definition forged_tool :: "string \<Rightarrow> forge_registry \<Rightarrow> tool_definition option" where
  "forged_tool name r = dict_get r name"

definition list_tools :: "forge_registry \<Rightarrow> string list" where
  "list_tools r = dict_keys r"

definition get_all_definitions :: "forge_registry \<Rightarrow> (string, tool_definition) dict" where
  "get_all_definitions r = r"

fun join_semi :: "string list \<Rightarrow> string" where
  "join_semi [] = []"
| "join_semi [x] = x"
| "join_semi (x # y # xs) = x @ ''; '' @ join_semi (y # xs)"

text \<open>\<open>lessons\<close> is the memory's answer to a query; an exception ends the synthesis.\<close>

definition forge_capability ::
    "(rat \<Rightarrow> string) \<Rightarrow> sandbox \<Rightarrow> (string \<Rightarrow> string + string list) \<Rightarrow> time \<Rightarrow> tool_spec \<Rightarrow> forge_registry
     \<Rightarrow> (bool \<times> string) \<times> forge_registry" where
  "forge_capability f sb lessons now sp r =
     (case sp_name sp of
        None \<Rightarrow> ((False, ''Tool specification must include a '' @ repr_string ''name'' @ ''.''), r)
      | Some name \<Rightarrow>
          if name = [] then ((False, ''Tool specification must include a '' @ repr_string ''name'' @ ''.''), r)
          else
            (case lessons (name @ '' '' @ get_default ''None'' (sp_description sp) @ '' '' @ get_default ''None'' (sp_hint sp)) of
               Inl e \<Rightarrow> ((False, ''Synthesis error: '' @ e), r)
             | Inr ls \<Rightarrow>
                 (case verify_tool f sb (synthesize sp ls) (generate_test_cases sp) of
                    (ok, logs) \<Rightarrow>
                      if \<not> ok then ((False, ''Verification failed: '' @ join_semi logs), r)
                      else
                        ((True, ''Successfully forged and registered '' @ name @ ''.''),
                         register_tool \<lparr>df_name = name, df_description = get_default [] (sp_description sp),
                           df_parameters = sp_params sp,
                           df_path = ''src/agent/forge/generated/'' @ name @ ''.py'',
                           df_function = ''execute'', df_version = ''1.0.0'', df_created = now,
                           df_verified = True\<rparr> r))))"

section \<open>Network discovery and protocol bridge\<close>

definition type_name :: "pyval \<Rightarrow> string" where
  "type_name v = (case v of PNone \<Rightarrow> ''NoneType'' | PBool _ \<Rightarrow> ''bool'' | PInt _ \<Rightarrow> ''int'' | PFloat _ \<Rightarrow> ''float''
     | PStr _ \<Rightarrow> ''str'' | PList _ \<Rightarrow> ''list'' | PDict _ \<Rightarrow> ''dict'')"

fun infer_json_schema :: "pyval \<Rightarrow> pyval"
  and infer_items :: "(string \<times> pyval) list \<Rightarrow> (string \<times> pyval) list" where
  "infer_json_schema (PDict d) = PDict (infer_items d)"
| "infer_json_schema (PList []) = PList [PStr ''empty_list'']"
| "infer_json_schema (PList (x # xs)) = PList [infer_json_schema x]"
| "infer_json_schema v = PStr (type_name v)"
| "infer_items [] = []"
| "infer_items ((k, v) # d) = (k, infer_json_schema v) # infer_items d"

record endpoint_map =
  ep_url :: string
  ep_method :: string
  ep_schema :: pyval
  ep_sample :: "pyval option"
  ep_status :: int
  ep_content_type :: string

text \<open>A probe: the reply is the status, the content type if the header is there, and the decoded body.\<close>

definition explore_endpoint ::
    "string \<Rightarrow> string \<Rightarrow> string \<Rightarrow> (int \<times> string option \<times> pyval option) option \<Rightarrow> (string, endpoint_map) dict
     \<Rightarrow> endpoint_map option \<times> (string, endpoint_map) dict" where
  "explore_endpoint base path method response found =
     (case response of
        None \<Rightarrow> (None, found)
      | Some (status, header, body) \<Rightarrow>
          (let ctype = get_default ''unknown'' header;
               sample = (if py_in ''application/json'' ctype then body else None);
               e = \<lparr>ep_url = base @ ''/'' @ dropWhile (\<lambda>c. c = CHR ''/'') path, ep_method = method,
                    ep_schema = (case sample of None \<Rightarrow> PDict [] | Some v \<Rightarrow> infer_json_schema v),
                    ep_sample = sample, ep_status = status, ep_content_type = ctype\<rparr>
           in (Some e, dict_put path e found)))"

definition new_explorer :: "string \<Rightarrow> string" where
  "new_explorer base_url = rev (dropWhile (\<lambda>c. c = CHR ''/'') (rev base_url))"

text \<open>The whole map, each endpoint as a dictionary.\<close>

definition get_api_map :: "(string, endpoint_map) dict \<Rightarrow> (string, pyval) dict" where
  "get_api_map found =
     map (\<lambda>(path, e). (path, PDict
       [(''url'', PStr (ep_url e)), (''method'', PStr (ep_method e)), (''inferred_schema'', ep_schema e),
        (''response_sample'', get_default PNone (ep_sample e)), (''status_code'', PInt (ep_status e)),
        (''content_type'', PStr (ep_content_type e))])) found"

record protocol_response =
  pr_payload :: pyval
  pr_status :: string
  pr_protocol :: string
  pr_metadata :: "(string, pyval) dict"

type_synonym bridge_handler = "string \<Rightarrow> pyval \<Rightarrow> string + (pyval \<times> string \<times> (string, pyval) dict)"

definition register_handler :: "string \<Rightarrow> bridge_handler \<Rightarrow> (string, bridge_handler) dict \<Rightarrow> (string, bridge_handler) dict" where
  "register_handler protocol h b = dict_put protocol h b"

definition bridge_send :: "string \<Rightarrow> string \<Rightarrow> pyval \<Rightarrow> (string, bridge_handler) dict \<Rightarrow> exn + protocol_response" where
  "bridge_send protocol destination payload b =
     (case dict_get b protocol of
        None \<Rightarrow> Inl NotImplementedError
      | Some h \<Rightarrow>
          (case h destination payload of
             Inr (result, status, meta) \<Rightarrow>
               Inr \<lparr>pr_payload = result, pr_status = status, pr_protocol = protocol, pr_metadata = meta\<rparr>
           | Inl e \<Rightarrow>
               Inr \<lparr>pr_payload = PNone, pr_status = ''error'', pr_protocol = protocol,
                    pr_metadata = [(''error'', PStr e)]\<rparr>))"

text \<open>The handler registered at start-up answers every request alike.\<close>

definition http_mock_handler :: bridge_handler where
  "http_mock_handler dest payload =
     Inr (PDict [(''status'', PStr ''ok''), (''data'', PStr ''mock_http_response'')], ''success'',
       [(''latency'', PStr ''10ms'')])"

definition new_bridge :: "(string, bridge_handler) dict" where
  "new_bridge = register_handler ''http'' http_mock_handler []"

section \<open>What the checks decide\<close>

fun subtrees :: "ast \<Rightarrow> ast set" where
  "subtrees (Call f xs) = insert (Call f xs) (subtrees f \<union> \<Union> (set (map subtrees xs)))"
| "subtrees (Attribute v a) = insert (Attribute v a) (subtrees v)"
| "subtrees (Other xs) = insert (Other xs) (\<Union> (set (map subtrees xs)))"
| "subtrees n = {n}"

lemma subtrees_children: "subtrees n = insert n (\<Union> (subtrees ` set (children n)))"
  by (cases n) auto

lemma set_ast_walk: "set (ast_walk ns) = \<Union> (subtrees ` set ns)"
proof (induction ns rule: ast_walk.induct)
  case (2 n todo)
  then show ?case using subtrees_children [of n] by auto
qed simp

lemma first_error_None: "first_error ns = None \<longleftrightarrow> (\<forall>n \<in> set ns. check_node n = None)"
  by (induction ns) (auto split: option.split)

lemma check_imports_None: "check_imports xs = None \<longleftrightarrow> \<not> list_ex has_forbidden xs"
proof -
  have "x \<in> set forbidden_patterns \<Longrightarrow> has_forbidden x" for x
    by (auto simp: has_forbidden_def list_ex_iff py_in_sublist)
  then show ?thesis by (induction xs) auto
qed

text \<open>
  C37. Code is accepted exactly when it parses and no node anywhere in its tree is an import of a name
  that contains a forbidden text, a call of a forbidden name, a call through a dotted name that
  contains one, or an access to a forbidden attribute. The module of an \<open>import from\<close> plays no part.
\<close>

theorem validation_exact:
  "validate_code parse code = None \<longleftrightarrow>
     (\<exists>tree. parse code = Inr tree \<and>
       {n \<in> subtrees tree. case n of
          Import xs \<Rightarrow> list_ex has_forbidden xs
        | ImportFrom _ xs \<Rightarrow> list_ex has_forbidden xs
        | Attribute _ a \<Rightarrow> a \<in> set forbidden_patterns
        | Call (NameN f) _ \<Rightarrow> f \<in> set forbidden_patterns
        | Call (Attribute v a) _ \<Rightarrow>
            (case get_full_attribute_name (Attribute v a) of None \<Rightarrow> False | Some d \<Rightarrow> d \<noteq> [] \<and> has_forbidden d)
        | _ \<Rightarrow> False} = {})"
proof -
  have node: "check_node n = None \<longleftrightarrow> \<not> (case n of
          Import xs \<Rightarrow> list_ex has_forbidden xs
        | ImportFrom _ xs \<Rightarrow> list_ex has_forbidden xs
        | Attribute _ a \<Rightarrow> a \<in> set forbidden_patterns
        | Call (NameN f) _ \<Rightarrow> f \<in> set forbidden_patterns
        | Call (Attribute v a) _ \<Rightarrow>
            (case get_full_attribute_name (Attribute v a) of None \<Rightarrow> False | Some d \<Rightarrow> d \<noteq> [] \<and> has_forbidden d)
        | _ \<Rightarrow> False)" for n
    by (auto simp: check_node_def check_call_def check_imports_None split: ast.split option.split)
  show ?thesis
  proof (cases "parse code")
    case (Inr tree)
    have "validate_code parse code = None \<longleftrightarrow> (\<forall>n \<in> subtrees tree. check_node n = None)"
      unfolding validate_code_def Inr sum.case first_error_None set_ast_walk by simp
    with Inr show ?thesis unfolding node by (simp add: Ball_def)
  qed (simp add: validate_code_def)
qed

text \<open>Importing a forbidden function from its module and calling it by name passes.\<close>

lemma import_from_bypasses:
  "validate_code (\<lambda>_. Inr (Other [ImportFrom ''os'' [''system''], Other [Call (NameN ''system'') [Other []]]])) code = None"
  by (simp add: validate_code_def check_node_def check_call_def has_forbidden_def forbidden_patterns_def)

section \<open>What a verified tool has shown\<close>

lemma verify_from_ok: "fst (verify_from f sb code i ts) \<longleftrightarrow> list_all (\<lambda>t. fst (run_test f sb code 0 t)) ts"
proof (induction ts arbitrary: i)
  case (Cons t ts)
  have "fst (run_test f sb code i t) = fst (run_test f sb code 0 t)"
    by (simp add: run_test_def Let_def split: prod.split option.split)
  with Cons.IH [of "Suc i"] show ?case by (simp add: case_prod_unfold)
qed simp

lemma length_verify_logs: "length (snd (verify_from f sb code i ts)) = length ts"
  by (induction ts arbitrary: i) (simp_all add: case_prod_unfold)

lemma generated_case_passes:
  "fst (run_test f sb code i \<lparr>tc_args = a, tc_expected = None\<rparr>) \<longleftrightarrow>
     (case snd (execute sb code a) of None \<Rightarrow> True | Some e \<Rightarrow> e = [])"
  by (simp add: run_test_def Let_def split: prod.split option.split)

text \<open>
  C38. A capability enters the registry exactly when it has a name, the memory answers, the template
  passes validation and its one run neither times out nor raises nor leaves a text on the error
  stream: an exit status other than zero alone does not count. A refused capability leaves the
  registry as it was; an accepted one replaces the entry of its name and no other.
\<close>

theorem forged_exactly_when_verified:
  assumes "sp_name sp = Some name" and "name \<noteq> []"
    and "lessons (name @ '' '' @ get_default ''None'' (sp_description sp) @ '' '' @ get_default ''None'' (sp_hint sp)) = Inr ls"
    and "forge_capability f sb lessons now sp r = (res, r')"
  shows "fst res = (validate_code (sb_parse sb) (synthesize sp ls) = None \<and>
      (case sb_run sb (synthesize sp ls) (map (\<lambda>(k, p). (k, sample_value p)) (sp_params sp)) of
         RunDone rc out err \<Rightarrow> rc = 0 \<or> err = [] | RunTimeout \<Rightarrow> False | RunRaised e \<Rightarrow> e = [])) \<and>
    forged_tool k r' = (if fst res \<and> k = name
      then Some \<lparr>df_name = name, df_description = get_default [] (sp_description sp), df_parameters = sp_params sp,
        df_path = ''src/agent/forge/generated/'' @ name @ ''.py'', df_function = ''execute'', df_version = ''1.0.0'',
        df_created = now, df_verified = True\<rparr>
      else forged_tool k r)"
proof -
  let ?code = "synthesize sp ls" and ?args = "map (\<lambda>(k, p). (k, sample_value p)) (sp_params sp)"
  obtain v logs where v: "verify_tool f sb ?code (generate_test_cases sp) = (v, logs)" by fastforce
  have "v = (case snd (execute sb ?code ?args) of None \<Rightarrow> True | Some e \<Rightarrow> e = [])"
    using verify_from_ok [of f sb ?code 1 "generate_test_cases sp"] v generated_case_passes [of f sb ?code 0 ?args]
    by (simp add: verify_tool_def generate_test_cases_def)
  also have "\<dots> = (validate_code (sb_parse sb) ?code = None \<and>
      (case sb_run sb ?code ?args of
         RunDone rc out err \<Rightarrow> rc = 0 \<or> err = [] | RunTimeout \<Rightarrow> False | RunRaised e \<Rightarrow> e = []))"
    by (auto simp: execute_def split: option.split run_result.split)
  finally have "v = \<dots>" .
  moreover have "fst res = v \<and> r' = (if v then register_tool \<lparr>df_name = name, df_description = get_default [] (sp_description sp),
        df_parameters = sp_params sp, df_path = ''src/agent/forge/generated/'' @ name @ ''.py'', df_function = ''execute'',
        df_version = ''1.0.0'', df_created = now, df_verified = True\<rparr> r else r)"
    using assms by (auto simp: forge_capability_def v split: if_splits)
  ultimately show ?thesis by (simp add: forged_tool_def register_tool_def)
qed

definition demo_sandbox :: sandbox where
  "demo_sandbox = \<lparr>sb_parse = (\<lambda>_. Inr (Other [])), sb_run = (\<lambda>_ _. RunDone 1 ''Runtime Error: boom'' []),
     sb_loads = (\<lambda>_. None)\<rparr>"

definition demo_spec :: tool_spec where
  "demo_spec = \<lparr>sp_name = Some ''t'', sp_description = None, sp_params = [], sp_hint = None\<rparr>"

theorem forged_exactly_when_verified_witness:
  "forged_tool ''t'' (snd (forge_capability (\<lambda>_. []) demo_sandbox (\<lambda>_. Inr []) 5 demo_spec [])) \<noteq> None"
proof -
  have name: "sp_name demo_spec = Some ''t''" by (simp add: demo_spec_def)
  show ?thesis
    using forged_exactly_when_verified [where f = "\<lambda>_. []" and now = 5 and r = "[]" and lessons = "\<lambda>_. Inr []"
        and k = "''t''" and sb = demo_sandbox, OF name _ refl prod.collapse [symmetric]]
    by (simp add: demo_sandbox_def validate_code_def check_node_def)
qed

section \<open>The list of safe builtins\<close>

text \<open>The module declares which builtins it exposes; no function reads the list.\<close>

definition safe_builtins :: "string list" where
  "safe_builtins =
     [''True'', ''False'', ''None'', ''bool'', ''int'', ''float'', ''str'', ''list'', ''dict'', ''tuple'', ''set'', ''frozenset'',
      ''bytes'', ''bytearray'', ''memoryview'', ''complex'', ''range'', ''slice'', ''Ellipsis'', ''NotImplemented'',
      ''BaseException'', ''Exception'', ''ArithmeticError'', ''AssertionError'', ''AttributeError'', ''BufferError'',
      ''EOFError'', ''ImportError'', ''IndexError'', ''KeyError'', ''KeyboardInterrupt'', ''LookupError'', ''MemoryError'',
      ''NameError'', ''OSError'', ''OverflowError'', ''RecursionError'', ''ReferenceError'', ''RuntimeError'',
      ''StopIteration'', ''StopAsyncIteration'', ''SyntaxError'', ''SystemError'', ''SystemExit'', ''TypeError'',
      ''ValueError'', ''ZeroDivisionError'', ''len'', ''min'', ''max'', ''sum'', ''abs'', ''round'', ''pow'', ''divmod'',
      ''sorted'', ''reversed'', ''enumerate'', ''zip'', ''map'', ''filter'', ''any'', ''all'', ''iter'', ''next'', ''chr'',
      ''ord'', ''hex'', ''oct'', ''bin'', ''format'', ''repr'', ''ascii'', ''hash'', ''id'', ''isinstance'', ''issubclass'',
      ''callable'', ''hasattr'', ''getattr'', ''setattr'', ''delattr'', ''vars'', ''dir'', ''type'', ''object'', ''super'',
      ''property'', ''classmethod'', ''staticmethod'', ''print'', ''open'', ''input'', ''breakpoint'']"

text \<open>Validation refuses five of them, and lets calls of any other name through, on the list or not.\<close>

lemma builtins_disagree:
  "filter (\<lambda>b. check_call (NameN b) \<noteq> None) safe_builtins = [''getattr'', ''setattr'', ''delattr'', ''vars'', ''dir''] \<and>
   check_call (NameN ''help'') = None \<and> ''help'' \<notin> set safe_builtins"
  by code_simp

end
