(* ===== verification/Sovereign.thy ===== *)
theory Sovereign
  imports Aegis Tools Memory Forge
begin

text \<open>
  The sovereign layer, \<open>src/agent/sovereign\<close>: the adversarial loop (\<open>swarm_engine.py\<close>), the judge, the manager that chains them with the safety layer, the evolver, the
  risk simulator and the pulse, which derives goals from the audit log. The embedding provider, the
  model that distils lessons, the resource readings and the random numbers are parameters; the
  replies of the simulated roles are the code's own.
\<close>

section \<open>Swarm and judge\<close>

text \<open>The replies of the three simulated roles; a critique is whether it is flawed and its reason.\<close>

record swarm =
  sw_iterations :: nat
  sw_last_implementation :: "(string, pyval) dict option"
  sw_last_critique :: "(bool \<times> string) option"
  sw_executed :: nat

definition max_iterations :: nat where
  "max_iterations = 5"

definition new_swarm :: swarm where
  "new_swarm = \<lparr>sw_iterations = 0, sw_last_implementation = None, sw_last_critique = None, sw_executed = 0\<rparr>"

definition blueprint :: "(string, pyval) dict" where
  "blueprint = [(''plan'', PStr ''1. Use Forge to create API-wrapper. 2. Use Eye to verify UI. 3. Push to DB.''),
     (''metrics'', PStr ''Latency < 200ms'')]"

definition invoke_executor :: "(string, pyval) dict" where
  "invoke_executor = [(''status'', PStr ''implemented''), (''evidence'', PStr ''logs.txt''), (''result'', PStr ''Task complete'')]"

definition invoke_critic :: "nat \<Rightarrow> bool \<times> string" where
  "invoke_critic n = (if n < 2 then (True, ''Edge case: network timeout not handled.'')
     else (False, ''Implementation is robust.''))"

text \<open>The loop, with the number of executor calls counted; it ends because the iterations only grow.\<close>

function swarm_loop :: "swarm \<Rightarrow> swarm" where
  "swarm_loop s =
     (if sw_iterations s < max_iterations then
        (let s1 = s\<lparr>sw_iterations := sw_iterations s + 1, sw_last_implementation := Some invoke_executor,
                    sw_executed := sw_executed s + 1\<rparr>;
             critique = invoke_critic (sw_iterations s1)
         in if \<not> fst critique then s1 else swarm_loop (s1\<lparr>sw_last_critique := Some critique\<rparr>))
      else s)"
  by pat_completeness auto
termination
  by (relation "measure (\<lambda>s. max_iterations - sw_iterations s)") auto

declare swarm_loop.simps [simp del]

record swarm_result =
  sr_implementation :: "(string, pyval) dict option"
  sr_critique :: "(bool \<times> string) option"
  sr_blueprint :: "(string, pyval) dict"
  sr_iterations :: nat

definition run_loop :: "swarm \<Rightarrow> swarm_result \<times> swarm" where
  "run_loop s =
     (let s' = swarm_loop s
      in (\<lparr>sr_implementation = sw_last_implementation s', sr_critique = sw_last_critique s',
           sr_blueprint = blueprint, sr_iterations = sw_iterations s'\<rparr>, s'))"

text \<open>
  Without a model to ask the judge falls back on the critique; a missing implementation or critique has
  no \<open>get\<close>.
\<close>

definition judge_evaluate :: "(string, pyval) dict option \<Rightarrow> (bool \<times> string) option \<Rightarrow> exn + bool \<times> string" where
  "judge_evaluate implementation critique =
     (case (implementation, critique) of
        (Some _, Some (flawed, _)) \<Rightarrow>
          if \<not> flawed then Inr (True, ''Approved via fallback: No flaws detected by Critic.'')
          else Inr (False, ''Rejected via fallback: Reasoning engine unavailable and Critic flagged flaws.'')
      | _ \<Rightarrow> Inl (OtherException ''AttributeError''))"

section \<open>Manager, evolver, simulator\<close>

text \<open>
  The manager asks a verifier for a verdict and unpacks it into two names. The production verifier
  answers with three values, its test doubles with two; a violation carries its risk as a member of the
  enumeration or as a text, and only a text can equal the text \<open>CRITICAL\<close> the manager compares it with.
\<close>

datatype risk_tag = Level risk_level | Tag string

record violation =
  vi_name :: string
  vi_risk :: risk_tag

datatype omega_verdict = Triple bool "violation list option" nat | Couple bool "violation list option"

definition level_violation :: "safety_invariant \<Rightarrow> violation" where
  "level_violation v = \<lparr>vi_name = inv_name v, vi_risk = Level (inv_risk v)\<rparr>"

definition aegis_verdict :: "string \<Rightarrow> (string, pyval) dict \<Rightarrow> omega_verdict" where
  "aegis_verdict code metadata =
     (case verify_code code metadata of
        (safe, violations, score) \<Rightarrow> Triple safe (map_option (map level_violation) violations) score)"

fun unpack_two :: "omega_verdict \<Rightarrow> exn + bool \<times> violation list option" where
  "unpack_two (Triple safe violations score) = Inl ValueError"
| "unpack_two (Couple safe violations) = Inr (safe, violations)"

fun risk_is :: "string \<Rightarrow> risk_tag \<Rightarrow> bool" where
  "risk_is s (Level r) = False"
| "risk_is s (Tag t) = (t = s)"

definition critical_violations :: "violation list option \<Rightarrow> violation list" where
  "critical_violations violations =
     filter (\<lambda>v. risk_is ''CRITICAL'' (vi_risk v)) (case violations of None \<Rightarrow> [] | Some vs \<Rightarrow> vs)"

text \<open>
  What the calls share and change: the swarm's context, the memory, the approval gate and the seconds
  slept for the governor.
\<close>

record omega_state =
  om_swarm :: swarm
  om_memory :: memory
  om_gate :: gatekeeper
  om_paused :: rat

datatype omega_result =
    Blocked string "violation list option"
  | Rejected string swarm_result
  | Completed string "(string, pyval) dict option"

definition approval_text :: "(rat \<Rightarrow> string) \<Rightarrow> violation list \<Rightarrow> string" where
  "approval_text f critical =
     ''Sovereign proposes code with CRITICAL violations: '' @ py_repr f (PList (map (PStr \<circ> vi_name) critical))"

definition implementation_code :: "swarm_result \<Rightarrow> string" where
  "implementation_code res =
     (case sr_implementation res of
        None \<Rightarrow> ''None''
      | Some i \<Rightarrow> (case dict_get i ''code'' of Some (PStr c) \<Rightarrow> c | _ \<Rightarrow> []))"

text \<open>The judge's verdict on the swarm's result, and the lesson of a success.\<close>

definition adjudicate ::
    "provider \<Rightarrow> (rat \<Rightarrow> string) \<Rightarrow> string \<Rightarrow> time \<Rightarrow> string \<Rightarrow> swarm_result \<Rightarrow> omega_state \<Rightarrow> (exn + omega_result) \<times> omega_state" where
  "adjudicate pv f nid now goal res s =
     (case judge_evaluate (sr_implementation res) (sr_critique res) of
        Inl e \<Rightarrow> (Inl e, s)
      | Inr (ok, reason) \<Rightarrow>
          if \<not> ok then (Inr (Rejected reason res), s)
          else (Inr (Completed reason (sr_implementation res)),
                s\<lparr>om_memory := commit_lesson pv nid now ''strategic_pivot''
                     (''Successfully achieved '' @ goal @ '' using blueprint: '' @ py_repr f (PDict (sr_blueprint res)))
                     [(''iterations'', PInt (int (sr_iterations res)))] (Some [''success'', ''omega_prime'']) (om_memory s)\<rparr>))"

text \<open>An unhealthy system makes the task sleep for the governor's five seconds.\<close>

definition metabolic_check :: "rat \<Rightarrow> rat \<Rightarrow> governor \<Rightarrow> omega_state \<Rightarrow> omega_state" where
  "metabolic_check cpu ram g s =
     (if fst (check_vitals cpu ram g) then s else s\<lparr>om_paused := om_paused s + 5\<rparr>)"

text \<open>
  One task: the vital signs only pause it, the failure patterns are only counted; \<open>verifier\<close> is
  \<open>aegis_verdict\<close> in production. \<open>nid\<close> is the identifier drawn for the lesson.
\<close>

definition execute_omega_task ::
    "(string \<Rightarrow> (string, pyval) dict \<Rightarrow> omega_verdict) \<Rightarrow> provider \<Rightarrow> (rat \<Rightarrow> string) \<Rightarrow> string \<Rightarrow> time
     \<Rightarrow> rat \<Rightarrow> rat \<Rightarrow> governor \<Rightarrow> string \<Rightarrow> string \<Rightarrow> omega_state \<Rightarrow> (exn + omega_result) \<times> omega_state" where
  "execute_omega_task verifier pv f nid now cpu ram g goal context s =
     (let s0 = metabolic_check cpu ram g s
      in case query_patterns pv context (Some [''failure_pattern'']) (om_memory s0) of
        Inl e \<Rightarrow> (Inl e, s0)
      | Inr _ \<Rightarrow>
          (case run_loop (om_swarm s0) of
             (res, sw) \<Rightarrow>
               (let s1 = s0\<lparr>om_swarm := sw\<rparr>
                in case unpack_two (verifier (implementation_code res) [(''tool_name'', PStr ''Sovereign_Result'')]) of
                     Inl e \<Rightarrow> (Inl e, s1)
                   | Inr (safe, violations) \<Rightarrow>
                       (let critical = critical_violations violations
                        in if \<not> safe \<and> critical \<noteq> []
                           then (case request_approval now ''omega_execution'' (approval_text f critical) ''CRITICAL'' None (om_gate s1) of
                                   (gk, approved) \<Rightarrow>
                                     if \<not> approved
                                     then (Inr (Blocked ''Human operator rejected safety violations.'' violations), s1\<lparr>om_gate := gk\<rparr>)
                                     else adjudicate pv f nid now goal res (s1\<lparr>om_gate := gk\<rparr>))
                           else adjudicate pv f nid now goal res s1))))"


record evolution_proposal =
  evo_target :: string
  evo_old :: string
  evo_new :: string
  evo_reasoning :: string
  evo_improvement :: string
  evo_risk :: rat

definition analyze_bottlenecks :: "string list" where
  "analyze_bottlenecks = [''SovereignManager.execute_loop latency'', ''AegisVerifier scan overhead'']"

definition synthesize_refactor :: "string \<Rightarrow> evolution_proposal option" where
  "synthesize_refactor target =
     (if py_in ''SovereignManager'' target then
        Some \<lparr>evo_target = ''src/agent/sovereign/manager.py'',
          evo_old = ''def execute_loop(self): # old sync logic'',
          evo_new = ''async def execute_loop(self): # optimized async logic'',
          evo_reasoning = ''Conversion to async reduces blocking during swarm adjudication.'',
          evo_improvement = ''~20% reduction in loop latency'', evo_risk = 2 / 10\<rparr>
      else None)"

definition apply_evolution ::
    "(string \<Rightarrow> (string, pyval) dict \<Rightarrow> omega_verdict) \<Rightarrow> evolution_proposal \<Rightarrow> evolution_proposal list
     \<Rightarrow> (exn + bool) \<times> evolution_proposal list" where
  "apply_evolution verifier p history =
     (case unpack_two (verifier (evo_new p) []) of
        Inl e \<Rightarrow> (Inl e, history)
      | Inr (safe, _) \<Rightarrow> if \<not> safe then (Inr False, history) else (Inr True, history @ [p]))"

fun evolve_targets ::
    "(string \<Rightarrow> (string, pyval) dict \<Rightarrow> omega_verdict) \<Rightarrow> string list \<Rightarrow> evolution_proposal list
     \<Rightarrow> (exn + unit) \<times> evolution_proposal list" where
  "evolve_targets verifier [] history = (Inr (), history)"
| "evolve_targets verifier (t # ts) history =
     (case synthesize_refactor t of
        None \<Rightarrow> evolve_targets verifier ts history
      | Some p \<Rightarrow>
          (case apply_evolution verifier p history of
             (Inl e, h) \<Rightarrow> (Inl e, h)
           | (Inr _, h) \<Rightarrow> evolve_targets verifier ts h))"

definition evolve ::
    "(string \<Rightarrow> (string, pyval) dict \<Rightarrow> omega_verdict) \<Rightarrow> evolution_proposal list
     \<Rightarrow> (exn + unit) \<times> evolution_proposal list" where
  "evolve verifier history = evolve_targets verifier analyze_bottlenecks history"

text \<open>
  The simulator tests a compiled pattern for membership in the code, which raises as soon as there is a
  pattern; the rest of the risk is a sum of weights.
\<close>

definition risk_keywords :: "(string, rat) dict" where
  "risk_keywords =
     [(''rm -rf'', 8 / 10), (''os.remove'', 4 / 10), (''shutil.rmtree'', 7 / 10), (''subprocess.Popen'', 3 / 10),
      (''socket.connect'', 2 / 10), (''requests.post'', 2 / 10), (''set_env'', 1 / 10)]"

definition calculate_base_risk :: "safety_invariant list \<Rightarrow> string \<Rightarrow> exn + rat" where
  "calculate_base_risk invariants code =
     (if invariants \<noteq> [] then Inl TypeError
      else Inr (min (sum_list (map snd (filter (\<lambda>(k, _). py_in k code) risk_keywords))) 1))"

definition estimate_blast_radius :: "rat \<Rightarrow> string \<times> string list" where
  "estimate_blast_radius risk =
     (if risk < 3 / 10 then (''local'', [''Minimal change to local state''])
      else if 3 / 10 \<le> risk \<and> risk < 7 / 10 then
        (''systemic'', [''Potential modification of application configuration'', ''Temporary service interruption''])
      else (''global'', [''Permanent data loss in target directory'', ''System-wide stability degradation'',
              ''Security perimeter breach'']))"

record simulation_result =
  si_risk :: rat
  si_impacts :: "string list"
  si_radius :: string
  si_mitigations :: "string list"
  si_reversible :: bool

definition simulate :: "safety_invariant list \<Rightarrow> string \<Rightarrow> exn + simulation_result" where
  "simulate invariants code =
     (case calculate_base_risk invariants code of
        Inl e \<Rightarrow> Inl e
      | Inr risk \<Rightarrow>
          (let reversible = \<not> (py_in ''rm '' code \<or> py_in ''delete'' (py_lower code))
           in Inr \<lparr>si_risk = risk, si_impacts = snd (estimate_blast_radius risk),
                si_radius = fst (estimate_blast_radius risk),
                si_mitigations =
                  (if 5 / 10 < risk then [''Create a full system snapshot before execution'',
                     ''Run in a restricted container with no network access''] else []) @
                  (if \<not> reversible then [''Verify existence of off-site backups''] else []),
                si_reversible = reversible\<rparr>))"

section \<open>Pulse\<close>

record goal =
  go_id :: string
  go_description :: string
  go_priority :: string
  go_trigger :: string
  go_context :: "(string, pyval) dict"
  go_created :: time

fun count_tools :: "audit_row list \<Rightarrow> (string, nat) dict \<Rightarrow> (string, nat) dict" where
  "count_tools [] d = d"
| "count_tools (r # rs) d =
     count_tools rs (dict_put (au_tool r) (Suc (case dict_get d (au_tool r) of None \<Rightarrow> 0 | Some n \<Rightarrow> n)) d)"

fun join_comma :: "string list \<Rightarrow> string" where
  "join_comma [] = []"
| "join_comma [x] = x"
| "join_comma (x # y # xs) = x @ '', '' @ join_comma (y # xs)"

text \<open>\<open>order\<close> is the order in which a set of strings is listed.\<close>

definition scan_for_inefficiencies :: "(string list \<Rightarrow> string list) \<Rightarrow> time \<Rightarrow> tool_db \<Rightarrow> goal list" where
  "scan_for_inefficiencies order now s =
     (let stamp = str_int (floor now);
          failures = take 50 (filter (\<lambda>r. not_success_column) (audit_rows s));
          clusters = List.map_filter (\<lambda>(tool, n).
            if 3 < n then Some \<lparr>go_id = ''goal_fix_'' @ tool @ ''_'' @ stamp,
              go_description = ''Optimize and repair tool '' @ quoted tool @ '' which has failed '' @ str_nat n @ '' times recently.'',
              go_priority = ''high'', go_trigger = ''failure_cluster'',
              go_context = [(''tool'', PStr tool), (''failure_count'', PInt (int n))], go_created = now\<rparr>
            else None) (count_tools failures []);
          slow = take 20 (filter (\<lambda>r. case au_duration r of None \<Rightarrow> False | Some d \<Rightarrow> 2000 < d) (audit_rows s));
          tools = order (remdups (map au_tool slow))
      in clusters @
         (if slow = [] \<or> tools = [] then []
          else [\<lparr>go_id = ''goal_opt_'' @ stamp, go_description = ''Reduce latency for tools: '' @ join_comma tools @ ''.'',
                 go_priority = ''medium'', go_trigger = ''latency_spike'',
                 go_context = [(''slow_tools'', PList (map PStr tools))], go_created = now\<rparr>]))"

definition hypotheses :: "string list" where
  "hypotheses =
     [''Explore unknown network endpoints for new capabilities.'',
      ''Test the limits of the current OSInterface semantic targeting.'',
      ''Attempt to synthesize a tool that optimizes memory retrieval speed.'',
      ''Analyze the current system architecture for redundant logic.'']"

definition generate_curiosity_goal :: "rat \<Rightarrow> nat \<Rightarrow> time \<Rightarrow> goal option" where
  "generate_curiosity_goal u choice now =
     (if u < 1 / 10
      then Some \<lparr>go_id = ''goal_curious_'' @ str_int (floor now), go_description = hypotheses ! (choice mod 4),
             go_priority = ''low'', go_trigger = ''curiosity'', go_context = [], go_created = now\<rparr>
      else None)"

definition pulse :: "(string list \<Rightarrow> string list) \<Rightarrow> rat \<Rightarrow> nat \<Rightarrow> time \<Rightarrow> tool_db \<Rightarrow> goal list" where
  "pulse order u choice now s =
     scan_for_inefficiencies order now s @
     (case generate_curiosity_goal u choice now of None \<Rightarrow> [] | Some g \<Rightarrow> [g])"

text \<open>The manager's heartbeat: every goal of the pulse is run with its trigger and identifier as context.\<close>

definition goal_context :: "goal \<Rightarrow> string" where
  "goal_context g = ''trigger:'' @ go_trigger g @ '' goal_id:'' @ go_id g"

text \<open>The arguments of a task that every goal shares; the goals draw identifiers and times in order.\<close>

record omega_env =
  oe_verifier :: "string \<Rightarrow> (string, pyval) dict \<Rightarrow> omega_verdict"
  oe_provider :: provider
  oe_float :: "rat \<Rightarrow> string"
  oe_ids :: "nat \<Rightarrow> string"
  oe_clock :: "nat \<Rightarrow> time"
  oe_cpu :: "nat \<Rightarrow> rat"
  oe_ram :: "nat \<Rightarrow> rat"
  oe_governor :: governor

definition omega_task :: "omega_env \<Rightarrow> nat \<Rightarrow> string \<Rightarrow> string \<Rightarrow> omega_state \<Rightarrow> (exn + omega_result) \<times> omega_state" where
  "omega_task env k =
     execute_omega_task (oe_verifier env) (oe_provider env) (oe_float env) (oe_ids env k) (oe_clock env k)
       (oe_cpu env k) (oe_ram env k) (oe_governor env)"

fun run_goals :: "omega_env \<Rightarrow> nat \<Rightarrow> goal list \<Rightarrow> omega_state \<Rightarrow> (exn + unit) \<times> omega_state" where
  "run_goals env k [] s = (Inr (), s)"
| "run_goals env k (goal # goals) s =
     (case omega_task env k (go_description goal) (goal_context goal) s of
        (Inl e, s') \<Rightarrow> (Inl e, s')
      | (Inr _, s') \<Rightarrow> run_goals env (Suc k) goals s')"

definition run_autonomous_cycle :: "omega_env \<Rightarrow> goal list option \<Rightarrow> omega_state \<Rightarrow> (exn + unit) \<times> omega_state" where
  "run_autonomous_cycle env goals s =
     (case goals of None \<Rightarrow> (Inr (), s) | Some gs \<Rightarrow> run_goals env 0 gs s)"

text \<open>The facade for goals given as dictionaries.\<close>

definition execute_goal :: "omega_env \<Rightarrow> (string, pyval) dict \<Rightarrow> omega_state \<Rightarrow> (exn + omega_result) \<times> omega_state" where
  "execute_goal env goal s =
     (let str = py_str (oe_float env);
          goal_id = (case dict_get goal ''id'' of None \<Rightarrow> PStr ''unknown'' | Some v \<Rightarrow> v);
          description = (case dict_get goal ''description'' of None \<Rightarrow> PStr ''no description'' | Some v \<Rightarrow> v);
          criteria = (case dict_get goal ''success_criteria'' of None \<Rightarrow> PNone | Some v \<Rightarrow> v)
      in omega_task env 0 (str description) (''goal_id:'' @ str goal_id @ '' success_criteria:'' @ str criteria) s)"

text \<open>A failing tool never becomes a goal, however often it fails.\<close>

lemma pulse_ignores_failures:
  "filter (\<lambda>g. go_trigger g = ''failure_cluster'') (pulse order u choice now s) = []"
  by (simp add: pulse_def scan_for_inefficiencies_def not_success_column_def generate_curiosity_goal_def
      map_filter_simps Let_def split: option.split)

section \<open>The loop and the judge\<close>

lemma first_run:
  "swarm_loop new_swarm = \<lparr>sw_iterations = 2, sw_last_implementation = Some invoke_executor,
     sw_last_critique = Some (True, ''Edge case: network timeout not handled.''), sw_executed = 2\<rparr>"
proof -
  let ?s = "\<lparr>sw_iterations = 1, sw_last_implementation = Some invoke_executor,
    sw_last_critique = Some (True, ''Edge case: network timeout not handled.''), sw_executed = 1\<rparr>"
  have "swarm_loop new_swarm = swarm_loop ?s"
    by (subst swarm_loop.simps) (simp add: new_swarm_def max_iterations_def invoke_critic_def Let_def)
  also have "swarm_loop ?s = \<lparr>sw_iterations = 2, sw_last_implementation = Some invoke_executor,
     sw_last_critique = Some (True, ''Edge case: network timeout not handled.''), sw_executed = 2\<rparr>"
    by (subst swarm_loop.simps) (simp add: max_iterations_def invoke_critic_def Let_def)
  finally show ?thesis .
qed

lemma later_run:
  assumes "2 \<le> sw_iterations s"
  shows "swarm_loop s = (if sw_iterations s < 5 then s\<lparr>sw_iterations := sw_iterations s + 1,
    sw_last_implementation := Some invoke_executor, sw_executed := sw_executed s + 1\<rparr> else s)"
  using assms by (subst swarm_loop.simps) (simp add: max_iterations_def invoke_critic_def Let_def)

fun swarm_runs :: "nat \<Rightarrow> swarm \<Rightarrow> swarm" where
  "swarm_runs 0 s = s"
| "swarm_runs (Suc n) s = snd (run_loop (swarm_runs n s))"

lemma swarm_runs_Suc: "swarm_runs (Suc n) s = swarm_loop (swarm_runs n s)"
  by (simp add: run_loop_def Let_def)

abbreviation worn_swarm :: "nat \<Rightarrow> swarm" where
  "worn_swarm n \<equiv> \<lparr>sw_iterations = min 5 (n + 2), sw_last_implementation = Some invoke_executor,
     sw_last_critique = Some (True, ''Edge case: network timeout not handled.''), sw_executed = min 5 (n + 2)\<rparr>"

lemma swarm_after_runs: "swarm_runs (Suc n) new_swarm = worn_swarm n"
proof (induction n)
  case 0
  show ?case by (simp add: run_loop_def first_run)
next
  case (Suc n)
  have "swarm_loop (swarm_runs (Suc n) new_swarm) = worn_swarm (Suc n)"
    unfolding Suc.IH by (subst later_run) (auto simp: min_def)
  then show ?case unfolding swarm_runs_Suc [of "Suc n"] .
qed

lemma next_run: "swarm_loop (swarm_runs n new_swarm) = worn_swarm n"
  using swarm_after_runs by (simp only: swarm_runs_Suc)

text \<open>
  Every run of the swarm ends, but its counter is never reset: the first run calls the executor
  twice, each of the next three once, and every later one returns the last implementation without
  calling anybody. The critique handed to the judge is always the one of the very first iteration, so
  the judge rejects every result.
\<close>

theorem judge_never_approves:
  "sw_executed (swarm_runs (Suc n) new_swarm) = min 5 (n + 2) \<and>
   sr_iterations (fst (run_loop (swarm_runs n new_swarm))) = min 5 (n + 2) \<and>
   judge_evaluate (sr_implementation (fst (run_loop (swarm_runs n new_swarm))))
     (sr_critique (fst (run_loop (swarm_runs n new_swarm)))) =
     Inr (False, ''Rejected via fallback: Reasoning engine unavailable and Critic flagged flaws.'')"
  using swarm_after_runs [of n] next_run [of n]
  by (simp add: run_loop_def judge_evaluate_def)

text \<open>
  No violation of the safety registry equals the text the manager looks for: whatever they are, the
  gate is not asked.
\<close>

lemma levels_never_critical: "critical_violations (map_option (map level_violation) vs) = []"
  by (cases vs) (simp_all add: critical_violations_def level_violation_def filter_empty_conv)

lemma aegis_verdict_raises: "unpack_two (aegis_verdict code md) = Inl ValueError"
  by (simp add: aegis_verdict_def split: prod.split)

lemma omega_task_always_raises:
  "\<exists>e. fst (execute_omega_task aegis_verdict pv f nid now cpu ram g goal context s) = Inl e"
  by (simp add: execute_omega_task_def aegis_verdict_raises Let_def split: sum.split prod.split)

lemma evolve_always_raises: "evolve aegis_verdict history = (Inl ValueError, history)"
  by (simp add: evolve_def analyze_bottlenecks_def synthesize_refactor_def apply_evolution_def aegis_verdict_raises)

lemma simulate_always_raises: "simulate FORBIDDEN_PATTERNS code = Inl TypeError"
  by (simp add: simulate_def calculate_base_risk_def FORBIDDEN_PATTERNS_def)

text \<open>So a cycle succeeds only when the pulse has no goal.\<close>

lemma cycle_succeeds_without_goals:
  assumes "oe_verifier env = aegis_verdict"
  shows "fst (run_autonomous_cycle env (Some gs) s) = Inr () \<longleftrightarrow> gs = []"
proof (cases gs)
  case (Cons goal goals)
  obtain e where "fst (omega_task env 0 (go_description goal) (goal_context goal) s) = Inl e"
    using omega_task_always_raises by (metis assms omega_task_def)
  then show ?thesis
    by (cases "omega_task env 0 (go_description goal) (goal_context goal) s") (simp add: Cons run_autonomous_cycle_def)
qed (simp add: run_autonomous_cycle_def)

text \<open>
  With the unpacking repaired, so that the verifier answers two values, the manager still never asks the
  gate and never completes a task.
\<close>

definition two_valued :: "string \<Rightarrow> (string, pyval) dict \<Rightarrow> omega_verdict" where
  "two_valued code metadata =
     (case verify_code code metadata of
        (safe, violations, score) \<Rightarrow> Couple safe (map_option (map level_violation) violations))"

lemma patterns_found:
  assumes "memory_ok m"
  obtains ns where "query_patterns pv text tags m = Inr ns"
  unfolding query_patterns_def query_def
  using candidates_exact [OF assms, of tags thesis] by auto

lemma metabolic_check_keeps [simp]:
  "om_swarm (metabolic_check cpu ram g s) = om_swarm s" "om_memory (metabolic_check cpu ram g s) = om_memory s"
  "om_gate (metabolic_check cpu ram g s) = om_gate s"
  by (simp_all add: metabolic_check_def)

lemma worn_result:
  "run_loop (swarm_runs n new_swarm) = (\<lparr>sr_implementation = Some invoke_executor,
     sr_critique = Some (True, ''Edge case: network timeout not handled.''), sr_blueprint = blueprint,
     sr_iterations = min 5 (n + 2)\<rparr>, swarm_runs (Suc n) new_swarm)"
  using next_run [of n] swarm_after_runs [of n] by (simp add: run_loop_def Let_def)

lemma omega_task_rejected:
  assumes "memory_ok (om_memory s)" and "om_swarm s = swarm_runs n new_swarm"
    and "\<And>code md. \<exists>safe vs. verifier code md = Couple safe (map_option (map level_violation) vs)"
  shows "execute_omega_task verifier pv f nid now cpu ram g goal context s =
    (Inr (Rejected ''Rejected via fallback: Reasoning engine unavailable and Critic flagged flaws.''
       (fst (run_loop (om_swarm s)))),
     s\<lparr>om_swarm := swarm_runs (Suc n) new_swarm,
       om_paused := om_paused s + (if fst (check_vitals cpu ram g) then 0 else 5)\<rparr>)"
proof -
  obtain ns where "query_patterns pv context (Some [''failure_pattern'']) (om_memory s) = Inr ns"
    using assms(1) by (rule patterns_found)
  moreover obtain safe vs where
    "verifier [] [(''tool_name'', PStr ''Sovereign_Result'')] = Couple safe (map_option (map level_violation) vs)"
    using assms(3) by blast
  ultimately show ?thesis
    by (simp add: execute_omega_task_def Let_def worn_result assms(2) implementation_code_def invoke_executor_def
        levels_never_critical adjudicate_def judge_evaluate_def metabolic_check_def del: swarm_runs.simps)
qed


lemma two_valued_levels: "\<exists>safe vs. two_valued code md = Couple safe (map_option (map level_violation) vs)"
  by (auto simp: two_valued_def split: prod.split)


text \<open>
  Only a verifier that reports the risk as a text reaches the gate, and the gate refuses exactly when
  the text of the request mentions a deletion.
\<close>

lemma tagged_violation_is_gated:
  assumes "memory_ok (om_memory s)" and "om_swarm s = swarm_runs n new_swarm"
    and "verifier [] [(''tool_name'', PStr ''Sovereign_Result'')] = Couple False (Some vs)"
    and "critical_violations (Some vs) \<noteq> []"
  shows "fst (execute_omega_task verifier pv f nid now cpu ram g goal context s) =
    Inr (if py_in ''DELETE'' (py_upper (approval_text f (critical_violations (Some vs))))
         then Blocked ''Human operator rejected safety violations.'' (Some vs)
         else Rejected ''Rejected via fallback: Reasoning engine unavailable and Critic flagged flaws.''
           (fst (run_loop (om_swarm s))))"
proof -
  obtain ns where "query_patterns pv context (Some [''failure_pattern'']) (om_memory s) = Inr ns"
    using assms(1) by (rule patterns_found)
  moreover have gates: "\<exists>gk. request_approval now ''omega_execution'' descr ''CRITICAL'' None g0 = (gk, \<not> py_in ''DELETE'' (py_upper descr))"
    for descr g0
    by (rule exI [of _ "fst (request_approval now ''omega_execution'' descr ''CRITICAL'' None g0)"], rule prod_eqI)
      (simp_all add: request_approval_verdict denied_def)
  moreover obtain gk where "request_approval now ''omega_execution'' (approval_text f (critical_violations (Some vs)))
      ''CRITICAL'' None (om_gate s) = (gk, \<not> py_in ''DELETE'' (py_upper (approval_text f (critical_violations (Some vs)))))"
    using gates by blast
  ultimately show ?thesis
    using assms(2-4) by (simp add: execute_omega_task_def Let_def worn_result implementation_code_def invoke_executor_def
        adjudicate_def judge_evaluate_def del: swarm_runs.simps)
qed

text \<open>So a heartbeat over any goals leaves the memory and the gate as they were.\<close>

lemma cycle_learns_nothing:
  assumes "memory_ok (om_memory s)" and "om_swarm s = swarm_runs n new_swarm" and "oe_verifier env = two_valued"
  shows "\<exists>s'. run_goals env k goals s = (Inr (), s') \<and> om_memory s' = om_memory s \<and> om_gate s' = om_gate s \<and>
    om_swarm s' = swarm_runs (n + length goals) new_swarm"
  using assms(1,2)
proof (induction goals arbitrary: s n k)
  case (Cons goal goals)
  obtain r s1 where task: "omega_task env k (go_description goal) (goal_context goal) s = (Inr r, s1)"
      "om_memory s1 = om_memory s" "om_gate s1 = om_gate s" "om_swarm s1 = swarm_runs (Suc n) new_swarm"
    unfolding omega_task_def assms(3) omega_task_rejected [OF Cons.prems two_valued_levels]
    by (simp del: swarm_runs.simps)
  show ?case
    using Cons.IH [of s1 "Suc n" "Suc k"] Cons.prems(1) task by (simp del: swarm_runs.simps)
qed simp

end
