(* ===== verification/Roles.thy ===== *)
theory Roles
  imports Sovereign
begin

text \<open>
  The personas of the adversarial roles (\<open>src/agent/sovereign/roles.py\<close>) and the dispatch of the swarm engine over the roles
  (\<open>src/agent/sovereign/swarm_engine.py\<close>), which looks the persona up for its log and answers without it.
  The dash in one constraint is outside the model and written as a hyphen.
\<close>

datatype swarm_role = STRATEGIST | EXECUTOR | CRITIC | JUDGE

record persona =
  ps_role :: swarm_role
  ps_prompt :: string
  ps_objective :: string
  ps_constraints :: "string list"

definition quote_char :: string where
  "quote_char = [CHR 0x27]"

definition quote_word :: "string \<Rightarrow> string" where
  "quote_word w = quote_char @ w @ quote_char"

definition possessive :: string where
  "possessive = quote_char @ ''s''"

definition role_definitions :: "(swarm_role, persona) dict" where
  "role_definitions =
     [(STRATEGIST, \<lparr>ps_role = STRATEGIST,
        ps_prompt = ''You are the Sovereign Strategist. Your goal is absolute efficiency and foresight. '' @
          ''You do not implement; you architect. You identify the shortest path to the goal, '' @
          ''anticipate environmental obstacles, and define the '' @ quote_word ''definition of done'' @ '' for the Executor.'',
        ps_objective = ''Deconstruct complex goals into a high-level strategic blueprint.'',
        ps_constraints = [''Never provide implementation code.'',
          ''Must define clear success metrics for each phase.'',
          ''Must identify potential failure points for the Critic to analyze.'']\<rparr>),
      (EXECUTOR, \<lparr>ps_role = EXECUTOR,
        ps_prompt = ''You are the Sovereign Executor. You are the hands of the system. '' @
          ''Your goal is flawless implementation. You use the Forge to create tools, '' @
          ''the Eye to perceive the environment, and the codebase to apply changes.'',
        ps_objective = ''Transform strategic blueprints into tangible, verified results.'',
        ps_constraints = [''Must provide evidence (logs, screenshots, tests) for every claim of success.'',
          ''Must immediately signal the Critic when an unexpected state is encountered.'',
          ''No guesswork; if a tool is missing, use the Forge.'']\<rparr>),
      (CRITIC, \<lparr>ps_role = CRITIC,
        ps_prompt = ''You are the Sovereign Critic. Your only goal is to find the flaw. '' @
          ''You are the professional skeptic. You analyze the Executor'' @ possessive @ '' work for '' @
          ''hallucinations, security vulnerabilities, and edge-case failures.'',
        ps_objective = ''Actively sabotage and stress-test the Executor'' @ possessive @ '' plans and outputs.'',
        ps_constraints = [''Must provide a concrete counter-example or failure scenario for every critique.'',
          ''Must not be '' @ quote_word ''helpful'' @ ''-be rigorous and adversarial.'',
          ''Focus on the delta between the Strategist'' @ possessive @ '' goal and the Executor'' @ possessive @ '' result.'']\<rparr>),
      (JUDGE, \<lparr>ps_role = JUDGE,
        ps_prompt = ''You are the Sovereign Judge. You are the final authority. '' @
          ''You weigh the Executor'' @ possessive @ '' evidence against the Critic'' @ possessive @ '' skepticism. '' @
          ''Your goal is the objective truth and the most stable outcome.'',
        ps_objective = ''Resolve conflicts between the Executor and Critic to determine the final truth.'',
        ps_constraints = [''Must provide a reasoned verdict based on evidence provided in the session.'',
          ''Can force the Executor to loop back to the Strategist for a redesign.'',
          ''Final approval is the only way a task is marked '' @ quote_word ''completed'' @ ''.'']\<rparr>)]"

definition get_persona :: "swarm_role \<Rightarrow> exn + persona" where
  "get_persona r = (case dict_get role_definitions r of None \<Rightarrow> Inl KeyError | Some p \<Rightarrow> Inr p)"

text \<open>The reply of a role, as the dictionary the engine returns, after the persona has been looked up.\<close>

definition critique_dict :: "bool \<times> string \<Rightarrow> (string, pyval) dict" where
  "critique_dict c = [(''is_flawed'', PBool (fst c)), (''reason'', PStr (snd c))]"

definition invoke_role :: "swarm_role \<Rightarrow> nat \<Rightarrow> exn + (string, pyval) dict" where
  "invoke_role r iteration =
     (case get_persona r of
        Inl e \<Rightarrow> Inl e
      | Inr _ \<Rightarrow> Inr (case r of STRATEGIST \<Rightarrow> blueprint | EXECUTOR \<Rightarrow> invoke_executor
                        | CRITIC \<Rightarrow> critique_dict (invoke_critic iteration) | JUDGE \<Rightarrow> []))"

text \<open>Every role has a persona of its own, so no role is refused; only the critic's reply depends on the iteration.\<close>

lemma personas_complete: "\<exists>p. get_persona r = Inr p \<and> ps_role p = r \<and> length (ps_constraints p) = 3"
  by (cases r) (simp_all add: get_persona_def role_definitions_def)

lemma roles_answer:
  "invoke_role STRATEGIST i = Inr blueprint" "invoke_role EXECUTOR i = Inr invoke_executor"
  "invoke_role CRITIC i = Inr (critique_dict (invoke_critic i))" "invoke_role JUDGE i = Inr []"
  using personas_complete by (auto simp: invoke_role_def split: sum.split) (metis Inl_Inr_False)+

text \<open>What the loop reads of a critique is what the critic said.\<close>

lemma critique_read:
  "dict_get (critique_dict c) ''is_flawed'' = Some (PBool (fst c))" "dict_get (critique_dict c) ''reason'' = Some (PStr (snd c))"
  by (simp_all add: critique_dict_def)

end
