(* ===== verification/Features.thy ===== *)
theory Features
  imports Prelude
begin

text \<open>
  Feature processing (\<open>src/features/processor.py\<close>), data files (\<open>src/data/processor.py\<close>) and the
  helpers of \<open>src/utils/helpers.py\<close>. The numerical libraries are parameters: how a pipeline is built,
  fitted and applied, how a column is summarised and how a file of each format is read and written.
  What is modelled is what the code makes of them.
\<close>

section \<open>Data frames\<close>

text \<open>A frame has named, typed columns over an index; a missing cell is \<open>None\<close>.\<close>

datatype dtype = NumberType | ObjectType | BoolType | OtherType

record 'c column =
  co_name :: string
  co_type :: dtype
  co_cells :: "'c option list"

record 'c frame =
  fr_columns :: "'c column list"
  fr_index :: "int list"

definition column_names :: "'c frame \<Rightarrow> string list" where
  "column_names x = map co_name (fr_columns x)"

definition select_dtypes :: "dtype list \<Rightarrow> 'c frame \<Rightarrow> string list" where
  "select_dtypes ts x = map co_name (filter (\<lambda>c. co_type c \<in> set ts) (fr_columns x))"

section \<open>The feature processor\<close>

text \<open>
  What a pipeline returns: an array or a sparse matrix with its number of columns, or something else.
  \<open>len\<close> of an array is its number of rows; a sparse matrix has none and raises.
\<close>

datatype 'c transformed = Dense nat "'c list list" | Sparse nat "'c list list" | OtherOutput "'c list list"

record 'pl processor =
  fp_pipeline :: "'pl option"
  fp_names_in :: "string list option"
  fp_names_out :: "string list option"

record ('c, 'pl) sklearn =
  sk_columns :: "string list \<Rightarrow> string list \<Rightarrow> 'pl"
  sk_fit :: "'pl \<Rightarrow> 'c frame \<Rightarrow> exn + 'pl"
  sk_transform :: "'pl \<Rightarrow> 'c frame \<Rightarrow> exn + 'c transformed"

definition new_processor :: "'pl option \<Rightarrow> 'pl processor" where
  "new_processor steps = \<lparr>fp_pipeline = steps, fp_names_in = None, fp_names_out = None\<rparr>"

definition create_default_pipeline :: "('c, 'pl) sklearn \<Rightarrow> 'c frame \<Rightarrow> 'pl" where
  "create_default_pipeline sk x =
     sk_columns sk (select_dtypes [NumberType] x) (select_dtypes [ObjectType, BoolType] x)"

definition feature_names :: "nat \<Rightarrow> string list" where
  "feature_names n = map (\<lambda>i. ''feature_'' @ str_nat i) [0..<n]"

definition first_row :: "'c frame \<Rightarrow> 'c frame" where
  "first_row x = \<lparr>fr_columns = map (\<lambda>c. c\<lparr>co_cells := take 1 (co_cells c)\<rparr>) (fr_columns x),
     fr_index = take 1 (fr_index x)\<rparr>"

definition output_len :: "'c transformed \<Rightarrow> exn + nat" where
  "output_len out = (case out of Dense _ rows \<Rightarrow> Inr (length rows) | Sparse _ _ \<Rightarrow> Inl TypeError
     | OtherOutput rows \<Rightarrow> Inr (length rows))"

definition names_out :: "('c, 'pl) sklearn \<Rightarrow> 'pl \<Rightarrow> 'c frame \<Rightarrow> string list option" where
  "names_out sk pl x =
     (case sk_transform sk pl (first_row x) of
        Inl _ \<Rightarrow> None
      | Inr out \<Rightarrow> (case output_len out of Inl _ \<Rightarrow> None | Inr n \<Rightarrow> Some (feature_names n)))"

definition fit :: "('c, 'pl) sklearn \<Rightarrow> 'c frame \<Rightarrow> 'pl processor \<Rightarrow> (exn + unit) \<times> 'pl processor" where
  "fit sk x s =
     (let pl = (case fp_pipeline s of None \<Rightarrow> create_default_pipeline sk x | Some p \<Rightarrow> p);
          s1 = s\<lparr>fp_pipeline := Some pl\<rparr>
      in case sk_fit sk pl x of
           Inl e \<Rightarrow> (Inl e, s1)
         | Inr pl' \<Rightarrow>
             (Inr (), s1\<lparr>fp_pipeline := Some pl', fp_names_in := Some (column_names x),
                         fp_names_out := names_out sk pl' x\<rparr>))"

text \<open>The transformed frame: the names of its columns, its index and its rows.\<close>

record 'c table_out =
  to_names :: "string list option"
  to_index :: "int list"
  to_rows :: "'c list list"

definition array_frame :: "string list option \<Rightarrow> int list \<Rightarrow> nat \<Rightarrow> 'c list list \<Rightarrow> 'c table_out" where
  "array_frame names index w rows =
     (let cols = (case names of
            Some (n # ns) \<Rightarrow> if length (n # ns) = w then n # ns else feature_names w
          | _ \<Rightarrow> feature_names w)
      in \<lparr>to_names = Some cols, to_index = index, to_rows = rows\<rparr>)"

definition transform :: "('c, 'pl) sklearn \<Rightarrow> 'c frame \<Rightarrow> 'pl processor \<Rightarrow> exn + 'c table_out" where
  "transform sk x s =
     (case fp_pipeline s of
        None \<Rightarrow> Inl ValueError
      | Some pl \<Rightarrow>
          (case sk_transform sk pl x of
             Inl e \<Rightarrow> Inl e
           | Inr (Dense w rows) \<Rightarrow> Inr (array_frame (fp_names_out s) (fr_index x) w rows)
           | Inr (Sparse w rows) \<Rightarrow> Inr (array_frame (fp_names_out s) (fr_index x) w rows)
           | Inr (OtherOutput rows) \<Rightarrow> Inr \<lparr>to_names = None, to_index = fr_index x, to_rows = rows\<rparr>))"

definition fit_transform ::
    "('c, 'pl) sklearn \<Rightarrow> 'c frame \<Rightarrow> 'pl processor \<Rightarrow> (exn + 'c table_out) \<times> 'pl processor" where
  "fit_transform sk x s =
     (case fit sk x s of (Inl e, s') \<Rightarrow> (Inl e, s') | (Inr _, s') \<Rightarrow> (transform sk x s', s'))"

text \<open>\<open>config\<close> is not read.\<close>

definition create_feature_processor_from_config :: "(string, pyval) dict \<Rightarrow> 'pl processor" where
  "create_feature_processor_from_config config = new_processor None"

text \<open>The selector of columns and the scaling methods.\<close>

definition select_features :: "string list \<Rightarrow> 'c frame \<Rightarrow> exn + 'c frame" where
  "select_features features x =
     (if list_all (\<lambda>f. f \<in> set (column_names x)) features
      then Inr \<lparr>fr_columns = concat (map (\<lambda>f. filter (\<lambda>c. co_name c = f) (fr_columns x)) features), fr_index = fr_index x\<rparr>
      else Inl KeyError)"

datatype scaler = StandardScaler | MinMaxScaler

definition scale_features ::
    "bool \<Rightarrow> (scaler \<Rightarrow> 'c frame \<Rightarrow> exn + 'c list list) \<Rightarrow> 'c frame \<Rightarrow> string \<Rightarrow> exn + 'c table_out" where
  "scale_features available scale x scaling =
     (if \<not> available then Inl RuntimeError
      else
        case (if scaling = ''standard'' then Some StandardScaler
              else if scaling = ''minmax'' then Some MinMaxScaler else None) of
          None \<Rightarrow> Inl ValueError
        | Some sc \<Rightarrow>
            map_sum id (\<lambda>rows. \<lparr>to_names = Some (column_names x), to_index = fr_index x, to_rows = rows\<rparr>) (scale sc x))"

definition encode_categorical :: "bool \<Rightarrow> ('c frame \<Rightarrow> string list \<Rightarrow> exn + 'c frame) \<Rightarrow> 'c frame \<Rightarrow> string list \<Rightarrow> exn + 'c frame" where
  "encode_categorical available dummies x cols = (if \<not> available then Inl RuntimeError else dummies x cols)"

section \<open>Cleaning and splitting\<close>

text \<open>\<open>median\<close> of the present numbers of a column, none without any; \<open>modes\<close> of the present values.\<close>

record 'c pandas =
  pd_drop_duplicates :: "'c frame \<Rightarrow> 'c frame"
  pd_median :: "'c list \<Rightarrow> 'c option"
  pd_modes :: "'c list \<Rightarrow> 'c list"
  pd_empty :: "'c"

definition fillna :: "'c option \<Rightarrow> 'c option list \<Rightarrow> 'c option list" where
  "fillna v cells = map (\<lambda>c. case c of None \<Rightarrow> v | Some x \<Rightarrow> Some x) cells"

definition present :: "'c option list \<Rightarrow> 'c list" where
  "present cells = List.map_filter id cells"

definition clean_column :: "'c pandas \<Rightarrow> 'c column \<Rightarrow> 'c column" where
  "clean_column pd c =
     (case co_type c of
        NumberType \<Rightarrow> c\<lparr>co_cells := fillna (pd_median pd (present (co_cells c))) (co_cells c)\<rparr>
      | ObjectType \<Rightarrow>
          c\<lparr>co_cells := fillna (Some (case pd_modes pd (present (co_cells c)) of m # _ \<Rightarrow> m | [] \<Rightarrow> pd_empty pd)) (co_cells c)\<rparr>
      | _ \<Rightarrow> c)"

definition clean_data :: "'c pandas \<Rightarrow> 'c frame \<Rightarrow> 'c frame" where
  "clean_data pd x =
     (let y = pd_drop_duplicates pd x in y\<lparr>fr_columns := map (clean_column pd) (fr_columns y)\<rparr>)"

definition feature_engineering :: "'c frame \<Rightarrow> 'c frame" where
  "feature_engineering x = x"

text \<open>Column names are unique here: with a repeated target name \<open>df[target]\<close> would be a frame.\<close>

definition split_features_target :: "'c frame \<Rightarrow> string \<Rightarrow> exn + 'c frame \<times> 'c option list" where
  "split_features_target x target =
     (if target \<notin> set (column_names x) then Inl ValueError
      else Inr (x\<lparr>fr_columns := filter (\<lambda>c. co_name c \<noteq> target) (fr_columns x)\<rparr>,
                concat (map co_cells (filter (\<lambda>c. co_name c = target) (fr_columns x)))))"

section \<open>Files\<close>

text \<open>
  A file system of files and directories; \<open>makedirs\<close> may be refused by it (\<open>can_make\<close>), and always
  refuses the empty path. \<open>dirname\<close> is the part before the last slash, without its trailing slashes.
\<close>

record 'b file_system =
  fs_files :: "(string, 'b) dict"
  fs_dirs :: "string list"

definition dirname :: "string \<Rightarrow> string" where
  "dirname p =
     (let head = rev (dropWhile (\<lambda>c. c \<noteq> CHR ''/'') (rev p))
      in if list_all (\<lambda>c. c = CHR ''/'') head then head
         else rev (dropWhile (\<lambda>c. c = CHR ''/'') (rev head)))"

definition ensure_dir :: "(string \<Rightarrow> bool) \<Rightarrow> string \<Rightarrow> 'b file_system \<Rightarrow> (exn + unit) \<times> 'b file_system" where
  "ensure_dir can_make d fs =
     (if d = [] then (Inl (OtherException ''FileNotFoundError''), fs)
      else if d \<in> set (fs_dirs fs) then (Inr (), fs)
      else if can_make d then (Inr (), fs\<lparr>fs_dirs := fs_dirs fs @ [d]\<rparr>)
      else (Inl (OtherException ''OSError''), fs))"

definition file_bytes :: "string \<Rightarrow> 'b file_system \<Rightarrow> exn + 'b" where
  "file_bytes p fs = (case dict_get (fs_files fs) p of None \<Rightarrow> Inl (OtherException ''FileNotFoundError'') | Some b \<Rightarrow> Inr b)"

definition put_file :: "string \<Rightarrow> 'b \<Rightarrow> 'b file_system \<Rightarrow> 'b file_system" where
  "put_file p b fs = fs\<lparr>fs_files := dict_put p b (fs_files fs)\<rparr>"

definition get_file_size :: "('b \<Rightarrow> nat) \<Rightarrow> string \<Rightarrow> 'b file_system \<Rightarrow> exn + nat" where
  "get_file_size size_of p fs = map_sum id size_of (file_bytes p fs)"

text \<open>The encodings: a writer of each format and the reader that the library offers for it.\<close>

record ('d, 'b) codec =
  cd_dump :: "'d \<Rightarrow> 'b"
  cd_parse :: "'b \<Rightarrow> exn + 'd"

definition codec_ok :: "('d, 'b) codec \<Rightarrow> bool" where
  "codec_ok c \<longleftrightarrow> (\<forall>d. cd_parse c (cd_dump c d) = Inr d)"

definition save_with ::
    "(string \<Rightarrow> bool) \<Rightarrow> ('d, 'b) codec \<Rightarrow> 'd \<Rightarrow> string \<Rightarrow> 'b file_system \<Rightarrow> (exn + unit) \<times> 'b file_system" where
  "save_with can_make c d p fs =
     (case ensure_dir can_make (dirname p) fs of
        (Inl e, fs') \<Rightarrow> (Inl e, fs')
      | (Inr _, fs') \<Rightarrow> (Inr (), put_file p (cd_dump c d) fs'))"

definition load_with :: "('d, 'b) codec \<Rightarrow> string \<Rightarrow> 'b file_system \<Rightarrow> exn + 'd" where
  "load_with c p fs = (case file_bytes p fs of Inl e \<Rightarrow> Inl e | Inr b \<Rightarrow> cd_parse c b)"

definition save_json ::
    "(string \<Rightarrow> bool) \<Rightarrow> ('d, 'b) codec \<Rightarrow> 'd \<Rightarrow> string \<Rightarrow> 'b file_system \<Rightarrow> (exn + unit) \<times> 'b file_system" where
  "save_json = save_with"

definition load_json :: "('d, 'b) codec \<Rightarrow> string \<Rightarrow> 'b file_system \<Rightarrow> exn + 'd" where
  "load_json = load_with"

definition save_yaml ::
    "(string \<Rightarrow> bool) \<Rightarrow> ('d, 'b) codec \<Rightarrow> 'd \<Rightarrow> string \<Rightarrow> 'b file_system \<Rightarrow> (exn + unit) \<times> 'b file_system" where
  "save_yaml = save_with"

definition load_yaml :: "('d, 'b) codec \<Rightarrow> string \<Rightarrow> 'b file_system \<Rightarrow> exn + 'd" where
  "load_yaml = load_with"

definition save_processor ::
    "(string \<Rightarrow> bool) \<Rightarrow> ('pl processor, 'b) codec \<Rightarrow> 'pl processor \<Rightarrow> string \<Rightarrow> 'b file_system \<Rightarrow> (exn + unit) \<times> 'b file_system" where
  "save_processor = save_with"

definition load_processor :: "('pl processor, 'b) codec \<Rightarrow> string \<Rightarrow> 'b file_system \<Rightarrow> exn + 'pl processor" where
  "load_processor = load_with"

datatype data_format = CsvFile | ParquetFile | JsonFile

definition format_of :: "string \<Rightarrow> data_format option" where
  "format_of p =
     (if suffix ''.csv'' p then Some CsvFile
      else if suffix ''.parquet'' p then Some ParquetFile
      else if suffix ''.json'' p then Some JsonFile else None)"

definition load_data :: "(data_format \<Rightarrow> ('d, 'b) codec) \<Rightarrow> string \<Rightarrow> 'b file_system \<Rightarrow> exn + 'd" where
  "load_data codecs p fs =
     (case format_of p of None \<Rightarrow> Inl ValueError | Some f \<Rightarrow> load_with (codecs f) p fs)"

text \<open>The directory is made before the extension is looked at.\<close>

definition save_data ::
    "(string \<Rightarrow> bool) \<Rightarrow> (data_format \<Rightarrow> ('d, 'b) codec) \<Rightarrow> 'd \<Rightarrow> string \<Rightarrow> 'b file_system
     \<Rightarrow> (exn + unit) \<times> 'b file_system" where
  "save_data can_make codecs d p fs =
     (case ensure_dir can_make (dirname p) fs of
        (Inl e, fs') \<Rightarrow> (Inl e, fs')
      | (Inr _, fs') \<Rightarrow>
          (case format_of p of
             None \<Rightarrow> (Inl ValueError, fs')
           | Some f \<Rightarrow> (Inr (), put_file p (cd_dump (codecs f) d) fs')))"

section \<open>Sizes\<close>

text \<open>\<open>f"{v:.1f}"\<close>: one decimal, a tie to the even digit.\<close>

definition round_even :: "rat \<Rightarrow> int" where
  "round_even r =
     (let f = floor r; d = r - of_int f
      in if d < 1 / 2 then f else if 1 / 2 < d then f + 1 else if even f then f else f + 1)"

definition fixed1 :: "rat \<Rightarrow> string" where
  "fixed1 v =
     (let n = nat (round_even (\<bar>v\<bar> * 10))
      in (if v < 0 then ''-'' else []) @ str_nat (n div 10) @ ''.'' @ str_nat (n mod 10))"

fun format_loop :: "string list \<Rightarrow> rat \<Rightarrow> string" where
  "format_loop [] v = fixed1 v @ '' PB''"
| "format_loop (u # us) v = (if v < 1024 then fixed1 v @ '' '' @ u else format_loop us (v / 1024))"

definition format_bytes :: "int \<Rightarrow> string" where
  "format_bytes n = format_loop [''B'', ''KB'', ''MB'', ''GB'', ''TB''] (of_int n)"

section \<open>Properties\<close>

lemma length_feature_names [simp]: "length (feature_names n) = n"
  by (simp add: feature_names_def)

lemma array_frame_generic:
  "names = None \<or> names = Some (feature_names n) \<Longrightarrow>
     array_frame names index w rows = \<lparr>to_names = Some (feature_names w), to_index = index, to_rows = rows\<rparr>"
  by (auto simp: array_frame_def Let_def split: list.split) (metis length_Cons length_feature_names)

lemma names_out_generic: "names_out sk pl x = None \<or> (\<exists>n. names_out sk pl x = Some (feature_names n))"
  by (auto simp: names_out_def split: sum.split)

text \<open>
  Whatever \<open>fit\<close> recorded as the output names, a fitted processor names the columns of a transformed
  array \<open>feature_0\<close>, \<open>feature_1\<close>, ... by the width of the array, keeps the index of its input, and raises
  exactly what its pipeline raises.
\<close>

theorem fitted_transform_exact:
  assumes "fit sk x (new_processor steps) = (Inr (), s)"
  shows "fp_names_in s = Some (column_names x) \<and>
     transform sk y s =
       (case sk_transform sk (the (fp_pipeline s)) y of
          Inl e \<Rightarrow> Inl e
        | Inr (Dense w rows) \<Rightarrow> Inr \<lparr>to_names = Some (feature_names w), to_index = fr_index y, to_rows = rows\<rparr>
        | Inr (Sparse w rows) \<Rightarrow> Inr \<lparr>to_names = Some (feature_names w), to_index = fr_index y, to_rows = rows\<rparr>
        | Inr (OtherOutput rows) \<Rightarrow> Inr \<lparr>to_names = None, to_index = fr_index y, to_rows = rows\<rparr>)"
proof -
  obtain pl where s: "s = \<lparr>fp_pipeline = Some pl, fp_names_in = Some (column_names x), fp_names_out = names_out sk pl x\<rparr>"
    using assms by (auto simp: fit_def new_processor_def Let_def split: sum.splits)
  have "\<exists>n. names_out sk pl x = None \<or> names_out sk pl x = Some (feature_names n)"
    using names_out_generic [of sk pl x] by blast
  then show ?thesis
    by (auto simp: s transform_def array_frame_generic split: sum.split transformed.split)
qed

theorem fitted_transform_exact_witness:
  "fit \<lparr>sk_columns = \<lambda>_ _. (), sk_fit = \<lambda>p _. Inr p, sk_transform = \<lambda>_ y. Inr (Dense 2 (map (\<lambda>_. [1, 2 :: nat]) (fr_index y)))\<rparr>
     \<lparr>fr_columns = [], fr_index = [0, 1]\<rparr> (new_processor None) =
     (Inr (), \<lparr>fp_pipeline = Some (), fp_names_in = Some [], fp_names_out = Some [''feature_0'']\<rparr>) \<and>
   transform \<lparr>sk_columns = \<lambda>_ _. (), sk_fit = \<lambda>p _. Inr p, sk_transform = \<lambda>_ y. Inr (Dense 2 (map (\<lambda>_. [1, 2 :: nat]) (fr_index y)))\<rparr>
     \<lparr>fr_columns = [], fr_index = [7]\<rparr> \<lparr>fp_pipeline = Some (), fp_names_in = Some [], fp_names_out = Some [''feature_0'']\<rparr> =
     Inr \<lparr>to_names = Some [''feature_0'', ''feature_1''], to_index = [7], to_rows = [[1, 2]]\<rparr>"
proof -
  let ?sk = "\<lparr>sk_columns = \<lambda>_ _. (), sk_fit = \<lambda>p _. Inr p, sk_transform = \<lambda>_ y. Inr (Dense 2 (map (\<lambda>_. [1, 2 :: nat]) (fr_index y)))\<rparr>"
  let ?x = "\<lparr>fr_columns = [], fr_index = [0, 1]\<rparr> :: nat frame"
  have names: "feature_names 1 = [''feature_0'']" "feature_names 2 = [''feature_0'', ''feature_1'']"
    by code_simp+
  have fit: "fit ?sk ?x (new_processor None) =
     (Inr (), \<lparr>fp_pipeline = Some (), fp_names_in = Some [], fp_names_out = Some [''feature_0'']\<rparr>)"
    using names(1)
    by (simp add: fit_def new_processor_def Let_def column_names_def names_out_def first_row_def output_len_def)
  show ?thesis using fit fitted_transform_exact [OF fit, of "\<lparr>fr_columns = [], fr_index = [7]\<rparr>"] names by simp
qed

lemma fillna_present: "list_all (\<lambda>c. \<exists>y. c = Some y) (fillna (Some v) cells)"
  by (auto simp: fillna_def list_all_iff split: option.split)

text \<open>Cleaning never leaves a missing cell in a text column, nor in a column of numbers that has one.\<close>

lemma clean_text_column:
  "co_type c = ObjectType \<Longrightarrow> list_all (\<lambda>x. x \<noteq> None) (co_cells (clean_column pd c))"
  by (simp add: clean_column_def fillna_present)

lemma clean_number_column:
  "co_type c = NumberType \<Longrightarrow> pd_median pd (present (co_cells c)) = Some m \<Longrightarrow>
     list_all (\<lambda>x. x \<noteq> None) (co_cells (clean_column pd c))"
  by (simp add: clean_column_def fillna_present)

lemma split_keeps_columns:
  "split_features_target x target = Inr (y, ys) \<Longrightarrow> column_names y = filter (\<lambda>n. n \<noteq> target) (column_names x)"
  by (auto simp: split_features_target_def column_names_def filter_map o_def split: if_splits)

lemma ensure_dir_files: "fs_files (snd (ensure_dir can_make d fs)) = fs_files fs"
  by (simp add: ensure_dir_def)

text \<open>Saving fails without a directory part; then nothing is written.\<close>

lemma save_without_directory:
  "dirname p = [] \<Longrightarrow> save_data can_make codecs d p fs = (Inl (OtherException ''FileNotFoundError''), fs)"
  by (simp add: save_data_def ensure_dir_def)

lemma bare_name_has_no_directory: "CHR ''/'' \<notin> set p \<Longrightarrow> dirname p = []"
proof -
  assume "CHR ''/'' \<notin> set p"
  then have nil: "dropWhile (\<lambda>c. c \<noteq> CHR ''/'') (rev p) = []" by (auto simp: dropWhile_eq_Nil_conv)
  show ?thesis unfolding dirname_def Let_def nil by simp
qed

text \<open>
  What is saved is what is loaded: a save that succeeds leaves a file from which the same value is read
  back, and every other file as it was; a save fails exactly when the directory cannot be made or the
  extension is not one of the three, and then no file changes.
\<close>

theorem saved_data_loads_back:
  assumes "codec_ok (codecs CsvFile)" "codec_ok (codecs ParquetFile)" "codec_ok (codecs JsonFile)"
  shows "(case save_data can_make codecs d p fs of
       (Inr _, fs') \<Rightarrow>
         format_of p \<noteq> None \<and> fst (ensure_dir can_make (dirname p) fs) = Inr () \<and>
         load_data codecs p fs' = Inr d \<and> dict_del p (fs_files fs') = dict_del p (fs_files fs)
     | (Inl _, fs') \<Rightarrow>
         (format_of p = None \<or> fst (ensure_dir can_make (dirname p) fs) \<noteq> Inr ()) \<and> fs_files fs' = fs_files fs)"
proof -
  have ok: "cd_parse (codecs f) (cd_dump (codecs f) d) = Inr d" for f
    using assms by (cases f) (simp_all add: codec_ok_def)
  obtain r fs1 where make: "ensure_dir can_make (dirname p) fs = (r, fs1)" by fastforce
  then have "fs_files fs1 = fs_files fs" using ensure_dir_files [of can_make "dirname p" fs] by simp
  with make ok show ?thesis
    by (auto simp: save_data_def load_data_def load_with_def file_bytes_def put_file_def
        split: sum.split option.split)
qed

theorem saved_data_loads_back_witness:
  "load_data (\<lambda>_. \<lparr>cd_dump = id, cd_parse = Inr\<rparr>) ''out/a.csv''
     (snd (save_data (\<lambda>_. True) (\<lambda>_. \<lparr>cd_dump = id, cd_parse = Inr\<rparr>) (7 :: nat) ''out/a.csv''
        \<lparr>fs_files = [], fs_dirs = []\<rparr>)) = (Inr 7 :: exn + nat)"
proof -
  let ?c = "\<lambda>_ :: data_format. \<lparr>cd_dump = id, cd_parse = Inr\<rparr> :: (nat, nat) codec"
  let ?fs = "\<lparr>fs_files = [], fs_dirs = []\<rparr> :: nat file_system"
  have "codec_ok (?c f)" for f by (simp add: codec_ok_def)
  moreover have "fst (save_data (\<lambda>_. True) ?c 7 ''out/a.csv'' ?fs) = Inr ()"
    by (simp add: save_data_def ensure_dir_def dirname_def format_of_def suffix_to_prefix)
  ultimately show ?thesis
    using saved_data_loads_back [where codecs = ?c and can_make = "\<lambda>_. True" and d = 7 and p = "''out/a.csv''" and fs = ?fs] by (auto split: prod.splits)
qed

text \<open>The unit of a printed size is the first in which the value is below 1024, or PB.\<close>

lemma format_loop_unit:
  "\<exists>k \<le> length us. format_loop us v = fixed1 (v / 1024 ^ k) @ '' '' @ (us @ [''PB'']) ! k \<and>
     (k = length us \<or> v / 1024 ^ k < 1024) \<and> (k = 0 \<or> 1024 \<le> v / 1024 ^ (k - 1))"
proof (induction us arbitrary: v)
  case (Cons u us)
  show ?case
  proof (cases "v < 1024")
    case True
    then show ?thesis by (intro exI [of _ 0]) simp
  next
    case False
    obtain k where k: "k \<le> length us" "format_loop us (v / 1024) = fixed1 (v / 1024 / 1024 ^ k) @ '' '' @ (us @ [''PB'']) ! k"
        "k = length us \<or> v / 1024 / 1024 ^ k < 1024" "k = 0 \<or> 1024 \<le> v / 1024 / 1024 ^ (k - 1)"
      using Cons.IH [of "v / 1024"] by blast
    have "v / 1024 / 1024 ^ j = v / 1024 ^ Suc j" for j
      by (simp add: field_simps)
    with k(2) False have "format_loop (u # us) v = fixed1 (v / 1024 ^ Suc k) @ '' '' @ ((u # us) @ [''PB'']) ! Suc k"
      by simp
    moreover have "Suc k = length (u # us) \<or> v / 1024 ^ Suc k < 1024"
      using k(3) by (simp add: field_simps)
    moreover have "1024 \<le> v / 1024 ^ (Suc k - 1)"
      using k(4) False by (cases k) (simp_all add: field_simps)
    ultimately show ?thesis using k(1) by (intro exI [of _ "Suc k"]) simp
  qed
qed (simp add: fixed1_def)

end
