(* ===== verification/Prediction.thy ===== *)
theory Prediction
  imports Catalog Features
begin

text \<open>
  Prediction, \<open>src/api/prediction\<close>: loading a model with its feature processor, predicting and logging,
  promotion of a model version, the drift check (with \<open>src/ml/monitoring.py\<close>) and the order of the
  routes. The model registry, the numerical libraries and the statistical test are parameters.
\<close>

section \<open>The service\<close>

text \<open>A model is given raw or processed features.\<close>

datatype 'c model_input = RawFrame "'c frame" | ProcessedFrame "'c table_out"

record ('c, 'pl, 'm) ml =
  ml_mlflow :: bool
  ml_pandas :: bool
  ml_tracking :: "exn + unit"
  ml_load :: "string \<Rightarrow> exn + 'm"
  ml_versions :: "string \<Rightarrow> exn + (string \<times> string) list"
  ml_artifact :: "string \<Rightarrow> exn + 'pl processor"
  ml_frame :: "(string, pyval) dict \<Rightarrow> exn + 'c frame"
  ml_sklearn :: "('c, 'pl) sklearn"
  ml_predict :: "'m \<Rightarrow> 'c model_input \<Rightarrow> exn + pyval"
  ml_proba :: "'m \<Rightarrow> ('c model_input \<Rightarrow> exn + pyval) option"

record ('pl, 'm) prediction_service =
  ps_model :: "'m option"
  ps_processor :: "'pl processor option"
  ps_uri :: "string option"
  ps_name :: string

definition production_uri :: "string \<Rightarrow> string" where
  "production_uri name = ''models:/'' @ name @ ''/Production''"

definition latest_uri :: "string \<Rightarrow> string" where
  "latest_uri name = ''models:/'' @ name @ ''/latest''"

definition unload :: "('pl, 'm) prediction_service \<Rightarrow> ('pl, 'm) prediction_service" where
  "unload s = s\<lparr>ps_model := None, ps_processor := None\<rparr>"

text \<open>The processor of the run of the first of the latest versions; any failure is a \<open>RuntimeError\<close>.\<close>

definition bound_processor :: "('c, 'pl, 'm) ml \<Rightarrow> string \<Rightarrow> exn + 'pl processor" where
  "bound_processor ml name =
     (case ml_versions ml name of
        Inl _ \<Rightarrow> Inl RuntimeError
      | Inr [] \<Rightarrow> Inl RuntimeError
      | Inr ((run, _) # _) \<Rightarrow> (case ml_artifact ml run of Inl _ \<Rightarrow> Inl RuntimeError | Inr p \<Rightarrow> Inr p))"

text \<open>Loading from one address: the model is assigned before its processor is looked for.\<close>

definition load_from ::
    "('c, 'pl, 'm) ml \<Rightarrow> string \<Rightarrow> ('pl, 'm) prediction_service \<Rightarrow> (exn + unit) \<times> ('pl, 'm) prediction_service" where
  "load_from ml uri s =
     (case ml_load ml uri of
        Inl e \<Rightarrow> (Inl e, s)
      | Inr m \<Rightarrow>
          (let s1 = s\<lparr>ps_model := Some m, ps_uri := Some uri\<rparr>
           in case bound_processor ml (ps_name s) of
                Inl e \<Rightarrow> (Inl e, s1)
              | Inr p \<Rightarrow> (Inr (), s1\<lparr>ps_processor := Some p\<rparr>)))"

definition load_model_from_mlflow ::
    "('c, 'pl, 'm) ml \<Rightarrow> ('pl, 'm) prediction_service \<Rightarrow> ('pl, 'm) prediction_service" where
  "load_model_from_mlflow ml s =
     (if \<not> ml_mlflow ml then unload s
      else case ml_tracking ml of
          Inl _ \<Rightarrow> unload s
        | Inr _ \<Rightarrow>
            (case load_from ml (production_uri (ps_name s)) s of
               (Inr _, s') \<Rightarrow> s'
             | (Inl _, s1) \<Rightarrow>
                 (case load_from ml (latest_uri (ps_name s)) s1 of
                    (Inr _, s') \<Rightarrow> s'
                  | (Inl _, s') \<Rightarrow> unload s')))"

definition new_service :: "('c, 'pl, 'm) ml \<Rightarrow> string \<Rightarrow> ('pl, 'm) prediction_service" where
  "new_service ml name =
     load_model_from_mlflow ml \<lparr>ps_model = None, ps_processor = None, ps_uri = None, ps_name = name\<rparr>"

text \<open>Every processor has the attribute \<open>feature_names_in_\<close>, which its constructor sets.\<close>

definition has_feature_names_in :: "'pl processor \<Rightarrow> bool" where
  "has_feature_names_in p = True"

record prediction_log =
  pg_version :: string
  pg_features :: "(string, pyval) dict"
  pg_prediction :: pyval
  pg_probabilities :: "pyval option"
  pg_latency :: rat
  pg_user :: "int option"
  pg_created :: time

definition prepare_input :: "('c, 'pl, 'm) ml \<Rightarrow> 'pl processor option \<Rightarrow> 'c frame \<Rightarrow> 'c model_input" where
  "prepare_input ml proc x =
     (case proc of
        None \<Rightarrow> RawFrame x
      | Some p \<Rightarrow>
          if has_feature_names_in p then
            (case transform (ml_sklearn ml) x p of Inl _ \<Rightarrow> RawFrame x | Inr t \<Rightarrow> ProcessedFrame t)
          else RawFrame x)"

record prediction =
  pr_prediction :: pyval
  pr_probabilities :: "pyval option"

text \<open>The log entry is committed or rolled back; neither outcome changes the answer. The context is not used.\<close>

definition log_prediction ::
    "bool \<Rightarrow> time \<Rightarrow> rat \<Rightarrow> string option \<Rightarrow> (string, pyval) dict \<Rightarrow> int option \<Rightarrow> prediction
     \<Rightarrow> prediction_log list option \<Rightarrow> prediction_log list option" where
  "log_prediction commits now latency uri features uid r db =
     (case db of
        None \<Rightarrow> None
      | Some logs \<Rightarrow>
          if commits then
            Some (logs @ [\<lparr>pg_version = (case uri of Some (c # u) \<Rightarrow> c # u | _ \<Rightarrow> ''unknown''), pg_features = features,
                 pg_prediction = pr_prediction r, pg_probabilities = pr_probabilities r, pg_latency = latency,
                 pg_user = uid, pg_created = now\<rparr>])
          else Some logs)"

definition predict ::
    "('c, 'pl, 'm) ml \<Rightarrow> bool \<Rightarrow> time \<Rightarrow> rat \<Rightarrow> (string, pyval) dict \<Rightarrow> int option \<Rightarrow> string option
     \<Rightarrow> ('pl, 'm) prediction_service \<Rightarrow> prediction_log list option \<Rightarrow> (exn + prediction) \<times> prediction_log list option" where
  "predict ml commits now latency features uid context s db =
     (case ps_model s of
        None \<Rightarrow> (Inl RuntimeError, db)
      | Some m \<Rightarrow>
          if \<not> ml_pandas ml then (Inl RuntimeError, db)
          else case ml_frame ml features of
              Inl _ \<Rightarrow> (Inl RuntimeError, db)
            | Inr x \<Rightarrow>
                (let inp = prepare_input ml (ps_processor s) x
                 in case ml_predict ml m inp of
                      Inl _ \<Rightarrow> (Inl RuntimeError, db)
                    | Inr v \<Rightarrow>
                        (let proba = (case ml_proba ml m of
                               None \<Rightarrow> None
                             | Some f \<Rightarrow> (case f inp of Inl _ \<Rightarrow> None | Inr p \<Rightarrow> Some p));
                             r = \<lparr>pr_prediction = v, pr_probabilities = proba\<rparr>
                         in (Inr r, log_prediction commits now latency (ps_uri s) features uid r db))))"

record model_info =
  mi_status :: string
  mi_uri :: "string option"
  mi_has_processor :: bool
  mi_fitted :: bool

definition get_model_info :: "('pl, 'm) prediction_service \<Rightarrow> model_info" where
  "get_model_info s =
     (case ps_model s of
        None \<Rightarrow> \<lparr>mi_status = ''no_model_loaded'', mi_uri = None, mi_has_processor = False, mi_fitted = False\<rparr>
      | Some _ \<Rightarrow>
          \<lparr>mi_status = ''model_loaded'', mi_uri = ps_uri s, mi_has_processor = (ps_processor s \<noteq> None),
           mi_fitted = (case ps_processor s of None \<Rightarrow> False | Some p \<Rightarrow> has_feature_names_in p)\<rparr>)"

definition reload_model ::
    "('c, 'pl, 'm) ml \<Rightarrow> ('pl, 'm) prediction_service \<Rightarrow> model_info \<times> ('pl, 'm) prediction_service" where
  "reload_model ml s = (let s' = load_model_from_mlflow ml s in (get_model_info s', s'))"

section \<open>Drift\<close>

text \<open>A test that fails counts as no drift.\<close>

definition compute_drift ::
    "(rat list \<Rightarrow> rat list \<Rightarrow> exn + rat) \<Rightarrow> rat list \<Rightarrow> rat list \<Rightarrow> rat \<Rightarrow> rat \<times> bool" where
  "compute_drift ks ref cur threshold =
     (case ks ref cur of Inl _ \<Rightarrow> (1, False) | Inr p \<Rightarrow> (p, p < threshold))"

fun drift_report ::
    "(rat list \<Rightarrow> rat list \<Rightarrow> exn + rat) \<Rightarrow> rat \<Rightarrow> (string, rat list) dict \<Rightarrow> (string, rat list) dict
     \<Rightarrow> (string, rat \<times> bool) dict \<Rightarrow> (string, rat \<times> bool) dict" where
  "drift_report ks threshold cur [] rep = rep"
| "drift_report ks threshold cur ((name, ref) # rest) rep =
     (case dict_get cur name of
        None \<Rightarrow> drift_report ks threshold cur rest rep
      | Some vs \<Rightarrow> drift_report ks threshold cur rest (dict_put name (compute_drift ks ref vs threshold) rep))"

definition analyze_feature_drift ::
    "(rat list \<Rightarrow> rat list \<Rightarrow> exn + rat) \<Rightarrow> (string, rat list) dict \<Rightarrow> (string, rat list) dict \<Rightarrow> rat
     \<Rightarrow> (string, rat \<times> bool) dict" where
  "analyze_feature_drift ks ref cur threshold = drift_report ks threshold cur ref []"

text \<open>
  The newest thousand entries, newest first; a value is read with \<open>float\<close>, which may raise, unless the
  entry lacks the feature or holds \<open>None\<close>. A name asked for twice is collected twice.
\<close>

definition recent_logs :: "prediction_log list \<Rightarrow> prediction_log list" where
  "recent_logs logs = take 1000 (sort_key (\<lambda>l. - pg_created l) logs)"

fun collect_names ::
    "(pyval \<Rightarrow> exn + rat) \<Rightarrow> prediction_log \<Rightarrow> string list \<Rightarrow> (string, rat list) dict \<Rightarrow> exn + (string, rat list) dict" where
  "collect_names float_of l [] d = Inr d"
| "collect_names float_of l (n # ns) d =
     (case dict_get (pg_features l) n of
        None \<Rightarrow> collect_names float_of l ns d
      | Some v \<Rightarrow>
          if v = PNone then collect_names float_of l ns d
          else case float_of v of
              Inl e \<Rightarrow> Inl e
            | Inr x \<Rightarrow> collect_names float_of l ns (dict_mut n (\<lambda>xs. xs @ [x]) d))"

fun collect_logs ::
    "(pyval \<Rightarrow> exn + rat) \<Rightarrow> string list \<Rightarrow> prediction_log list \<Rightarrow> (string, rat list) dict \<Rightarrow> exn + (string, rat list) dict" where
  "collect_logs float_of names [] d = Inr d"
| "collect_logs float_of names (l # ls) d =
     (case collect_names float_of l names d of Inl e \<Rightarrow> Inl e | Inr d' \<Rightarrow> collect_logs float_of names ls d')"

definition empty_columns :: "string list \<Rightarrow> (string, rat list) dict" where
  "empty_columns names = foldl (\<lambda>d n. dict_put n [] d) [] names"

definition check_for_drift ::
    "(rat list \<Rightarrow> rat list \<Rightarrow> exn + rat) \<Rightarrow> (pyval \<Rightarrow> exn + rat) \<Rightarrow> rat \<Rightarrow> prediction_log list \<Rightarrow> string list
     \<Rightarrow> (string, rat list) dict \<Rightarrow> exn + bool \<times> (string, rat \<times> bool) dict" where
  "check_for_drift ks float_of threshold logs names ref =
     (if recent_logs logs = [] then Inr (False, [])
      else case collect_logs float_of names (recent_logs logs) (empty_columns names) of
          Inl e \<Rightarrow> Inl e
        | Inr cur \<Rightarrow>
            (let rep = analyze_feature_drift ks ref cur threshold
             in Inr (list_ex (\<lambda>(_, _, drifted). drifted) rep, rep)))"

section \<open>Promotion\<close>

text \<open>
  The registry: the accuracy of each run (a missing metric counts as 0), the latest versions with their
  numbers, and the stage changes made so far. \<open>commits\<close> tells whether the database accepts the commit; the
  metadata table is the one of the catalogue.
\<close>

record registry =
  rg_available :: bool
  rg_accuracy :: "string \<Rightarrow> exn + rat option"
  rg_versions :: "exn + (string \<times> string) list"
  rg_accepts :: "string \<Rightarrow> exn + unit"

datatype promotion =
    NotBetter rat rat
  | NoVersionNumber string
  | Promoted string
  | PromotionFailed exn

definition run_accuracy :: "registry \<Rightarrow> string \<Rightarrow> exn + rat" where
  "run_accuracy rg run = map_sum id (\<lambda>m. case m of None \<Rightarrow> 0 | Some a \<Rightarrow> a) (rg_accuracy rg run)"

definition version_number :: "(string \<times> string) list \<Rightarrow> string \<Rightarrow> string option" where
  "version_number versions run = map_option snd (List.find (\<lambda>(r, _). r = run) versions)"

definition promoted_row :: "string \<Rightarrow> string \<Rightarrow> model_create" where
  "promoted_row model run =
     \<lparr>mc_name = model, mc_version = run, mc_description = Some ''Promoted to Production via LifecycleService'',
      mc_file_path = ''mlruns/'' @ run @ ''/artifacts/model'', mc_file_size = None, mc_accuracy = None\<rparr>"

definition current_production :: "string \<Rightarrow> catalog \<Rightarrow> model_row option" where
  "current_production model s = tb_first (\<lambda>r. mo_name r = model) (ct_models s)"

definition register_promoted :: "time \<Rightarrow> string \<Rightarrow> string \<Rightarrow> catalog \<Rightarrow> catalog" where
  "register_promoted now model run s =
     (case tb_first (\<lambda>r. mo_version r = run) (ct_models s) of
        Some _ \<Rightarrow> s
      | None \<Rightarrow> s\<lparr>ct_models := snd (tb_insert (mk_model (now, promoted_row model run, 1)) (ct_models s))\<rparr>)"

text \<open>The stage changes are the list \<open>moves\<close>; they are not undone when the commit fails.\<close>

definition move_stage ::
    "registry \<Rightarrow> bool \<Rightarrow> time \<Rightarrow> string \<Rightarrow> string \<Rightarrow> string list \<Rightarrow> catalog \<Rightarrow> promotion \<times> string list \<times> catalog" where
  "move_stage rg commits now model run moves s =
     (case rg_versions rg of
        Inl e \<Rightarrow> (PromotionFailed e, moves, s)
      | Inr versions \<Rightarrow>
          (case version_number versions run of
             Some (c # num) \<Rightarrow>
               (case rg_accepts rg (c # num) of
                  Inl e \<Rightarrow> (PromotionFailed e, moves, s)
                | Inr _ \<Rightarrow>
                    if commits then (Promoted run, moves @ [c # num], register_promoted now model run s)
                    else (PromotionFailed (OtherException ''SQLAlchemyError''), moves @ [c # num], s))
           | _ \<Rightarrow> (NoVersionNumber run, moves, s)))"

definition promote_model ::
    "registry \<Rightarrow> bool \<Rightarrow> time \<Rightarrow> string \<Rightarrow> string \<Rightarrow> string list \<Rightarrow> catalog
     \<Rightarrow> (exn + promotion) \<times> string list \<times> catalog" where
  "promote_model rg commits now model run moves s =
     (if \<not> rg_available rg then (Inl RuntimeError, moves, s)
      else
        (case run_accuracy rg run of
           Inl e \<Rightarrow> (Inr (PromotionFailed e), moves, s)
         | Inr mine \<Rightarrow>
             (case current_production model s of
                None \<Rightarrow> (case move_stage rg commits now model run moves s of (p, r) \<Rightarrow> (Inr p, r))
              | Some row \<Rightarrow>
                  (case run_accuracy rg (mo_version row) of
                     Inl e \<Rightarrow> (Inr (PromotionFailed e), moves, s)
                   | Inr old \<Rightarrow>
                       if mine \<le> old then (Inr (NotBetter mine old), moves, s)
                       else (case move_stage rg commits now model run moves s of (p, r) \<Rightarrow> (Inr p, r))))))"

section \<open>Routes\<close>

text \<open>The paths below the prefix in the order of their declaration; a parameter matches one component.\<close>

datatype seg = Lit string | Param

datatype predict_route = RPredict | RStatus | RModelInfo | RReload | RTrain | RPromote | RDrift

definition predict_routes :: "(string \<times> seg list \<times> predict_route) list" where
  "predict_routes =
     [(''POST'', [Lit []], RPredict), (''GET'', [Param], RStatus), (''GET'', [Lit ''model-info''], RModelInfo),
      (''POST'', [Lit ''reload-model''], RReload), (''POST'', [Lit ''train''], RTrain),
      (''POST'', [Lit ''promote''], RPromote), (''GET'', [Lit ''drift''], RDrift)]"

fun seg_match :: "seg list \<Rightarrow> string list \<Rightarrow> bool" where
  "seg_match [] [] = True"
| "seg_match (Lit a # ps) (s # ss) = (a = s \<and> seg_match ps ss)"
| "seg_match (Param # ps) (s # ss) = (s \<noteq> [] \<and> seg_match ps ss)"
| "seg_match _ _ = False"

definition route_of :: "string \<Rightarrow> string list \<Rightarrow> predict_route option" where
  "route_of verb path =
     map_option (\<lambda>(_, _, r). r) (List.find (\<lambda>(v, ps, _). v = verb \<and> seg_match ps path) predict_routes)"

datatype task_state = Pending | Failure string | Success "(string, pyval) dict" | OtherState string

definition get_prediction_status :: "string \<Rightarrow> task_state \<Rightarrow> (string, pyval) dict" where
  "get_prediction_status task_id st =
     (case st of
        Pending \<Rightarrow> [(''task_id'', PStr task_id), (''status'', PStr ''pending'')]
      | Failure info \<Rightarrow> [(''task_id'', PStr task_id), (''status'', PStr ''failed''), (''error'', PStr info)]
      | Success d \<Rightarrow>
          [(''status'', PStr ''ok''),
           (''prediction'', case dict_get d ''prediction'' of None \<Rightarrow> PNone | Some v \<Rightarrow> v),
           (''probabilities'', case dict_get d ''probabilities'' of None \<Rightarrow> PNone | Some v \<Rightarrow> v)]
      | OtherState n \<Rightarrow> [(''task_id'', PStr task_id), (''status'', PStr n)])"

text \<open>The two handlers that queue a task: what is queued, and the reply with the identifier of the task.\<close>

datatype queued_task = QueuedPredict "(string, pyval) dict" | QueuedTrain int string string int

definition api_predict :: "string \<Rightarrow> (string, pyval) dict \<Rightarrow> exn + queued_task \<times> (string, pyval) dict" where
  "api_predict task_id features =
     (if features = [] then Inl (HTTPException 422)
      else Inr (QueuedPredict features, [(''task_id'', PStr task_id), (''status'', PStr ''pending'')]))"

definition api_train :: "string \<Rightarrow> user \<Rightarrow> int \<Rightarrow> string \<Rightarrow> string \<Rightarrow> exn + queued_task \<times> (string, pyval) dict" where
  "api_train task_id u dataset_id target exper =
     (if dataset_id < 1 then Inl (HTTPException 422)
      else Inr (QueuedTrain dataset_id target exper (usr_id u),
        [(''task_id'', PStr task_id), (''status'', PStr ''training_started'')]))"

definition api_promote_model ::
    "registry \<Rightarrow> bool \<Rightarrow> time \<Rightarrow> string \<Rightarrow> string \<Rightarrow> string list \<Rightarrow> catalog \<Rightarrow> (exn + string) \<times> string list \<times> catalog" where
  "api_promote_model rg commits now model version moves s =
     (case promote_model rg commits now model version moves s of
        (Inl e, r) \<Rightarrow> (Inl e, r)
      | (Inr (Promoted v), r) \<Rightarrow> (Inr (''Model '' @ v @ '' promoted to Production.''), r)
      | (Inr _, r) \<Rightarrow> (Inl (HTTPException 400), r))"

section \<open>Properties\<close>

text \<open>
  After a load, whatever was loaded before, a model is present exactly when the registry answers, a
  processor is bound and one of the two addresses has a model; the production address comes first, and a
  model is never served without the processor of this load.
\<close>

theorem loaded_model_is_bound:
  "(let s' = load_model_from_mlflow ml s
    in (ps_model s', ps_processor s', if ps_model s' = None then None else ps_uri s')) =
     (case (ml_mlflow ml, ml_tracking ml, bound_processor ml (ps_name s)) of
        (True, Inr _, Inr p) \<Rightarrow>
          (case ml_load ml (production_uri (ps_name s)) of
             Inr m \<Rightarrow> (Some m, Some p, Some (production_uri (ps_name s)))
           | Inl _ \<Rightarrow>
               (case ml_load ml (latest_uri (ps_name s)) of
                  Inr m \<Rightarrow> (Some m, Some p, Some (latest_uri (ps_name s)))
                | Inl _ \<Rightarrow> (None, None, None)))
      | _ \<Rightarrow> (None, None, None))"
  by (cases "bound_processor ml (ps_name s)"; cases "ml_load ml (production_uri (ps_name s))";
      cases "ml_load ml (latest_uri (ps_name s))"; cases "ml_tracking ml")
    (simp_all add: load_model_from_mlflow_def load_from_def unload_def Let_def)

text \<open>
  The answer of a prediction depends on the model and the features only: a failing log entry neither
  changes nor hides it, a failure of any kind is a \<open>RuntimeError\<close> that logs nothing, and an answer is
  logged with the address of the loaded model.
\<close>

theorem prediction_independent_of_logging:
  "fst (predict ml commits now latency features uid context s db) =
     fst (predict ml commits' now' latency' features uid' context' s db') \<and>
   (case predict ml commits now latency features uid context s db of
      (Inl e, db1) \<Rightarrow> e = RuntimeError \<and> db1 = db
    | (Inr r, db1) \<Rightarrow> db1 = log_prediction commits now latency (ps_uri s) features uid r db)"
  by (simp add: predict_def Let_def split: option.split sum.split)

lemma drift_report_append:
  "dict_wf ref \<Longrightarrow> list_all (\<lambda>(n, _). dict_get rep n = None) ref \<Longrightarrow>
     drift_report ks th cur ref rep =
       rep @ List.map_filter (\<lambda>(n, r). map_option (\<lambda>vs. (n, compute_drift ks r vs th)) (dict_get cur n)) ref"
proof (induction ref arbitrary: rep)
  case (Cons p ref)
  obtain n r where p: "p = (n, r)" by fastforce
  have wf: "dict_wf ref" and fresh: "n \<notin> fst ` set ref" using Cons.prems(1) by (simp_all add: p dict_wf_def)
  show ?case
  proof (cases "dict_get cur n")
    case None
    then show ?thesis using Cons.IH [OF wf, of rep] Cons.prems(2) by (simp add: p map_filter_simps)
  next
    case (Some vs)
    let ?rep = "dict_put n (compute_drift ks r vs th) rep"
    have "list_all (\<lambda>(m, _). dict_get ?rep m = None) ref"
      using Cons.prems(2) fresh by (force simp: p list_all_iff)
    moreover have "?rep = rep @ [(n, compute_drift ks r vs th)]"
      using Cons.prems(2) by (simp add: p dict_put_absent)
    ultimately show ?thesis using Cons.IH [OF wf, of ?rep] Some by (simp add: p map_filter_simps)
  qed
qed (simp add: map_filter_simps)

text \<open>
  The report lists exactly the reference features that were collected, in the order of the reference,
  each with its own test, and the verdict is drift exactly when some test fell below the threshold.
\<close>

theorem drift_check_exact:
  assumes "dict_wf ref" "recent_logs logs \<noteq> []"
    "collect_logs float_of names (recent_logs logs) (empty_columns names) = Inr cur"
  shows "check_for_drift ks float_of th logs names ref =
     (let rep = List.map_filter (\<lambda>(n, r). map_option (\<lambda>vs. (n, compute_drift ks r vs th)) (dict_get cur n)) ref
      in Inr (list_ex (\<lambda>(n, r). case dict_get cur n of None \<Rightarrow> False
            | Some vs \<Rightarrow> (case ks r vs of Inl _ \<Rightarrow> False | Inr p \<Rightarrow> p < th)) ref, rep))"
proof -
  have rep: "analyze_feature_drift ks ref cur th =
      List.map_filter (\<lambda>(n, r). map_option (\<lambda>vs. (n, compute_drift ks r vs th)) (dict_get cur n)) ref"
    using assms(1) by (simp add: analyze_feature_drift_def drift_report_append list_all_iff)
  have "list_ex (\<lambda>(_, _, drifted). drifted)
      (List.map_filter (\<lambda>(n, r). map_option (\<lambda>vs. (n, compute_drift ks r vs th)) (dict_get cur n)) xs) =
    list_ex (\<lambda>(n, r). case dict_get cur n of None \<Rightarrow> False
      | Some vs \<Rightarrow> (case ks r vs of Inl _ \<Rightarrow> False | Inr p \<Rightarrow> p < th)) xs" for xs
  proof (induction xs)
    case (Cons x xs)
    obtain n r where x: "x = (n, r)" by fastforce
    show ?case
    proof (cases "dict_get cur n")
      case (Some vs)
      then show ?thesis
        using Cons.IH by (cases "ks r vs") (simp_all add: x map_filter_simps compute_drift_def)
    qed (use Cons.IH in \<open>simp add: x map_filter_simps\<close>)
  qed (simp add: map_filter_simps)
  then show ?thesis using assms(2,3) by (simp add: check_for_drift_def rep Let_def)
qed

theorem drift_check_exact_witness:
  "check_for_drift (\<lambda>r c. if r = c then Inr 1 else Inr (1 / 100)) (\<lambda>v. case v of PFloat x \<Rightarrow> Inr x | _ \<Rightarrow> Inl TypeError) (5 / 100)
     [\<lparr>pg_version = ''v'', pg_features = [(''a'', PFloat 2)], pg_prediction = PNone, pg_probabilities = None,
       pg_latency = 1, pg_user = None, pg_created = 0\<rparr>] [''a''] [(''a'', [1]), (''b'', [2])] =
   Inr (True, [(''a'', (1 / 100, True))])"
proof -
  let ?l = "\<lparr>pg_version = ''v'', pg_features = [(''a'', PFloat 2)], pg_prediction = PNone, pg_probabilities = None,
       pg_latency = 1, pg_user = None, pg_created = 0\<rparr>"
  let ?f = "\<lambda>v. case v of PFloat x \<Rightarrow> Inr x | _ \<Rightarrow> Inl TypeError"
  let ?ks = "\<lambda>r c :: rat list. if r = c then Inr 1 else Inr (1 / 100) :: exn + rat"
  have logs: "recent_logs [?l] = [?l]" by (simp add: recent_logs_def)
  have cur: "collect_logs ?f [''a''] (recent_logs [?l]) (empty_columns [''a'']) = Inr [(''a'', [2])]"
    by (simp add: logs empty_columns_def dict_put_def dict_mut_def)
  have "dict_wf [(''a'', [1 :: rat]), (''b'', [2])]" by (simp add: dict_wf_def)
  from drift_check_exact [where ks = ?ks and th = "5 / 100", OF this _ cur] show ?thesis
    by (simp add: logs map_filter_simps compute_drift_def)
qed

text \<open>The row a promotion is compared with is the first of the model's name, and stays it.\<close>

type_synonym promotion_request = "registry \<times> bool \<times> time \<times> string"

fun run_promotions :: "string \<Rightarrow> promotion_request list \<Rightarrow> string list \<times> catalog \<Rightarrow> string list \<times> catalog" where
  "run_promotions model [] st = st"
| "run_promotions model ((rg, commits, now, run) # reqs) st =
     run_promotions model reqs (snd (promote_model rg commits now model run (fst st) (snd st)))"

lemma move_stage_row:
  "current_production model s = Some row \<Longrightarrow>
     current_production model (snd (snd (move_stage rg commits now model run moves s))) = Some row"
  by (auto simp: move_stage_def register_promoted_def current_production_def tb_first_def find_append
      split: sum.split option.split list.split)

lemma promote_row:
  "current_production model s = Some row \<Longrightarrow>
     current_production model (snd (snd (promote_model rg commits now model run moves s))) = Some row"
  using move_stage_row [of model s row rg commits now run moves]
  by (auto simp: promote_model_def split: sum.split option.split prod.split)

lemma run_promotions_row:
  "current_production model (snd st) = Some row \<Longrightarrow> current_production model (snd (run_promotions model reqs st)) = Some row"
  by (induction model reqs st rule: run_promotions.induct) (simp_all add: promote_row)

text \<open>
  C32. Whatever was promoted before, a version is promoted exactly when its accuracy exceeds that of the
  model's first registered row, which no promotion ever replaces: the production version plays no part.
\<close>

theorem promotion_compares_with_first_row:
  assumes "current_production model s0 = Some row"
    and "(moves, s) = run_promotions model reqs (moves0, s0)"
  shows "fst (promote_model rg commits now model run moves s) = Inr (Promoted v) \<longleftrightarrow>
     v = run \<and> rg_available rg \<and> commits \<and>
     (case (run_accuracy rg (mo_version row), run_accuracy rg run) of (Inr old, Inr mine) \<Rightarrow> old < mine | _ \<Rightarrow> False) \<and>
     (case rg_versions rg of Inl _ \<Rightarrow> False
      | Inr vs \<Rightarrow> (case version_number vs run of Some (c # num) \<Rightarrow> rg_accepts rg (c # num) = Inr () | _ \<Rightarrow> False))"
proof -
  have "current_production model s = Some row"
    using run_promotions_row [of model "(moves0, s0)" row reqs] assms by (metis snd_conv)
  then show ?thesis
    by (auto simp: promote_model_def move_stage_def split: sum.split option.split list.split prod.split)
qed

definition demo_registry :: registry where
  "demo_registry = \<lparr>rg_available = True, rg_accuracy = (\<lambda>run. Inr (Some (if run = ''b'' then 9 / 10 else 1 / 2))),
     rg_versions = Inr [(''a'', ''1''), (''b'', ''2'')], rg_accepts = (\<lambda>_. Inr ())\<rparr>"

definition demo_models :: catalog where
  "demo_models = register_promoted 0 ''m'' ''a'' new_catalog"

theorem promotion_compares_with_first_row_witness:
  "fst (promote_model demo_registry True 5 ''m'' ''b''
      (fst (run_promotions ''m'' [(demo_registry, True, 4, ''b'')] ([], demo_models)))
      (snd (run_promotions ''m'' [(demo_registry, True, 4, ''b'')] ([], demo_models)))) = Inr (Promoted ''b'')"
proof -
  let ?st = "run_promotions ''m'' [(demo_registry, True, 4, ''b'')] ([], demo_models)"
  let ?row = "mk_model (0, promoted_row ''m'' ''a'', 1) 1"
  have "current_production ''m'' demo_models = Some ?row"
    by (simp add: demo_models_def register_promoted_def current_production_def new_catalog_def new_table_def
        tb_first_def tb_insert_def Let_def mk_model_def promoted_row_def)
  moreover have "mo_version ?row = ''a''" by (simp add: mk_model_def promoted_row_def)
  ultimately show ?thesis
    using promotion_compares_with_first_row [of "''m''" demo_models ?row "fst ?st" "snd ?st"
        "[(demo_registry, True, 4, ''b'')]" "[]" demo_registry True 5 "''b''" "''b''"]
    by (simp add: run_accuracy_def version_number_def demo_registry_def)
qed

text \<open>
  Every \<open>GET\<close> below the prefix is answered by the status route, which is declared first: the model
  information and the drift check are never reached, while every \<open>POST\<close> route is.
\<close>

theorem status_route_shadows:
  "route_of ''GET'' path = (case path of [c # cs] \<Rightarrow> Some RStatus | _ \<Rightarrow> None) \<and>
   map (route_of ''POST'') [[[]], [''reload-model''], [''train''], [''promote'']] =
     map Some [RPredict, RReload, RTrain, RPromote]"
proof
  show "route_of ''GET'' path = (case path of [c # cs] \<Rightarrow> Some RStatus | _ \<Rightarrow> None)"
  proof (cases path)
    case (Cons p ps)
    then show ?thesis
      by (cases ps; cases p) (simp_all add: route_of_def predict_routes_def)
  qed (simp add: route_of_def predict_routes_def)
qed (simp add: route_of_def predict_routes_def)

section \<open>The shared service\<close>

text \<open>The module's service is created at the first access to an attribute, and loads its model then.\<close>

definition lazy_service ::
    "('c, 'pl, 'm) ml \<Rightarrow> string \<Rightarrow> ('pl, 'm) prediction_service option
     \<Rightarrow> ('pl, 'm) prediction_service \<times> ('pl, 'm) prediction_service option" where
  "lazy_service ml name cached =
     (case cached of
        Some s \<Rightarrow> (s, cached)
      | None \<Rightarrow> (let s = new_service ml name in (s, Some s)))"

lemma lazy_service_created_once:
  "fst (lazy_service ml' name' (snd (lazy_service ml name None))) = new_service ml name"
  by (simp add: lazy_service_def Let_def)

end
