(* ===== verification/Training.thy ===== *)
theory Training
  imports Prediction
begin

text \<open>
  Training (\<open>src/ml/training.py\<close>) and the background tasks (\<open>src/tasks\<close>): prediction, training on a
  registered dataset, and the retraining that keeps an experiment record. Splitting, learning and
  scoring are the library's and parameters; so is the reading of a data file. Commits succeed here.
\<close>

section \<open>Training a model\<close>

record ('c, 'pl, 'm) learner =
  ln_mlflow :: bool
  ln_sklearn :: bool
  ln_split :: "'c frame \<Rightarrow> 'c option list \<Rightarrow> exn + ('c frame \<times> 'c option list) \<times> ('c frame \<times> 'c option list)"
  ln_pipeline :: "('c, 'pl) sklearn"
  ln_fit :: "'c table_out \<Rightarrow> 'c option list \<Rightarrow> exn + 'm"
  ln_predict :: "'m \<Rightarrow> 'c table_out \<Rightarrow> exn + 'c option list"
  ln_score :: "'c option list \<Rightarrow> 'c option list \<Rightarrow> exn + rat"
  ln_run :: string

text \<open>What a run has logged: parameters, the accuracy, the model and its processor.\<close>

record ('pl, 'm) run =
  rn_experiment :: string
  rn_params :: "(string, string) dict"
  rn_accuracy :: "rat option"
  rn_model :: "'m option"
  rn_processor :: "'pl processor option"

definition new_run :: "string \<Rightarrow> ('pl, 'm) run" where
  "new_run exper = \<lparr>rn_experiment = exper, rn_params = [], rn_accuracy = None, rn_model = None, rn_processor = None\<rparr>"

definition logged_run :: "string \<Rightarrow> rat \<Rightarrow> 'm \<Rightarrow> 'pl processor \<Rightarrow> ('pl, 'm) run" where
  "logged_run exper score m p =
     \<lparr>rn_experiment = exper,
      rn_params = [(''model_type'', ''RandomForestClassifier''), (''n_estimators'', ''100''), (''random_state'', ''42'')],
      rn_accuracy = Some score, rn_model = Some m, rn_processor = Some p\<rparr>"

text \<open>Until the model is scored the run logs nothing; the file of the processor is always the same.\<close>

definition train_model ::
    "('c, 'pl, 'm) learner \<Rightarrow> 'c frame \<Rightarrow> 'c option list \<Rightarrow> string \<Rightarrow> (exn + 'm \<times> 'pl processor \<times> string) \<times> ('pl, 'm) run option"
  where
  "train_model lr x y exper =
     (if \<not> ln_mlflow lr then (Inl RuntimeError, None)
      else if \<not> ln_sklearn lr then (Inl RuntimeError, None)
      else case ln_split lr x y of
          Inl e \<Rightarrow> (Inl e, Some (new_run exper))
        | Inr ((x_train, y_train), (x_test, y_test)) \<Rightarrow>
            (case fit_transform (ln_pipeline lr) x_train (new_processor None) of
               (Inl e, _) \<Rightarrow> (Inl e, Some (new_run exper))
             | (Inr train, p) \<Rightarrow>
                 (case transform (ln_pipeline lr) x_test p of
                    Inl e \<Rightarrow> (Inl e, Some (new_run exper))
                  | Inr test \<Rightarrow>
                      (case ln_fit lr train y_train of
                         Inl e \<Rightarrow> (Inl e, Some (new_run exper))
                       | Inr m \<Rightarrow>
                           (case ln_predict lr m test of
                              Inl e \<Rightarrow> (Inl e, Some (new_run exper))
                            | Inr y_pred \<Rightarrow>
                                (case ln_score lr y_test y_pred of
                                   Inl e \<Rightarrow> (Inl e, Some (new_run exper))
                                 | Inr score \<Rightarrow>
                                     (Inr (m, p, ln_run lr), Some (logged_run exper score m p))))))))"

definition load_model :: "bool \<Rightarrow> (string \<Rightarrow> exn + 'm) \<Rightarrow> string \<Rightarrow> exn + 'm" where
  "load_model available load uri = (if \<not> available then Inl RuntimeError else load uri)"

text \<open>\<open>download\<close> fetches an artifact of a run to a local file, which \<open>load\<close> reads.\<close>

definition load_feature_processor ::
    "bool \<Rightarrow> (string \<Rightarrow> string \<Rightarrow> exn + string) \<Rightarrow> (string \<Rightarrow> exn + 'pl processor) \<Rightarrow> string \<Rightarrow> string \<Rightarrow> exn + 'pl processor"
  where
  "load_feature_processor available download load run path =
     (if \<not> available then Inl RuntimeError
      else case download run (path @ ''/feature_processor.pkl'') of Inl e \<Rightarrow> Inl e | Inr f \<Rightarrow> load f)"

definition predict_with ::
    "('c, 'pl) sklearn \<Rightarrow> ('c table_out \<Rightarrow> exn + 'r) \<Rightarrow> 'pl processor \<Rightarrow> 'c frame \<Rightarrow> exn + 'r" where
  "predict_with sk m p x = (case transform sk x p of Inl e \<Rightarrow> Inl e | Inr t \<Rightarrow> m t)"

definition predict_proba ::
    "('c, 'pl) sklearn \<Rightarrow> ('c table_out \<Rightarrow> exn + 'r) option \<Rightarrow> 'pl processor \<Rightarrow> 'c frame \<Rightarrow> exn + 'r" where
  "predict_proba sk proba p x =
     (case transform sk x p of
        Inl e \<Rightarrow> Inl e
      | Inr t \<Rightarrow> (case proba of None \<Rightarrow> Inl (OtherException ''AttributeError'') | Some f \<Rightarrow> f t))"

section \<open>Tasks\<close>

text \<open>The prediction task passes neither a session nor a user, so nothing is logged.\<close>

definition predict_task ::
    "('c, 'pl, 'm) ml \<Rightarrow> time \<Rightarrow> rat \<Rightarrow> (string, pyval) dict \<Rightarrow> ('pl, 'm) prediction_service \<Rightarrow> exn + prediction" where
  "predict_task ml now latency features s = fst (predict ml True now latency features None None s None)"

text \<open>
  The target column when there is one, otherwise the last one, which then stays among the features.
  \<open>drop\<close> ignores a missing name; \<open>iloc\<close> of a frame without columns raises.
\<close>

definition features_and_target :: "'c frame \<Rightarrow> string \<Rightarrow> exn + 'c frame \<times> 'c option list" where
  "features_and_target df target =
     (let x = df\<lparr>fr_columns := filter (\<lambda>c. co_name c \<noteq> target) (fr_columns df)\<rparr>
      in if target \<in> set (column_names df)
         then Inr (x, concat (map co_cells (filter (\<lambda>c. co_name c = target) (fr_columns df))))
         else if fr_columns df = [] then Inl (OtherException ''IndexError'')
         else Inr (x, co_cells (last (fr_columns df))))"

definition trained_row :: "string \<Rightarrow> string \<Rightarrow> string \<Rightarrow> int \<Rightarrow> model_create" where
  "trained_row model run exper dataset_id =
     \<lparr>mc_name = model, mc_version = run,
      mc_description = Some (''Training experiment: '' @ exper @ '', dataset: '' @ str_int dataset_id),
      mc_file_path = ''mlruns/'' @ run @ ''/artifacts/model'', mc_file_size = None, mc_accuracy = None\<rparr>"

text \<open>\<open>read_csv\<close> is \<open>None\<close> for a path that does not exist; any failure to read is reported as missing pandas.\<close>

definition train_task ::
    "('c, 'pl, 'm) learner \<Rightarrow> (string \<Rightarrow> (exn + 'c frame) option) \<Rightarrow> string \<Rightarrow> time \<Rightarrow> int \<Rightarrow> string \<Rightarrow> string \<Rightarrow> int
     \<Rightarrow> catalog \<Rightarrow> (exn + int) \<times> catalog" where
  "train_task lr read_csv model now dataset_id target exper uid s =
     (case crud_get_dataset dataset_id s of
        None \<Rightarrow> (Inl ValueError, s)
      | Some ds \<Rightarrow>
          (case read_csv (ds_storage_uri ds) of
             None \<Rightarrow> (Inl ValueError, s)
           | Some (Inl _) \<Rightarrow> (Inl RuntimeError, s)
           | Some (Inr df) \<Rightarrow>
               (case features_and_target df target of
                  Inl e \<Rightarrow> (Inl e, s)
                | Inr (x, y) \<Rightarrow>
                    (case train_model lr x y exper of
                       (Inl e, _) \<Rightarrow> (Inl e, s)
                     | (Inr (m, p, run), _) \<Rightarrow>
                         (case crud_create_model_metadata now (trained_row model run exper dataset_id) uid s of
                            (row, s') \<Rightarrow> (Inr (mo_id row), s'))))))"

text \<open>
  Retraining: the experiment is recorded as running, and at the end as completed, with a fixed accuracy,
  or as failed, before the error is raised again. \<open>now\<close> and \<open>later\<close> are the two readings of the clock.
\<close>

definition running_experiment :: "string \<Rightarrow> string \<Rightarrow> time \<Rightarrow> int \<Rightarrow> experiment_row" where
  "running_experiment name path now i =
     \<lparr>ex_id = i, ex_name = name,
      ex_description = Some (''Automated retraining triggered by drift detection. Data: '' @ path),
      ex_status = ''running'', ex_start = Some now, ex_end = None, ex_metrics = None, ex_parameters = None,
      ex_created = now, ex_updated = now, ex_created_by = 1\<rparr>"

definition retrained_row :: "string \<Rightarrow> string \<Rightarrow> int \<Rightarrow> model_create" where
  "retrained_row model run i =
     \<lparr>mc_name = model, mc_version = run, mc_description = Some (''Automated run from experiment '' @ str_int i),
      mc_file_path = ''mlruns/'' @ run @ ''/artifacts/model'', mc_file_size = None, mc_accuracy = None\<rparr>"

definition retrain ::
    "('c, 'pl, 'm) learner \<Rightarrow> (string \<Rightarrow> exn + 'c frame) \<Rightarrow> string \<Rightarrow> string \<Rightarrow> exn + string" where
  "retrain lr read_csv name path =
     (case read_csv path of
        Inl e \<Rightarrow> Inl e
      | Inr df \<Rightarrow>
          if ''target'' \<notin> set (column_names df) then Inl KeyError
          else (case features_and_target df ''target'' of
              Inl e \<Rightarrow> Inl e
            | Inr (x, y) \<Rightarrow> map_sum id (\<lambda>(m, p, run). run) (fst (train_model lr x y name))))"

definition retrain_model_task ::
    "('c, 'pl, 'm) learner \<Rightarrow> (string \<Rightarrow> exn + 'c frame) \<Rightarrow> string \<Rightarrow> time \<Rightarrow> time \<Rightarrow> string \<Rightarrow> string
     \<Rightarrow> catalog \<Rightarrow> (exn + string \<times> int) \<times> catalog" where
  "retrain_model_task lr read_csv model now later name path s =
     (case tb_insert (running_experiment name path now) (ct_experiments s) of
        (row, exs) \<Rightarrow>
          (let s1 = s\<lparr>ct_experiments := exs\<rparr>; i = ex_id row
           in case retrain lr read_csv name path of
                Inl e \<Rightarrow>
                  (Inl e, s1\<lparr>ct_experiments := tb_set ex_id i (row\<lparr>ex_status := ''failed'', ex_updated := later\<rparr>) exs\<rparr>)
              | Inr run \<Rightarrow>
                  (Inr (run, i),
                   s1\<lparr>ct_experiments := tb_set ex_id i (row\<lparr>ex_status := ''completed'', ex_end := Some later,
                        ex_metrics := Some [(''accuracy'', PFloat (95 / 100))], ex_updated := later\<rparr>) exs,
                      ct_models := snd (tb_insert (mk_model (later, retrained_row model run i, 1)) (ct_models s1))\<rparr>)))"

section \<open>Properties\<close>

lemma running_experiment_id [simp]: "ex_id (running_experiment name path now i) = i"
  by (simp add: running_experiment_def)


text \<open>A target that the data does not have trains on the last column, which stays a feature.\<close>

lemma missing_target_leaks:
  assumes "target \<notin> set (column_names df)" "fr_columns df \<noteq> []"
  shows "\<exists>x y. features_and_target df target = Inr (x, y) \<and> last (fr_columns df) \<in> set (fr_columns x) \<and>
     y = co_cells (last (fr_columns df))"
proof -
  have "filter (\<lambda>c. co_name c \<noteq> target) (fr_columns df) = fr_columns df"
    using assms(1) by (auto simp: column_names_def filter_id_conv)
  then show ?thesis using assms by (simp add: features_and_target_def)
qed

lemma predictions_are_never_logged: "snd (predict ml commits now latency features uid context s None) = None"
  by (simp add: predict_def log_prediction_def Let_def split: option.split sum.split)

lemma training_needs_libraries:
  "\<not> ln_mlflow lr \<or> \<not> ln_sklearn lr \<Longrightarrow> train_model lr x y exper = (Inl RuntimeError, None)"
  by (auto simp: train_model_def)

lemma train_task_adds:
  assumes "train_task lr read_csv model now dataset_id target exper uid s = (Inr i, s')"
  shows "\<exists>row. tb_rows (ct_models s') = tb_rows (ct_models s) @ [row] \<and> mo_id row = i \<and> mo_name row = model \<and>
    mo_created_by row = uid \<and> ct_datasets s' = ct_datasets s \<and> crud_get_dataset dataset_id s \<noteq> None"
  using assms
  by (auto simp: train_task_def crud_create_model_metadata_def tb_insert_def Let_def mk_model_def trained_row_def
      split: option.splits sum.splits prod.splits)

definition demo_learner :: "(nat, unit, unit) learner" where
  "demo_learner = \<lparr>ln_mlflow = True, ln_sklearn = True, ln_split = (\<lambda>x y. Inr ((x, y), (x, y))),
     ln_pipeline = \<lparr>sk_columns = \<lambda>_ _. (), sk_fit = \<lambda>p _. Inr p, sk_transform = \<lambda>_ _. Inr (Dense 1 [[0]])\<rparr>,
     ln_fit = (\<lambda>_ _. Inr ()), ln_predict = (\<lambda>_ _. Inr []), ln_score = (\<lambda>_ _. Inr 1), ln_run = ''r1''\<rparr>"

definition demo_frame :: "nat frame" where
  "demo_frame = \<lparr>fr_columns = [\<lparr>co_name = ''a'', co_type = NumberType, co_cells = [Some 1]\<rparr>,
     \<lparr>co_name = ''target'', co_type = NumberType, co_cells = [Some 2]\<rparr>], fr_index = [0]\<rparr>"


end
