(* ===== verification/E2b.thy ===== *)
theory E2b
  imports Prelude Runs
begin

text \<open>
  The client of the cloud sandbox, \<open>src/agent/e2b_sandbox.py\<close>: its configuration, the one sandbox it holds,
  commands, code, files and termination. The cloud is a state with the sandboxes alive in it; what it
  answers (whether a creation or a termination succeeds, the result or the error of a run) is a
  parameter of each call. Errors carry the text of the exception.
\<close>

section \<open>Configuration\<close>

record e2b_settings =
  es_api_key :: "string option"
  es_template :: string
  es_timeout :: int
  es_cpu :: rat
  es_memory :: int

record e2b =
  eb_api_key :: "string option"
  eb_template :: string
  eb_timeout :: int
  eb_cpu :: rat
  eb_memory :: int
  eb_sandbox :: "nat option"
  eb_created :: bool

text \<open>An empty key or template and a zero fall back on the settings; the defaults of the arguments are neither.\<close>

definition new_e2b :: "e2b_settings \<Rightarrow> string option \<Rightarrow> string \<Rightarrow> int \<Rightarrow> rat \<Rightarrow> int \<Rightarrow> e2b" where
  "new_e2b st api_key template timeout cpu memory =
     \<lparr>eb_api_key = (case api_key of Some (c # k) \<Rightarrow> Some (c # k) | _ \<Rightarrow> es_api_key st),
      eb_template = (if template = [] then es_template st else template),
      eb_timeout = (if timeout = 0 then es_timeout st else timeout),
      eb_cpu = (if cpu = 0 then es_cpu st else cpu),
      eb_memory = (if memory = 0 then es_memory st else memory),
      eb_sandbox = None, eb_created = False\<rparr>"

definition default_e2b :: "e2b_settings \<Rightarrow> e2b" where
  "default_e2b st = new_e2b st None ''base'' 60 1 512"

definition is_available :: "bool \<Rightarrow> e2b \<Rightarrow> bool" where
  "is_available sdk s = (sdk \<and> (case eb_api_key s of Some (c # k) \<Rightarrow> True | _ \<Rightarrow> False))"

section \<open>The sandbox\<close>

record cloud =
  cl_live :: "nat list"
  cl_next :: nat

definition new_cloud :: cloud where
  "new_cloud = \<lparr>cl_live = [], cl_next = 0\<rparr>"

text \<open>\<open>accepts\<close> tells whether the cloud creates a sandbox when it is asked for one.\<close>

definition get_or_create_sandbox :: "bool \<Rightarrow> bool \<Rightarrow> e2b \<times> cloud \<Rightarrow> nat option \<times> e2b \<times> cloud" where
  "get_or_create_sandbox sdk accepts = (\<lambda>(s, w).
     if \<not> is_available sdk s then (None, s, w)
     else if eb_sandbox s \<noteq> None \<and> eb_created s then (eb_sandbox s, s, w)
     else if accepts then
       (Some (cl_next w), s\<lparr>eb_sandbox := Some (cl_next w), eb_created := True\<rparr>,
        w\<lparr>cl_live := cl_live w @ [cl_next w], cl_next := cl_next w + 1\<rparr>)
     else (None, s\<lparr>eb_sandbox := None, eb_created := False\<rparr>, w))"

record sandbox_result =
  sx_stdout :: string
  sx_stderr :: string
  sx_exit :: int
  sx_elapsed :: rat
  sx_timed_out :: bool

record process =
  pc_stdout :: "string option"
  pc_stderr :: "string option"
  pc_exit :: int

text \<open>Environment variables are exported in the command itself, neither they nor the directory are quoted.\<close>

fun join_space :: "string list \<Rightarrow> string" where
  "join_space [] = []"
| "join_space [x] = x"
| "join_space (x # y # xs) = x @ '' '' @ join_space (y # xs)"

definition full_command :: "string \<Rightarrow> string \<Rightarrow> (string, string) dict option \<Rightarrow> string" where
  "full_command command cwd env =
     (case env of
        Some (v # vs) \<Rightarrow>
          ''export '' @ join_space (map (\<lambda>(k, x). k @ ''='' @ x) (v # vs)) @ '' && cd '' @ cwd @ '' && '' @ command
      | _ \<Rightarrow> ''cd '' @ cwd @ '' && '' @ command)"

definition failed_run :: "string \<Rightarrow> string \<Rightarrow> int \<Rightarrow> rat \<Rightarrow> sandbox_result" where
  "failed_run what err timeout elapsed =
     (if py_in ''timeout'' (py_lower err) \<or> py_in ''timed out'' (py_lower err)
      then \<lparr>sx_stdout = [], sx_stderr = what @ '' timed out after '' @ str_int timeout @ ''s'', sx_exit = - 1,
            sx_elapsed = elapsed, sx_timed_out = True\<rparr>
      else \<lparr>sx_stdout = [], sx_stderr = err, sx_exit = - 1, sx_elapsed = elapsed, sx_timed_out = False\<rparr>)"

definition text_of :: "string option \<Rightarrow> string" where
  "text_of v = (case v of None \<Rightarrow> [] | Some s \<Rightarrow> s)"

text \<open>A timeout that is missing or zero is the client's. \<open>runs\<close> is what the sandbox does with a command.\<close>

definition run_timeout :: "int option \<Rightarrow> e2b \<Rightarrow> int" where
  "run_timeout t s = (case t of None \<Rightarrow> eb_timeout s | Some n \<Rightarrow> if n = 0 then eb_timeout s else n)"

definition run_command ::
    "bool \<Rightarrow> bool \<Rightarrow> (nat \<Rightarrow> string \<Rightarrow> int \<Rightarrow> string + process) \<Rightarrow> rat \<Rightarrow> string \<Rightarrow> string
     \<Rightarrow> (string, string) dict option \<Rightarrow> int option \<Rightarrow> e2b \<times> cloud \<Rightarrow> (exn + sandbox_result) \<times> e2b \<times> cloud" where
  "run_command sdk accepts runs elapsed command cwd env t st =
     (if \<not> is_available sdk (fst st) then (Inl RuntimeError, st)
      else case get_or_create_sandbox sdk accepts st of
          (None, st') \<Rightarrow> (Inl RuntimeError, st')
        | (Some i, st') \<Rightarrow>
            (let timeout = run_timeout t (fst st')
             in case runs i (full_command command cwd env) timeout of
                  Inl err \<Rightarrow> (Inr (failed_run ''Command'' err timeout elapsed), st')
                | Inr p \<Rightarrow>
                    (Inr \<lparr>sx_stdout = text_of (pc_stdout p), sx_stderr = text_of (pc_stderr p), sx_exit = pc_exit p,
                          sx_elapsed = elapsed, sx_timed_out = False\<rparr>, st')))"

text \<open>Code: its logs, when there are any, and whether it raised. \<open>encode\<close> is the encoding of the arguments.\<close>

record code_result =
  cr_logs :: "(string option \<times> string option) option"
  cr_failed :: bool

definition wrapped_code :: "string \<Rightarrow> string \<Rightarrow> string" where
  "wrapped_code args code =
     (let nl = [CHR 0x0A]; q = [CHR 0x22]; a = [CHR 0x27]
      in nl @ ''import json'' @ nl @ ''import base64'' @ nl @ ''import sys'' @ nl @ nl @ ''# Deserialize args'' @ nl @
         ''args = json.loads(base64.b64decode('' @ q @ args @ q @ '').decode())'' @ nl @ nl @ code @ nl @ nl @
         ''# If there'' @ a @ ''s a main function, call it'' @ nl @ ''if '' @ a @ ''main'' @ a @ '' in globals():'' @ nl @
         ''    result = main(**args)'' @ nl @ ''    print(json.dumps(result, default=str))'' @ nl)"

definition run_python ::
    "bool \<Rightarrow> bool \<Rightarrow> ((string, pyval) dict \<Rightarrow> string + string) \<Rightarrow> (nat \<Rightarrow> string \<Rightarrow> int \<Rightarrow> string + code_result) \<Rightarrow> rat
     \<Rightarrow> string \<Rightarrow> (string, pyval) dict option \<Rightarrow> int option \<Rightarrow> e2b \<times> cloud \<Rightarrow> (exn + sandbox_result) \<times> e2b \<times> cloud" where
  "run_python sdk accepts encode runs elapsed code args t st =
     (if \<not> is_available sdk (fst st) then (Inl RuntimeError, st)
      else case get_or_create_sandbox sdk accepts st of
          (None, st') \<Rightarrow> (Inl RuntimeError, st')
        | (Some i, st') \<Rightarrow>
            (let timeout = run_timeout t (fst st')
             in case encode (case args of None \<Rightarrow> [] | Some d \<Rightarrow> d) of
                  Inl err \<Rightarrow> (Inr (failed_run ''Execution'' err timeout elapsed), st')
                | Inr b64 \<Rightarrow>
                    (case runs i (wrapped_code b64 code) timeout of
                       Inl err \<Rightarrow> (Inr (failed_run ''Execution'' err timeout elapsed), st')
                     | Inr r \<Rightarrow>
                         (Inr \<lparr>sx_stdout = (case cr_logs r of None \<Rightarrow> [] | Some (out, _) \<Rightarrow> text_of out),
                               sx_stderr = (case cr_logs r of None \<Rightarrow> [] | Some (_, err) \<Rightarrow> text_of err),
                               sx_exit = (if cr_failed r then - 1 else 0), sx_elapsed = elapsed,
                               sx_timed_out = False\<rparr>, st'))))"

text \<open>Files: what the sandbox answers, and the empty answer for every failure.\<close>

definition with_sandbox ::
    "bool \<Rightarrow> bool \<Rightarrow> 'r \<Rightarrow> (nat \<Rightarrow> string + 'r) \<Rightarrow> e2b \<times> cloud \<Rightarrow> 'r \<times> e2b \<times> cloud" where
  "with_sandbox sdk accepts fallback f st =
     (if \<not> is_available sdk (fst st) then (fallback, st)
      else case get_or_create_sandbox sdk accepts st of
          (None, st') \<Rightarrow> (fallback, st')
        | (Some i, st') \<Rightarrow> (case f i of Inl _ \<Rightarrow> (fallback, st') | Inr r \<Rightarrow> (r, st')))"

definition sandbox_write_file ::
    "bool \<Rightarrow> bool \<Rightarrow> (nat \<Rightarrow> string \<Rightarrow> string \<Rightarrow> string + unit) \<Rightarrow> string \<Rightarrow> string \<Rightarrow> e2b \<times> cloud \<Rightarrow> bool \<times> e2b \<times> cloud" where
  "sandbox_write_file sdk accepts w path content =
     with_sandbox sdk accepts False (\<lambda>i. map_sum id (\<lambda>_. True) (w i path content))"

definition sandbox_read_file ::
    "bool \<Rightarrow> bool \<Rightarrow> (nat \<Rightarrow> string \<Rightarrow> string + string) \<Rightarrow> string \<Rightarrow> e2b \<times> cloud \<Rightarrow> string option \<times> e2b \<times> cloud" where
  "sandbox_read_file sdk accepts r path = with_sandbox sdk accepts None (\<lambda>i. map_sum id Some (r i path))"

definition sandbox_list_files ::
    "bool \<Rightarrow> bool \<Rightarrow> (nat \<Rightarrow> string \<Rightarrow> string + string list) \<Rightarrow> string \<Rightarrow> e2b \<times> cloud \<Rightarrow> string list \<times> e2b \<times> cloud" where
  "sandbox_list_files sdk accepts l path = with_sandbox sdk accepts [] (\<lambda>i. l i path)"

text \<open>Termination drops the sandbox whether or not the cloud accepts it.\<close>

definition kill_sandbox :: "bool \<Rightarrow> e2b \<times> cloud \<Rightarrow> e2b \<times> cloud" where
  "kill_sandbox accepts = (\<lambda>(s, w).
     case eb_sandbox s of
       Some i \<Rightarrow>
         if eb_created s then
           (s\<lparr>eb_sandbox := None, eb_created := False\<rparr>, if accepts then w\<lparr>cl_live := removeAll i (cl_live w)\<rparr> else w)
         else (s, w)
     | None \<Rightarrow> (s, w))"

text \<open>The shared instance, made on first use and dropped by a reset.\<close>

definition get_e2b_sandbox :: "e2b_settings \<Rightarrow> e2b option \<Rightarrow> e2b \<times> e2b option" where
  "get_e2b_sandbox st inst = (case inst of None \<Rightarrow> (default_e2b st, Some (default_e2b st)) | Some s \<Rightarrow> (s, Some s))"

definition reset_e2b_sandbox :: "bool \<Rightarrow> e2b option \<times> cloud \<Rightarrow> e2b option \<times> cloud" where
  "reset_e2b_sandbox accepts = (\<lambda>(inst, w).
     case inst of None \<Rightarrow> (None, w) | Some s \<Rightarrow> (None, snd (kill_sandbox accepts (s, w))))"

section \<open>Properties\<close>

datatype e2b_op =
    OpCommand bool "nat \<Rightarrow> string \<Rightarrow> int \<Rightarrow> string + process" rat string string "(string, string) dict option" "int option"
  | OpPython bool "(string, pyval) dict \<Rightarrow> string + string" "nat \<Rightarrow> string \<Rightarrow> int \<Rightarrow> string + code_result" rat string
      "(string, pyval) dict option" "int option"
  | OpWriteFile bool "nat \<Rightarrow> string \<Rightarrow> string \<Rightarrow> string + unit" string string
  | OpReadFile bool "nat \<Rightarrow> string \<Rightarrow> string + string" string
  | OpListFiles bool "nat \<Rightarrow> string \<Rightarrow> string + string list" string
  | OpKill bool

fun e2b_step :: "bool \<Rightarrow> e2b_op \<Rightarrow> e2b \<times> cloud \<Rightarrow> e2b \<times> cloud" where
  "e2b_step sdk (OpCommand ok f dt c d env t) st = snd (run_command sdk ok f dt c d env t st)"
| "e2b_step sdk (OpPython ok enc f dt c args t) st = snd (run_python sdk ok enc f dt c args t st)"
| "e2b_step sdk (OpWriteFile ok f p c) st = snd (sandbox_write_file sdk ok f p c st)"
| "e2b_step sdk (OpReadFile ok f p) st = snd (sandbox_read_file sdk ok f p st)"
| "e2b_step sdk (OpListFiles ok f p) st = snd (sandbox_list_files sdk ok f p st)"
| "e2b_step sdk (OpKill ok) st = kill_sandbox ok st"

fun kill_refused :: "e2b_op \<Rightarrow> bool" where
  "kill_refused (OpKill ok) = (\<not> ok)"
| "kill_refused _ = False"

definition e2b_run :: "bool \<Rightarrow> e2b_op list \<Rightarrow> e2b \<times> cloud \<Rightarrow> e2b \<times> cloud" where
  "e2b_run sdk ops st = fold (e2b_step sdk) ops st"

text \<open>Every operation but termination changes the state as the creation of the sandbox does, or not at all.\<close>

lemma operations_only_create:
  "snd (run_command sdk ok f dt c d env t st) = snd (get_or_create_sandbox sdk ok st)"
  "snd (run_python sdk ok enc g dt c args t st) = snd (get_or_create_sandbox sdk ok st)"
  "snd (with_sandbox sdk ok v h st) = snd (get_or_create_sandbox sdk ok st)"
  by (cases "is_available sdk (fst st)";
      auto simp: run_command_def run_python_def with_sandbox_def Let_def get_or_create_sandbox_def
        split: prod.split sum.split option.split)+

definition one_sandbox :: "e2b \<times> cloud \<Rightarrow> bool" where
  "one_sandbox = (\<lambda>(s, w). (eb_created s \<longleftrightarrow> eb_sandbox s \<noteq> None) \<and>
     cl_live w = (case eb_sandbox s of None \<Rightarrow> [] | Some i \<Rightarrow> [i]))"

lemma create_keeps_one: "one_sandbox st \<Longrightarrow> one_sandbox (snd (get_or_create_sandbox sdk ok st))"
  by (auto simp: one_sandbox_def get_or_create_sandbox_def split: prod.splits)

lemma kill_keeps_one: "one_sandbox st \<Longrightarrow> one_sandbox (kill_sandbox True st)"
  by (auto simp: one_sandbox_def kill_sandbox_def split: prod.splits option.splits)

lemma step_keeps_one:
  "one_sandbox st \<Longrightarrow> \<not> kill_refused op \<Longrightarrow> one_sandbox (e2b_step sdk op st)"
  by (cases op) (simp_all add: operations_only_create sandbox_write_file_def sandbox_read_file_def
      sandbox_list_files_def create_keeps_one kill_keeps_one)

interpretation client: executed_system "e2b_step sdk" "\<lambda>op. \<not> kill_refused op" one_sandbox for sdk
  by unfold_locales (rule step_keeps_one)

lemma run_keeps_one:
  "one_sandbox st \<Longrightarrow> filter kill_refused ops = [] \<Longrightarrow> one_sandbox (e2b_run sdk ops st)"
  unfolding e2b_run_def by (rule client.good_history) (simp_all add: filter_empty_conv list_all_iff)

text \<open>
  C34. As long as the cloud accepts every termination, a client never has more than one sandbox alive, the one
  it holds, and leaving its context leaves none.
\<close>

theorem at_most_one_sandbox_alive:
  assumes "filter kill_refused ops = []"
  shows "(case e2b_run sdk ops (new_e2b st key template timeout cpu memory, new_cloud) of
       (s, w) \<Rightarrow> cl_live w = (case eb_sandbox s of None \<Rightarrow> [] | Some i \<Rightarrow> [i])) \<and>
     cl_live (snd (kill_sandbox True (e2b_run sdk ops (new_e2b st key template timeout cpu memory, new_cloud)))) = []"
proof -
  let ?st = "e2b_run sdk ops (new_e2b st key template timeout cpu memory, new_cloud)"
  have "one_sandbox (new_e2b st key template timeout cpu memory, new_cloud)"
    by (simp add: one_sandbox_def new_e2b_def new_cloud_def)
  then have "one_sandbox ?st" using assms by (rule run_keeps_one)
  then show ?thesis
    by (cases ?st) (auto simp: one_sandbox_def kill_sandbox_def split: option.splits)
qed

theorem at_most_one_sandbox_alive_witness:
  "cl_live (snd (kill_sandbox True (e2b_run True [OpListFiles True (\<lambda>_ _. Inr []) ''/'', OpReadFile True (\<lambda>_ _. Inl ''no'') ''a'']
     (new_e2b \<lparr>es_api_key = None, es_template = ''base'', es_timeout = 60, es_cpu = 1, es_memory = 512\<rparr> (Some ''k'') ''base'' 60 1 512,
      new_cloud)))) = [] \<and>
   cl_live (snd (e2b_run True [OpListFiles True (\<lambda>_ _. Inr []) ''/'', OpReadFile True (\<lambda>_ _. Inl ''no'') ''a'']
     (new_e2b \<lparr>es_api_key = None, es_template = ''base'', es_timeout = 60, es_cpu = 1, es_memory = 512\<rparr> (Some ''k'') ''base'' 60 1 512,
      new_cloud))) = [0]"
proof -
  let ?ops = "[OpListFiles True (\<lambda>_ _. Inr []) ''/'', OpReadFile True (\<lambda>_ _. Inl ''no'') ''a'']"
  let ?s = "\<lparr>es_api_key = None, es_template = ''base'', es_timeout = 60, es_cpu = 1, es_memory = 512\<rparr>"
  have "filter kill_refused ?ops = []" by simp
  from at_most_one_sandbox_alive [OF this, where sdk = True and st = ?s and key = "Some ''k''" and template = "''base''"
      and timeout = 60 and cpu = 1 and memory = 512]
  show ?thesis
    by (simp add: e2b_run_def new_e2b_def new_cloud_def sandbox_list_files_def sandbox_read_file_def
        operations_only_create get_or_create_sandbox_def is_available_def)
qed

text \<open>A refused termination is forgotten all the same: the next command starts a second sandbox.\<close>

lemma refused_kill_leaks:
  "cl_live (snd (e2b_run True [OpListFiles True f p, OpKill False, OpListFiles True f p]
     (new_e2b st (Some ''k'') template timeout cpu memory, new_cloud))) = [0, 1]"
  by (simp add: e2b_run_def new_e2b_def new_cloud_def sandbox_list_files_def operations_only_create
      get_or_create_sandbox_def is_available_def kill_sandbox_def)

lemma got_sandbox:
  "get_or_create_sandbox sdk accepts (s, w) = (Some i, s', w') \<Longrightarrow>
     (accepts \<or> eb_created s \<and> eb_sandbox s \<noteq> None) \<and> eb_created s' \<and> eb_sandbox s' = Some i \<and> eb_timeout s' = eb_timeout s"
  by (auto simp: get_or_create_sandbox_def split: if_splits)

lemma got_no_sandbox:
  "get_or_create_sandbox sdk accepts (s, w) = (None, s', w') \<Longrightarrow> is_available sdk s \<Longrightarrow>
     \<not> (accepts \<or> eb_created s \<and> eb_sandbox s \<noteq> None)"
  by (auto simp: get_or_create_sandbox_def split: if_splits)

text \<open>
  A command raises only when the client is not configured or has no sandbox and cannot get one; any
  failure of the run itself is a result with exit status -1, and the sandbox is kept.
\<close>

theorem run_command_errors_exact:
  "(case run_command sdk accepts runs elapsed command cwd env t (s, w) of
      (Inl e, st') \<Rightarrow>
        e = RuntimeError \<and> \<not> (is_available sdk s \<and> (accepts \<or> eb_created s \<and> eb_sandbox s \<noteq> None))
    | (Inr r, (s', w')) \<Rightarrow>
        is_available sdk s \<and> (accepts \<or> eb_created s \<and> eb_sandbox s \<noteq> None) \<and> eb_created s' \<and>
        (case runs (the (eb_sandbox s')) (full_command command cwd env) (run_timeout t s) of
           Inl err \<Rightarrow> r = failed_run ''Command'' err (run_timeout t s) elapsed \<and> sx_exit r = - 1
         | Inr p \<Rightarrow> sx_exit r = pc_exit p \<and> sx_stdout r = text_of (pc_stdout p) \<and> \<not> sx_timed_out r))"
proof (cases "is_available sdk s")
  case False
  then show ?thesis by (simp add: run_command_def)
next
  case True
  obtain ans s1 w1 where g: "get_or_create_sandbox sdk accepts (s, w) = (ans, s1, w1)" using prod_cases3 by blast
  show ?thesis
  proof (cases ans)
    case None
    then have "\<not> (accepts \<or> eb_created s \<and> eb_sandbox s \<noteq> None)" using got_no_sandbox True g by blast
    with True g None show ?thesis by (simp add: run_command_def)
  next
    case (Some i)
    note got = got_sandbox [OF g [unfolded Some]]
    from got have "eb_timeout s1 = eb_timeout s" by blast
    then have t: "run_timeout t s1 = run_timeout t s" unfolding run_timeout_def by metis
    show ?thesis
    proof (cases "runs i (full_command command cwd env) (run_timeout t s)")
      case (Inl err)
      with True g Some got t show ?thesis by (simp add: run_command_def Let_def) (simp add: failed_run_def)
    next
      case (Inr p)
      with True g Some got t show ?thesis by (simp add: run_command_def Let_def)
    qed
  qed
qed

text \<open>The settings of template, timeout and limits are never used by the shared instance.\<close>

lemma settings_ignored:
  "default_e2b (st\<lparr>es_template := a, es_timeout := b, es_cpu := c, es_memory := d\<rparr>) = default_e2b st"
  by (simp add: default_e2b_def new_e2b_def)

end
