(* ===== verification/Nerve.thy ===== *)
theory Nerve
  imports Prelude
begin

text \<open>
  The event stream, \<open>src/agent/nerve/event_bus.py\<close>: the queue and its dispatch loop, the file watcher and the
  manager. A subscriber is known by a number; what it does with an event (events it emits, a stop of the
  bus, an exception) is a parameter. Subscribers that subscribe others while they are called are left out.
\<close>

section \<open>The bus\<close>

record system_event =
  se_type :: string
  se_source :: string
  se_payload :: "(string, pyval) dict"
  se_timestamp :: time
  se_priority :: string

text \<open>
  The loop is either outside its wait or waiting for the next event; \<open>nb_calls\<close> lists the calls of
  subscribers made so far.
\<close>

record nerve =
  nb_subscribers :: "(string, nat list) dict"
  nb_queue :: "system_event list"
  nb_running :: bool
  nb_waiting :: bool
  nb_calls :: "(nat \<times> system_event) list"

record reaction =
  re_emits :: "system_event list"
  re_stops :: bool
  re_raises :: bool

type_synonym behaviour = "nat \<Rightarrow> system_event \<Rightarrow> reaction"

definition new_nerve :: nerve where
  "new_nerve = \<lparr>nb_subscribers = [], nb_queue = [], nb_running = False, nb_waiting = False, nb_calls = []\<rparr>"

definition nerve_subscribe :: "string \<Rightarrow> nat \<Rightarrow> nerve \<Rightarrow> nerve" where
  "nerve_subscribe ty cb s =
     s\<lparr>nb_subscribers := dict_put ty ((case dict_get (nb_subscribers s) ty of None \<Rightarrow> [] | Some cs \<Rightarrow> cs) @ [cb]) (nb_subscribers s)\<rparr>"

definition emit :: "system_event \<Rightarrow> nerve \<Rightarrow> nerve" where
  "emit ev s = s\<lparr>nb_queue := nb_queue s @ [ev]\<rparr>"

definition stop_bus :: "nerve \<Rightarrow> nerve" where
  "stop_bus s = s\<lparr>nb_running := False\<rparr>"

text \<open>A call of a subscriber; its exception is logged and swallowed.\<close>

definition call_subscriber :: "behaviour \<Rightarrow> system_event \<Rightarrow> nat \<Rightarrow> nerve \<Rightarrow> nerve" where
  "call_subscriber react ev cb s =
     (let r = react cb ev; s1 = fold emit (re_emits r) (s\<lparr>nb_calls := nb_calls s @ [(cb, ev)]\<rparr>)
      in if re_stops r then stop_bus s1 else s1)"

definition subscribers_of :: "string \<Rightarrow> nerve \<Rightarrow> nat list" where
  "subscribers_of ty s = (case dict_get (nb_subscribers s) ty of None \<Rightarrow> [] | Some cs \<Rightarrow> cs)"

definition deliver_event :: "behaviour \<Rightarrow> system_event \<Rightarrow> nerve \<Rightarrow> nerve" where
  "deliver_event react ev s =
     (let s1 = fold (call_subscriber react ev) (subscribers_of (se_type ev) s) s
      in fold (call_subscriber react ev) (subscribers_of ''*'' s1) s1)"

definition start_loop :: "nerve \<Rightarrow> nerve" where
  "start_loop s = s\<lparr>nb_running := True, nb_waiting := True\<rparr>"

text \<open>
  One turn of the loop: the event it was waiting for, then the test of \<open>_running\<close>. A cancellation of the
  task ends the wait.
\<close>

definition loop_turn :: "behaviour \<Rightarrow> nerve \<Rightarrow> nerve" where
  "loop_turn react s =
     (if \<not> nb_waiting s then s
      else case nb_queue s of
          [] \<Rightarrow> s
        | ev # q \<Rightarrow> (let s' = deliver_event react ev (s\<lparr>nb_queue := q\<rparr>) in s'\<lparr>nb_waiting := nb_running s'\<rparr>))"

definition cancel_loop :: "nerve \<Rightarrow> nerve" where
  "cancel_loop s = (if nb_waiting s then s\<lparr>nb_running := False, nb_waiting := False\<rparr> else s)"

fun loop_turns :: "behaviour \<Rightarrow> nat \<Rightarrow> nerve \<Rightarrow> nerve" where
  "loop_turns react 0 s = s"
| "loop_turns react (Suc n) s = loop_turns react n (loop_turn react s)"

section \<open>Watcher and manager\<close>

text \<open>
  The watcher runs in a thread of the file system observer. Scheduling the emission needs a running loop in
  the calling thread (\<open>in_loop\<close>) and raises without one.
\<close>

definition schedule_emit :: "bool \<Rightarrow> system_event \<Rightarrow> nerve \<Rightarrow> (exn + unit) \<times> nerve" where
  "schedule_emit in_loop ev s = (if in_loop then (Inr (), emit ev s) else (Inl RuntimeError, s))"

definition on_modified :: "bool \<Rightarrow> time \<Rightarrow> string \<Rightarrow> bool \<Rightarrow> string \<Rightarrow> nerve \<Rightarrow> (exn + unit) \<times> nerve" where
  "on_modified in_loop now stamp is_directory path s =
     (if is_directory then (Inr (), s)
      else schedule_emit in_loop
        \<lparr>se_type = ''file_modified'', se_source = path,
         se_payload = [(''action'', PStr ''modified''), (''timestamp'', PStr stamp)], se_timestamp = now,
         se_priority = ''medium''\<rparr> s)"

definition on_created :: "bool \<Rightarrow> time \<Rightarrow> string \<Rightarrow> nerve \<Rightarrow> (exn + unit) \<times> nerve" where
  "on_created in_loop now path s =
     schedule_emit in_loop
       \<lparr>se_type = ''file_created'', se_source = path, se_payload = [(''action'', PStr ''created'')],
        se_timestamp = now, se_priority = ''medium''\<rparr> s"

record nerve_manager =
  nm_bus :: nerve
  nm_paths :: "string list"
  nm_observer :: "string list option"

text \<open>The observer watches the paths that exist; \<open>watchdog\<close> tells whether the library is there.\<close>

definition initialize_nerve :: "bool \<Rightarrow> (string \<Rightarrow> bool) \<Rightarrow> nerve_manager \<Rightarrow> nerve_manager" where
  "initialize_nerve watchdog path_exists s =
     (let s1 = s\<lparr>nm_bus := start_loop (nm_bus s)\<rparr>
      in if watchdog \<and> nm_paths s \<noteq> [] then s1\<lparr>nm_observer := Some (filter path_exists (nm_paths s))\<rparr> else s1)"

definition stop_nerve :: "nerve_manager \<Rightarrow> nerve_manager" where
  "stop_nerve s = s\<lparr>nm_bus := stop_bus (nm_bus s)\<rparr>"

section \<open>Properties\<close>

definition deliveries :: "nerve \<Rightarrow> system_event \<Rightarrow> (nat \<times> system_event) list" where
  "deliveries s ev = map (\<lambda>cb. (cb, ev)) (subscribers_of (se_type ev) s @ subscribers_of ''*'' s)"

lemma fold_emit: "fold emit evs s = s\<lparr>nb_queue := nb_queue s @ evs\<rparr>"
  by (induction evs arbitrary: s) (simp_all add: emit_def)

text \<open>What a list of subscribers adds: their calls, and the events they emit, in order.\<close>

lemma calls_of_fold:
  "fold (call_subscriber react ev) cbs s =
     s\<lparr>nb_calls := nb_calls s @ map (\<lambda>cb. (cb, ev)) cbs,
       nb_queue := nb_queue s @ concat (map (\<lambda>cb. re_emits (react cb ev)) cbs),
       nb_running := nb_running s \<and> \<not> list_ex (\<lambda>cb. re_stops (react cb ev)) cbs\<rparr>"
  by (induction cbs arbitrary: s) (simp_all add: call_subscriber_def fold_emit stop_bus_def Let_def)

lemma subscribers_of_cong: "nb_subscribers s = nb_subscribers t \<Longrightarrow> subscribers_of ty s = subscribers_of ty t"
  by (simp add: subscribers_of_def)

lemma list_ex_pairs: "list_ex (\<lambda>(cb, e). P cb e) (map (\<lambda>cb. (cb, ev)) cbs) \<longleftrightarrow> list_ex (\<lambda>cb. P cb ev) cbs"
  by (induction cbs) simp_all

lemma deliver_event_exact:
  "deliver_event react ev s =
     s\<lparr>nb_calls := nb_calls s @ deliveries s ev,
       nb_queue := nb_queue s @ concat (map (\<lambda>(cb, e). re_emits (react cb e)) (deliveries s ev)),
       nb_running := nb_running s \<and> \<not> list_ex (\<lambda>(cb, e). re_stops (react cb e)) (deliveries s ev)\<rparr>"
proof -
  let ?s = "fold (call_subscriber react ev) (subscribers_of (se_type ev) s) s"
  have "subscribers_of ''*'' ?s = subscribers_of ''*'' s"
    by (simp add: calls_of_fold subscribers_of_def)
  then show ?thesis
    by (simp add: deliver_event_def calls_of_fold Let_def list_ex_pairs comp_def deliveries_def conj_assoc)
qed

text \<open>
  With subscribers that neither emit nor stop the bus, the loop delivers the waiting events in the order
  they were emitted, each once to every subscriber of its type and then to every universal one, however
  many of the calls raise.
\<close>

theorem events_delivered_in_order:
  assumes "nb_waiting s" "nb_running s"
    and "filter (\<lambda>ev. list_ex (\<lambda>(cb, e). re_emits (react cb e) \<noteq> [] \<or> re_stops (react cb e)) (deliveries s ev)) (nb_queue s) = []"
  shows "loop_turns react n s =
     s\<lparr>nb_calls := nb_calls s @ concat (map (deliveries s) (take n (nb_queue s))), nb_queue := drop n (nb_queue s)\<rparr>"
  using assms
proof (induction n arbitrary: s)
  case (Suc n)
  show ?case
  proof (cases "nb_queue s")
    case Nil
    have "loop_turns react m s = s" for m
      by (induction m) (simp_all add: loop_turn_def Nil)
    then have "loop_turns react (Suc n) s = s" .
    then show ?thesis using Nil by (cases s) (simp del: loop_turns.simps)
  next
    case (Cons ev q)
    let ?s = "s\<lparr>nb_calls := nb_calls s @ deliveries s ev, nb_queue := q\<rparr>"
    have quiet: "\<not> list_ex (\<lambda>(cb, e). re_emits (react cb e) \<noteq> [] \<or> re_stops (react cb e)) (deliveries s ev)"
      using Suc.prems(3) by (auto simp: Cons split: if_splits)
    have del: "deliveries (s\<lparr>nb_queue := q\<rparr>) e = deliveries s e" "deliveries ?s e = deliveries s e" for e
      by (simp_all add: deliveries_def subscribers_of_def)
    have "concat (map (\<lambda>(cb, e). re_emits (react cb e)) (deliveries s ev)) = []"
      using quiet by (auto simp: list_ex_iff)
    moreover have "\<not> list_ex (\<lambda>(cb, e). re_stops (react cb e)) (deliveries s ev)"
      using quiet by (auto simp: list_ex_iff)
    ultimately have turn: "loop_turn react s = ?s"
      using Suc.prems(1,2) by (simp add: loop_turn_def Cons deliver_event_exact del Let_def)
    have "loop_turns react n ?s =
        ?s\<lparr>nb_calls := nb_calls ?s @ concat (map (deliveries ?s) (take n (nb_queue ?s))), nb_queue := drop n (nb_queue ?s)\<rparr>"
      using Suc.prems by (intro Suc.IH) (auto simp: Cons del split: if_splits)
    moreover have "deliveries ?s = deliveries s" by (rule ext) (rule del(2))
    ultimately show ?thesis by (simp add: turn Cons)
  qed
qed simp

definition demo_event :: "string \<Rightarrow> system_event" where
  "demo_event ty = \<lparr>se_type = ty, se_source = ''f'', se_payload = [], se_timestamp = 0, se_priority = ''medium''\<rparr>"

definition demo_nerve :: nerve where
  "demo_nerve = emit (demo_event ''b'') (emit (demo_event ''a'')
     (start_loop (nerve_subscribe ''*'' 2 (nerve_subscribe ''a'' 1 new_nerve))))"

theorem events_delivered_in_order_witness:
  "nb_calls (loop_turns (\<lambda>_ _. \<lparr>re_emits = [], re_stops = False, re_raises = True\<rparr>) 2 demo_nerve) =
     [(1, demo_event ''a''), (2, demo_event ''a''), (2, demo_event ''b'')]"
proof -
  let ?react = "\<lambda>(_ :: nat) (_ :: system_event). \<lparr>re_emits = [], re_stops = False, re_raises = True\<rparr>"
  have quiet: "filter (\<lambda>ev. list_ex (\<lambda>(cb, e). re_emits (?react cb e) \<noteq> [] \<or> re_stops (?react cb e)) (deliveries demo_nerve ev))
      (nb_queue demo_nerve) = []"
    by (auto simp: list_ex_iff filter_empty_conv)
  have "nb_waiting demo_nerve" "nb_running demo_nerve"
    by (simp_all add: demo_nerve_def emit_def start_loop_def)
  from events_delivered_in_order [OF this quiet, of 2] show ?thesis
    by (simp add: demo_nerve_def emit_def start_loop_def nerve_subscribe_def new_nerve_def deliveries_def
        subscribers_of_def demo_event_def dict_put_def)
qed

text \<open>
  A bus that is stopped while its loop waits still delivers the next event, and nothing after it: the
  flag is only looked at between two events.
\<close>

theorem stopped_bus_delivers_one_more:
  assumes "nb_waiting s" "nb_queue s = ev # q"
  shows "nb_calls (loop_turns react (Suc n) (stop_bus s)) = nb_calls s @ deliveries s ev"
proof -
  have "loop_turns react m t = t" if "\<not> nb_waiting t" for m t
    using that by (induction m) (simp_all add: loop_turn_def)
  moreover have "\<not> nb_waiting (loop_turn react (stop_bus s))"
    using assms by (simp add: loop_turn_def stop_bus_def deliver_event_exact Let_def)
  ultimately show ?thesis
    using assms by (simp add: loop_turn_def stop_bus_def deliver_event_exact deliveries_def subscribers_of_def Let_def)
qed

theorem stopped_bus_delivers_one_more_witness:
  "nb_calls (loop_turns (\<lambda>_ _. \<lparr>re_emits = [], re_stops = False, re_raises = False\<rparr>) 9 (stop_bus demo_nerve)) =
     [(1, demo_event ''a''), (2, demo_event ''a'')]"
proof -
  let ?react = "\<lambda>(_ :: nat) (_ :: system_event). \<lparr>re_emits = [], re_stops = False, re_raises = False\<rparr>"
  have q: "nb_waiting demo_nerve" "nb_queue demo_nerve = [demo_event ''a'', demo_event ''b'']"
    by (simp_all add: demo_nerve_def emit_def start_loop_def nerve_subscribe_def new_nerve_def)
  have "nb_calls (loop_turns ?react (Suc 8) (stop_bus demo_nerve)) = nb_calls demo_nerve @ deliveries demo_nerve (demo_event ''a'')"
    using q by (rule stopped_bus_delivers_one_more)
  then show ?thesis
    by (simp add: demo_nerve_def emit_def start_loop_def nerve_subscribe_def new_nerve_def deliveries_def
        subscribers_of_def demo_event_def dict_put_def del: loop_turns.simps)
qed

text \<open>In the observer's thread there is no running loop: no file event reaches the bus.\<close>

lemma watcher_thread_raises:
  "on_modified False now stamp False path s = (Inl RuntimeError, s)" "on_created False now path s = (Inl RuntimeError, s)"
  by (simp_all add: on_modified_def on_created_def schedule_emit_def)

end
