(* ===== verification/Eye.thy ===== *)
theory Eye
  imports Prelude
begin

text \<open>
  The environment interface, \<open>src/agent/eye\<close>: the vision bridge with its simulated reply, the input device
  (\<open>os_interface.py\<close>), the perception loop and the manager that sees and then acts. The input library and
  the process table are parameters; the inputs sent are listed in order.
\<close>

section \<open>Vision\<close>

record ui_element =
  ui_label :: string
  ui_bbox :: "int \<times> int \<times> int \<times> int"
  ui_confidence :: rat
  ui_type :: string

definition capture_screenshot :: string where
  "capture_screenshot = ''BASE64_ENCODED_SCREENSHOT_DATA''"

text \<open>The reply does not depend on the image or the prompt.\<close>

definition analyze_screen :: "string \<Rightarrow> string \<Rightarrow> ui_element list" where
  "analyze_screen img prompt =
     [\<lparr>ui_label = ''start_menu'', ui_bbox = (0, 1050, 48, 48), ui_confidence = 99 / 100, ui_type = ''button''\<rparr>,
      \<lparr>ui_label = ''browser_window'', ui_bbox = (100, 100, 1720, 900), ui_confidence = 95 / 100, ui_type = ''window''\<rparr>,
      \<lparr>ui_label = ''submit_button'', ui_bbox = (500, 600, 100, 40), ui_confidence = 88 / 100, ui_type = ''button''\<rparr>]"

definition centre :: "int \<times> int \<times> int \<times> int \<Rightarrow> int \<times> int" where
  "centre = (\<lambda>(x, y, w, h). (x + w div 2, y + h div 2))"

definition resolve_element_coordinates :: "string \<Rightarrow> ui_element list \<Rightarrow> (int \<times> int) option" where
  "resolve_element_coordinates label ui_map =
     map_option (\<lambda>e. centre (ui_bbox e)) (List.find (\<lambda>e. py_in (py_lower label) (py_lower (ui_label e))) ui_map)"

section \<open>Input device\<close>

datatype os_input =
    Click int int string int
  | TypeText string
  | PressKey string
  | Hotkey "string list"
  | MoveTo int int

text \<open>\<open>accepts\<close> tells which inputs the library carries out; without it every input is only simulated.\<close>

record os_device =
  od_available :: bool
  od_accepts :: "os_input \<Rightarrow> bool"
  od_size :: "int \<times> int"

type_synonym sent = "os_input list"

definition send_input :: "os_device \<Rightarrow> os_input \<Rightarrow> sent \<Rightarrow> bool \<times> sent" where
  "send_input dev i lg =
     (if \<not> od_available dev then (True, lg)
      else if od_accepts dev i then (True, lg @ [i]) else (False, lg))"

definition os_click :: "os_device \<Rightarrow> int \<Rightarrow> int \<Rightarrow> string \<Rightarrow> int \<Rightarrow> sent \<Rightarrow> bool \<times> sent" where
  "os_click dev x y button clicks = send_input dev (Click x y button clicks)"

definition os_type_text :: "os_device \<Rightarrow> string \<Rightarrow> sent \<Rightarrow> bool \<times> sent" where
  "os_type_text dev t = send_input dev (TypeText t)"

definition os_press_key :: "os_device \<Rightarrow> string \<Rightarrow> sent \<Rightarrow> bool \<times> sent" where
  "os_press_key dev k = send_input dev (PressKey k)"

definition os_hotkey :: "os_device \<Rightarrow> string list \<Rightarrow> sent \<Rightarrow> bool \<times> sent" where
  "os_hotkey dev ks = send_input dev (Hotkey ks)"

definition os_move_to :: "os_device \<Rightarrow> int \<Rightarrow> int \<Rightarrow> sent \<Rightarrow> bool \<times> sent" where
  "os_move_to dev x y = send_input dev (MoveTo x y)"

definition get_screen_size :: "os_device \<Rightarrow> int \<times> int" where
  "get_screen_size dev = (if od_available dev then od_size dev else (1920, 1080))"

text \<open>
  The accessibility tree: the rectangle (left, top, width, height) of a button with that title, if it is
  found; a failed lookup finds nothing.
\<close>

definition find_element_by_text ::
    "bool \<Rightarrow> (string \<Rightarrow> exn + (int \<times> int \<times> int \<times> int) option) \<Rightarrow> string \<Rightarrow> (int \<times> int) option" where
  "find_element_by_text available tree t =
     (if \<not> available then Some (100, 100)
      else case tree t of Inl _ \<Rightarrow> None | Inr None \<Rightarrow> None | Inr (Some r) \<Rightarrow> Some (centre r))"

definition semantic_click ::
    "os_device \<Rightarrow> bool \<Rightarrow> (string \<Rightarrow> exn + (int \<times> int \<times> int \<times> int) option) \<Rightarrow> string \<Rightarrow> sent \<Rightarrow> bool \<times> sent" where
  "semantic_click dev available tree t lg =
     (case find_element_by_text available tree t of
        None \<Rightarrow> (False, lg)
      | Some (x, y) \<Rightarrow> os_click dev x y ''left'' 1 lg)"

section \<open>Perception\<close>

record proc_info =
  pi_pid :: int
  pi_name :: string
  pi_cpu :: "rat option"

record environment =
  en_active :: "(string, pyval) dict option"
  en_processes :: "proc_info list"
  en_ui_map :: "ui_element list"
  en_last_sync :: "time option"

record perception =
  pp_interval :: rat
  pp_running :: bool
  pp_state :: environment

definition new_perception :: "rat \<Rightarrow> perception" where
  "new_perception interval =
     \<lparr>pp_interval = interval, pp_running = False,
      pp_state = \<lparr>en_active = None, en_processes = [], en_ui_map = [], en_last_sync = None\<rparr>\<rparr>"

definition get_active_process_info :: "(string, pyval) dict option" where
  "get_active_process_info =
     Some [(''name'', PStr ''Chrome''), (''pid'', PInt 1234), (''title'', PStr ''Omega-Prime Design Doc'')]"

text \<open>Processes that vanished or deny access (\<open>None\<close>) are skipped; a missing load counts as 0.\<close>

definition cpu_load :: "proc_info \<Rightarrow> rat" where
  "cpu_load p = (case pi_cpu p of None \<Rightarrow> 0 | Some c \<Rightarrow> c)"

definition get_top_processes :: "nat \<Rightarrow> proc_info option list \<Rightarrow> proc_info list" where
  "get_top_processes limit table =
     take limit (sort_key (\<lambda>p. - cpu_load p) (List.map_filter id table))"

definition sync_environment :: "time \<Rightarrow> proc_info option list \<Rightarrow> perception \<Rightarrow> environment \<times> perception" where
  "sync_environment now table s =
     (let st = \<lparr>en_active = get_active_process_info, en_processes = get_top_processes 5 table,
                en_ui_map = analyze_screen capture_screenshot ''General environmental scan'', en_last_sync = Some now\<rparr>
      in (st, s\<lparr>pp_state := st\<rparr>))"

definition start_background_sync :: "perception \<Rightarrow> perception" where
  "start_background_sync s = s\<lparr>pp_running := True\<rparr>"

definition stop_background_sync :: "perception \<Rightarrow> perception" where
  "stop_background_sync s = s\<lparr>pp_running := False\<rparr>"

section \<open>See and act\<close>

definition eye_observe ::
    "time \<Rightarrow> proc_info option list \<Rightarrow> string option \<Rightarrow> perception \<Rightarrow> (ui_element list \<times> environment) \<times> perception" where
  "eye_observe now table target s =
     (let prompt = (case target of Some (c # t) \<Rightarrow> ''Focus on '' @ c # t | _ \<Rightarrow> ''General scan'')
      in case sync_environment now table s of
           (st, s') \<Rightarrow> ((analyze_screen capture_screenshot prompt, st), s'))"

definition act_on_element ::
    "os_device \<Rightarrow> string \<Rightarrow> string \<Rightarrow> string option \<Rightarrow> sent \<Rightarrow> bool \<times> sent" where
  "act_on_element dev label action val lg =
     (case resolve_element_coordinates label
        (analyze_screen capture_screenshot (''Find the '' @ label @ '' element'')) of
        None \<Rightarrow> (False, lg)
      | Some (x, y) \<Rightarrow>
          if action = ''click'' then os_click dev x y ''left'' 1 lg
          else if action = ''type'' then
            (case val of
               None \<Rightarrow> (False, lg)
             | Some v \<Rightarrow>
                 (let lg1 = snd (os_move_to dev x y lg); lg2 = snd (os_click dev x y ''left'' 1 lg1)
                  in os_type_text dev v lg2))
          else if action = ''right_click'' then os_click dev x y ''right'' 1 lg
          else (False, lg))"

text \<open>A step of a workflow; the label is required, the action is a click by default.\<close>

record step =
  st_label :: "string option"
  st_action :: "string option"
  st_value :: "string option"

fun perform_workflow :: "os_device \<Rightarrow> step list \<Rightarrow> sent \<Rightarrow> (exn + bool) \<times> sent" where
  "perform_workflow dev [] lg = (Inr True, lg)"
| "perform_workflow dev (t # ts) lg =
     (case st_label t of
        None \<Rightarrow> (Inl KeyError, lg)
      | Some label \<Rightarrow>
          (case act_on_element dev label (case st_action t of None \<Rightarrow> ''click'' | Some a \<Rightarrow> a) (st_value t) lg of
             (True, lg') \<Rightarrow> perform_workflow dev ts lg'
           | (False, lg') \<Rightarrow> (Inr False, lg')))"

section \<open>Properties\<close>

text \<open>What a step sends, and whether it succeeds, does not depend on what was sent before.\<close>

definition step_result :: "os_device \<Rightarrow> step \<Rightarrow> bool \<times> sent" where
  "step_result dev t =
     (case st_label t of None \<Rightarrow> (False, [])
      | Some label \<Rightarrow> act_on_element dev label (case st_action t of None \<Rightarrow> ''click'' | Some a \<Rightarrow> a) (st_value t) [])"

lemma send_input_append: "send_input dev i lg = (fst (send_input dev i []), lg @ snd (send_input dev i []))"
  by (simp add: send_input_def)

lemma act_append:
  "act_on_element dev label action val lg =
     (fst (act_on_element dev label action val []), lg @ snd (act_on_element dev label action val []))"
  by (simp add: act_on_element_def os_click_def os_move_to_def os_type_text_def send_input_def Let_def
      split: option.split prod.split)

text \<open>
  A workflow carries out the steps up to and including the first that fails, in order: it succeeds exactly
  when every step does, and the inputs sent are those of the steps it reached. A step without a label
  raises there, with the earlier inputs sent.
\<close>

theorem workflow_stops_at_first_failure:
  "perform_workflow dev ts lg =
     (let good = takeWhile (\<lambda>t. fst (step_result dev t)) ts; rest = drop (length good) ts
      in (case rest of [] \<Rightarrow> Inr True | t # _ \<Rightarrow> if st_label t = None then Inl KeyError else Inr False,
          lg @ concat (map (\<lambda>t. snd (step_result dev t)) (good @ take 1 rest))))"
proof (induction ts arbitrary: lg)
  case (Cons t ts)
  show ?case
  proof (cases "st_label t")
    case None
    then show ?thesis by (simp add: step_result_def)
  next
    case (Some label)
    have "act_on_element dev label (case st_action t of None \<Rightarrow> ''click'' | Some a \<Rightarrow> a) (st_value t) lg =
        (fst (step_result dev t), lg @ snd (step_result dev t))"
      using act_append [of dev label "case st_action t of None \<Rightarrow> ''click'' | Some a \<Rightarrow> a" "st_value t" lg]
      by (simp add: step_result_def Some)
    then show ?thesis
      by (cases "fst (step_result dev t)") (simp_all add: Some Cons.IH Let_def)
  qed
qed simp

text \<open>The simulated reply resolves exactly the labels contained in one of its three.\<close>

lemma empty_label_is_first: "resolve_element_coordinates [] (analyze_screen img prompt) = Some (24, 1074)"
  by (simp add: resolve_element_coordinates_def analyze_screen_def centre_def py_lower_def)

text \<open>Typing reports only the last of its three inputs: a refused click is not noticed.\<close>

lemma refused_click_is_ignored:
  "fst (act_on_element \<lparr>od_available = True, od_accepts = (\<lambda>i. i = TypeText v), od_size = (1, 1)\<rparr>
     [] ''type'' (Some v) lg) = True"
  by (simp add: act_on_element_def empty_label_is_first os_type_text_def send_input_def Let_def)

text \<open>Without the libraries every action is reported as done although nothing is sent.\<close>

lemma simulation_sends_nothing:
  "od_available dev = False \<Longrightarrow> snd (semantic_click dev available tree t lg) = lg \<and>
     (available = False \<longrightarrow> fst (semantic_click dev available tree t lg))"
  by (simp add: semantic_click_def find_element_by_text_def os_click_def send_input_def split: option.split prod.split)

end
