(* ===== verification/Accounts.thy ===== *)
theory Accounts
  imports Prelude
begin

text \<open>
  The GitHub tools, \<open>src/agent/accounts.py\<close>, over the \<open>gh\<close> command line: which arguments are passed, how its
  exit status and output become a result or a 503, and the cached availability. The command line is a
  parameter: the outcome of a call, or nothing when it cannot be started or runs out of time.
\<close>

record completed =
  cp_code :: int
  cp_out :: string
  cp_err :: string

type_synonym gh = "string list \<Rightarrow> completed option"

section \<open>Calls\<close>

text \<open>The availability is computed once per process and then remembered.\<close>

definition probe_github :: "bool \<Rightarrow> gh \<Rightarrow> bool" where
  "probe_github installed cli =
     (if \<not> installed then False
      else case cli [''auth'', ''status''] of None \<Rightarrow> False | Some p \<Rightarrow> cp_code p = 0)"

definition github_available :: "bool \<Rightarrow> gh \<Rightarrow> bool option \<Rightarrow> bool \<times> bool option" where
  "github_available installed cli cache =
     (case cache of
        Some b \<Rightarrow> (b, cache)
      | None \<Rightarrow> (let b = probe_github installed cli in (b, Some b)))"

definition call_failed :: "completed \<Rightarrow> string" where
  "call_failed p = take 500 (py_strip (if cp_err p \<noteq> [] then cp_err p else cp_out p))"

text \<open>\<open>json\<close> reads the output; an empty one is read as \<open>null\<close>.\<close>

definition gh_call :: "(string \<Rightarrow> pyval option) \<Rightarrow> gh \<Rightarrow> string list \<Rightarrow> exn \<times> string + pyval" where
  "gh_call json cli args =
     (case cli args of
        None \<Rightarrow> Inl (ServiceUnavailableError, ''GitHub CLI failed'')
      | Some p \<Rightarrow>
          if cp_code p \<noteq> 0 then Inl (ServiceUnavailableError, ''GitHub CLI error: '' @ call_failed p)
          else case json (if cp_out p = [] then ''null'' else cp_out p) of
              None \<Rightarrow> Inl (ServiceUnavailableError, ''GitHub CLI returned non-JSON output'')
            | Some v \<Rightarrow> Inr v)"

definition github_login :: "gh \<Rightarrow> string option" where
  "github_login cli =
     (case cli [''api'', ''user'', ''--jq'', ''.login''] of
        None \<Rightarrow> None
      | Some p \<Rightarrow>
          if cp_code p \<noteq> 0 then None
          else (let s = py_strip (cp_out p) in if s = [] then None else Some s))"

section \<open>Tools\<close>

definition opt_str :: "string option \<Rightarrow> pyval" where
  "opt_str v = (case v of None \<Rightarrow> PNone | Some s \<Rightarrow> PStr s)"

definition account_status :: "bool \<Rightarrow> gh \<Rightarrow> bool option \<Rightarrow> pyval \<times> bool option" where
  "account_status installed cli cache =
     (case github_available installed cli cache of
        (b, cache') \<Rightarrow>
          (PDict
             [(''github'', PDict [(''available'', PBool b),
                 (''account'', if b then opt_str (github_login cli) else PNone), (''via'', PStr ''gh CLI'')]),
              (''gmail'', PDict [(''available'', PBool False), (''via'', PStr ''Google OAuth''),
                 (''setup'', PStr (''Place Google OAuth client credentials at credentials.json, '' @
                   ''run the OAuth flow to mint token.json, then enable the '' @ ''gmail_* tools.''))])],
           cache'))"

definition listing :: "exn \<times> string + pyval \<Rightarrow> exn \<times> string + pyval list \<times> nat" where
  "listing r = map_sum id (\<lambda>v. case v of PList xs \<Rightarrow> (xs, length xs) | _ \<Rightarrow> ([], 0)) r"

definition repo_list_args :: "int \<Rightarrow> string list" where
  "repo_list_args limit =
     [''repo'', ''list'', ''--limit'', str_int limit, ''--json'', ''nameWithOwner,description,url,isPrivate'']"

definition github_repo_list :: "(string \<Rightarrow> pyval option) \<Rightarrow> gh \<Rightarrow> int \<Rightarrow> exn \<times> string + pyval list \<times> nat" where
  "github_repo_list json cli limit = listing (gh_call json cli (repo_list_args limit))"

text \<open>The argument classes and their constraints.\<close>

record repo_query =
  rq_repo :: string
  rq_state :: string
  rq_limit :: int

definition issue_query_valid :: "repo_query \<Rightarrow> bool" where
  "issue_query_valid q = (rq_repo q \<noteq> [] \<and> rq_state q \<in> set [''open'', ''closed'', ''all''] \<and> 1 \<le> rq_limit q \<and> rq_limit q \<le> 100)"

definition pr_query_valid :: "repo_query \<Rightarrow> bool" where
  "pr_query_valid q =
     (rq_repo q \<noteq> [] \<and> rq_state q \<in> set [''open'', ''closed'', ''merged'', ''all''] \<and> 1 \<le> rq_limit q \<and> rq_limit q \<le> 100)"

definition query_args :: "string \<Rightarrow> repo_query \<Rightarrow> string list" where
  "query_args what q =
     [what, ''list'', ''--repo'', rq_repo q, ''--state'', rq_state q, ''--limit'', str_int (rq_limit q),
      ''--json'', ''number,title,author,url'']"

definition github_issue_list :: "(string \<Rightarrow> pyval option) \<Rightarrow> gh \<Rightarrow> repo_query \<Rightarrow> exn \<times> string + pyval list \<times> nat" where
  "github_issue_list json cli q = listing (gh_call json cli (query_args ''issue'' q))"

definition github_pr_list :: "(string \<Rightarrow> pyval option) \<Rightarrow> gh \<Rightarrow> repo_query \<Rightarrow> exn \<times> string + pyval list \<times> nat" where
  "github_pr_list json cli q = listing (gh_call json cli (query_args ''pr'' q))"

record issue_create =
  ic_repo :: string
  ic_heading :: string
  ic_body :: "string option"

definition issue_create_valid :: "issue_create \<Rightarrow> bool" where
  "issue_create_valid c =
     (ic_repo c \<noteq> [] \<and> 1 \<le> length (ic_heading c) \<and> length (ic_heading c) \<le> 256 \<and>
      (case ic_body c of None \<Rightarrow> True | Some b \<Rightarrow> length b \<le> 10000))"

definition issue_create_args :: "issue_create \<Rightarrow> string list" where
  "issue_create_args c =
     [''issue'', ''create'', ''--repo'', ic_repo c, ''--title'', ic_heading c] @
     (case ic_body c of Some (x # b) \<Rightarrow> [''--body'', x # b] | _ \<Rightarrow> []) @ [''--json'', ''number,url'']"

text \<open>\<open>created.get\<close> of anything but an object raises.\<close>

definition github_issue_create ::
    "(string \<Rightarrow> pyval option) \<Rightarrow> gh \<Rightarrow> issue_create \<Rightarrow> exn \<times> string + pyval \<times> pyval" where
  "github_issue_create json cli c =
     (case gh_call json cli (issue_create_args c) of
        Inl e \<Rightarrow> Inl e
      | Inr (PDict d) \<Rightarrow>
          Inr (case dict_get d ''number'' of None \<Rightarrow> PNone | Some v \<Rightarrow> v, case dict_get d ''url'' of None \<Rightarrow> PNone | Some v \<Rightarrow> v)
      | Inr _ \<Rightarrow> Inl (OtherException ''AttributeError'', []))"

section \<open>Properties\<close>

lemma gh_call_errors:
  "(case gh_call json cli args of Inl (e, d) \<Rightarrow> e = ServiceUnavailableError
    | Inr v \<Rightarrow> (case cli args of None \<Rightarrow> False
        | Some p \<Rightarrow> cp_code p = 0 \<and> json (if cp_out p = [] then ''null'' else cp_out p) = Some v))"
  by (simp add: gh_call_def split: option.split)

text \<open>
  The listing tools succeed exactly when the command line exits with status 0 and prints JSON, and count
  what they return; every failure is a 503, and its detail repeats at most 500 characters of the output.
\<close>

theorem github_listings_exact:
  "(case github_issue_list json cli q of
      Inl (e, d) \<Rightarrow>
        e = ServiceUnavailableError \<and> length d \<le> 518 \<and>
        (case cli (query_args ''issue'' q) of None \<Rightarrow> True
         | Some p \<Rightarrow> \<not> (cp_code p = 0 \<and> json (if cp_out p = [] then ''null'' else cp_out p) \<noteq> None))
    | Inr (items, n) \<Rightarrow>
        n = length items \<and>
        (case cli (query_args ''issue'' q) of None \<Rightarrow> False
         | Some p \<Rightarrow> cp_code p = 0 \<and>
             (case json (if cp_out p = [] then ''null'' else cp_out p) of
                Some (PList xs) \<Rightarrow> items = xs | Some _ \<Rightarrow> items = [] | None \<Rightarrow> False)))"
  by (auto simp: github_issue_list_def listing_def gh_call_def call_failed_def map_sum_def
      split: option.split pyval.split sum.split)

text \<open>The answer to the first question is the answer to all, whatever becomes of the login.\<close>

lemma availability_is_cached:
  "github_available installed' cli' (snd (github_available installed cli cache)) =
     (fst (github_available installed cli cache), snd (github_available installed cli cache))"
  by (simp add: github_available_def Let_def split: option.split)

end
