(* ===== verification/Api.thy ===== *)
theory Api
  imports RateLimit Config
begin

text \<open>
  The HTTP shell, \<open>src/api/main.py\<close>: the middlewares in the order in which the framework runs them, the
  exception handlers over the hierarchy of \<open>src/core/exceptions.py\<close>, the probes; with the settings that
  decide on keys and origins (\<open>src/core/config.py\<close>), request metrics (\<open>src/core/metrics.py\<close>), the
  logging set-up (\<open>src/core/logging.py\<close>) and the database address (\<open>src/db/database.py\<close>). The routes
  behind the middlewares are a parameter: a response, or nothing when an exception escapes that no
  handler but the last one knows.
\<close>

section \<open>Settings\<close>

fun split_comma :: "string \<Rightarrow> string list" where
  "split_comma [] = [[]]"
| "split_comma (c # s) =
     (if c = CHR '','' then [] # split_comma s
      else case split_comma s of y # ys \<Rightarrow> (c # y) # ys | [] \<Rightarrow> [[c]])"

text \<open>The environment variable, then the settings, and the local origin outside production.\<close>

definition allowed_origins :: "string option \<Rightarrow> string list \<Rightarrow> string \<Rightarrow> string list" where
  "allowed_origins var configured env =
     (let given = stripped_entries (split_comma (case var of None \<Rightarrow> [] | Some v \<Rightarrow> v));
          chosen = (if given = [] then cors_origins configured else given)
      in if chosen = [] \<and> \<not> is_production env then [''http://localhost:3000''] else chosen)"

text \<open>Logging: configured once unless forced; the level is looked up by its upper-case name.\<close>

record logging =
  lo_configured :: bool
  lo_level :: int
  lo_handlers :: "string list"

definition level_from_settings :: "(string \<Rightarrow> int option) \<Rightarrow> string \<Rightarrow> int" where
  "level_from_settings levels configured =
     (case levels (py_upper (if configured = [] then ''INFO'' else configured)) of None \<Rightarrow> 20 | Some l \<Rightarrow> l)"

definition setup_logging :: "(string \<Rightarrow> int option) \<Rightarrow> string \<Rightarrow> string option \<Rightarrow> string option \<Rightarrow> bool \<Rightarrow> logging \<Rightarrow> logging" where
  "setup_logging levels configured level dir force s =
     (if lo_configured s \<and> \<not> force then s
      else
        (let base = level_from_settings levels configured;
             effective = (case level of
               Some (c # l) \<Rightarrow> (case levels (py_upper (c # l)) of None \<Rightarrow> base | Some v \<Rightarrow> v)
             | _ \<Rightarrow> base)
         in \<lparr>lo_configured = True, lo_level = effective,
             lo_handlers = [''console'', (case dir of None \<Rightarrow> ''logs'' | Some d \<Rightarrow> d) @ ''/kryvaracode.log'']\<rparr>))"

section \<open>Errors\<close>

datatype app_kind = AppError | NotFound | Conflict | Unauthorized | Forbidden | ValidationFailed | RateLimit | ServiceUnavailable

definition status_of :: "app_kind \<Rightarrow> nat" where
  "status_of k = (case k of AppError \<Rightarrow> 500 | NotFound \<Rightarrow> 404 | Conflict \<Rightarrow> 409 | Unauthorized \<Rightarrow> 401 | Forbidden \<Rightarrow> 403
     | ValidationFailed \<Rightarrow> 422 | RateLimit \<Rightarrow> 429 | ServiceUnavailable \<Rightarrow> 503)"

definition code_of :: "app_kind \<Rightarrow> string" where
  "code_of k = (case k of AppError \<Rightarrow> ''internal_error'' | NotFound \<Rightarrow> ''not_found'' | Conflict \<Rightarrow> ''conflict''
     | Unauthorized \<Rightarrow> ''unauthorized'' | Forbidden \<Rightarrow> ''forbidden'' | ValidationFailed \<Rightarrow> ''validation_failed''
     | RateLimit \<Rightarrow> ''rate_limit_exceeded'' | ServiceUnavailable \<Rightarrow> ''service_unavailable'')"

definition doc_of :: "app_kind \<Rightarrow> string" where
  "doc_of k = (case k of AppError \<Rightarrow> ''Base class for all KRYVARACODE application errors.''
     | NotFound \<Rightarrow> ''The requested resource does not exist.''
     | Conflict \<Rightarrow> ''The request conflicts with the current state of the resource.''
     | Unauthorized \<Rightarrow> ''Authentication is missing or the credentials are invalid.''
     | Forbidden \<Rightarrow> ''The authenticated user lacks permission for this action.''
     | ValidationFailed \<Rightarrow> ''The request payload failed semantic validation.''
     | RateLimit \<Rightarrow> ''The client exceeded its allowed request rate.''
     | ServiceUnavailable \<Rightarrow> ''A downstream dependency (DB, MLflow, MinIO) is unavailable.'')"

record app_error =
  ae_kind :: app_kind
  ae_detail :: string
  ae_code :: string
  ae_extra :: "(string, pyval) dict"

text \<open>An empty detail or code counts as missing.\<close>

definition new_app_error :: "app_kind \<Rightarrow> string option \<Rightarrow> string option \<Rightarrow> (string, pyval) dict option \<Rightarrow> app_error" where
  "new_app_error k detail code extra =
     \<lparr>ae_kind = k, ae_detail = (case detail of Some (c # d) \<Rightarrow> c # d | _ \<Rightarrow> doc_of k),
      ae_code = (case code of Some (c # d) \<Rightarrow> c # d | _ \<Rightarrow> code_of k),
      ae_extra = (case extra of None \<Rightarrow> [] | Some d \<Rightarrow> d)\<rparr>"

definition error_body :: "pyval \<Rightarrow> string \<Rightarrow> nat \<Rightarrow> (string, pyval) dict" where
  "error_body detail code status =
     [(''detail'', detail), (''error_code'', PStr code), (''status_code'', PInt (int status))]"

definition app_error_to_dict :: "app_error \<Rightarrow> (string, pyval) dict" where
  "app_error_to_dict e =
     error_body (PStr (ae_detail e)) (ae_code e) (status_of (ae_kind e)) @
     (if ae_extra e = [] then [] else [(''extra'', PDict (ae_extra e))])"

record response =
  rs_status :: nat
  rs_headers :: "(string \<times> string) list"
  rs_body :: "(string, pyval) dict"

text \<open>Headers that an error carries in its extra data are sent as such.\<close>

definition extra_headers :: "app_error \<Rightarrow> (string \<times> string) list" where
  "extra_headers e =
     (case dict_get (ae_extra e) ''headers'' of
        Some (PDict d) \<Rightarrow> List.map_filter (\<lambda>(k, v). case v of PStr x \<Rightarrow> Some (k, x) | _ \<Rightarrow> None) d
      | _ \<Rightarrow> [])"

definition app_error_handler :: "app_error \<Rightarrow> response" where
  "app_error_handler e =
     \<lparr>rs_status = status_of (ae_kind e), rs_headers = extra_headers e, rs_body = app_error_to_dict e\<rparr>"

text \<open>A value of the context of a validation error that is no scalar is replaced by its text.\<close>

definition scalar :: "pyval \<Rightarrow> bool" where
  "scalar v = (case v of PList _ \<Rightarrow> False | PDict _ \<Rightarrow> False | _ \<Rightarrow> True)"

definition sanitize_validation_error :: "(pyval \<Rightarrow> string) \<Rightarrow> (string, pyval) dict \<Rightarrow> (string, pyval) dict" where
  "sanitize_validation_error str_of err =
     (case dict_get err ''ctx'' of
        Some (PDict (p # ctx)) \<Rightarrow>
          dict_put ''ctx'' (PDict (map (\<lambda>(k, v). (k, if scalar v then v else PStr (str_of v))) (p # ctx))) err
      | _ \<Rightarrow> err)"

definition validation_error_handler :: "(pyval \<Rightarrow> string) \<Rightarrow> (string, pyval) dict list \<Rightarrow> response" where
  "validation_error_handler str_of errs =
     \<lparr>rs_status = 422, rs_headers = [],
      rs_body = error_body (PList (map (\<lambda>e. PDict (sanitize_validation_error str_of e)) errs)) ''validation_failed'' 422\<rparr>"

definition unhandled_exception_handler :: response where
  "unhandled_exception_handler =
     \<lparr>rs_status = 500, rs_headers = [], rs_body = error_body (PStr ''Internal server error'') ''internal_error'' 500\<rparr>"

section \<open>Middlewares\<close>

record request =
  rq_method :: string
  rq_path :: string
  rq_client :: "string option"
  rq_headers :: "(string \<times> string) list"

text \<open>One observation of the request metrics: method, path, status.\<close>

type_synonym observation = "string \<times> string \<times> nat"

definition register_request :: "bool \<Rightarrow> string \<Rightarrow> string \<Rightarrow> nat \<Rightarrow> observation list \<Rightarrow> observation list" where
  "register_request available verb path status obs = (if available then obs @ [(verb, path, status)] else obs)"

definition render_metrics :: "bool \<Rightarrow> (observation list \<Rightarrow> string) \<Rightarrow> observation list \<Rightarrow> string option" where
  "render_metrics available render obs = (if available then Some (render obs) else None)"

definition max_body_size :: int where
  "max_body_size = 10 * 1024 * 1024"

text \<open>Only the first \<open>content-length\<close> header counts; one that is no number counts as 0.\<close>

definition content_length :: "(string \<times> string) list \<Rightarrow> int" where
  "content_length hs =
     (case List.find (\<lambda>(n, v). n = ''content-length'') hs of
        None \<Rightarrow> 0
      | Some (_, v) \<Rightarrow> (case py_int v of None \<Rightarrow> 0 | Some n \<Rightarrow> n))"

definition too_large :: response where
  "too_large = \<lparr>rs_status = 413, rs_headers = [(''content-type'', ''application/json'')],
     rs_body = error_body (PStr ''Payload too large'') ''payload_too_large'' 413\<rparr>"

definition too_many :: "int \<Rightarrow> response" where
  "too_many window = \<lparr>rs_status = 429, rs_headers = [(''Retry-After'', str_int window)],
     rs_body = error_body (PStr ''Rate limit exceeded. Try again shortly.'') ''rate_limit_exceeded'' 429\<rparr>"

text \<open>The innermost middleware: the identifier of the request and its observation.\<close>

definition request_id ::
    "bool \<Rightarrow> string \<Rightarrow> (request \<Rightarrow> response option) \<Rightarrow> request \<Rightarrow> observation list \<Rightarrow> response option \<times> observation list"
  where
  "request_id available rid app q obs =
     (case app q of
        None \<Rightarrow> (None, obs)
      | Some r \<Rightarrow>
          (Some (r\<lparr>rs_headers := rs_headers r @ [(''X-Request-ID'', rid)]\<rparr>),
           register_request available (rq_method q) (rq_path q) (rs_status r) obs))"

definition size_limit ::
    "(request \<Rightarrow> observation list \<Rightarrow> response option \<times> observation list) \<Rightarrow> request \<Rightarrow> observation list
     \<Rightarrow> response option \<times> observation list" where
  "size_limit inner q obs = (if max_body_size < content_length (rq_headers q) then (Some too_large, obs) else inner q obs)"

text \<open>Assigning a header replaces one of that name, whatever its case, or adds it.\<close>

definition set_header :: "string \<Rightarrow> string \<Rightarrow> (string \<times> string) list \<Rightarrow> (string \<times> string) list" where
  "set_header n v hs =
     (if list_ex (\<lambda>(m, _). py_lower m = py_lower n) hs
      then (let before = takeWhile (\<lambda>(m, _). py_lower m \<noteq> py_lower n) hs;
                rest = drop (length before) hs
            in before @ (fst (hd rest), v) # filter (\<lambda>(m, _). py_lower m \<noteq> py_lower n) (tl rest))
      else hs @ [(n, v)])"

definition security_header_list :: "(string \<times> string) list" where
  "security_header_list =
     [(''X-Content-Type-Options'', ''nosniff''), (''X-Frame-Options'', ''DENY''), (''X-XSS-Protection'', ''1; mode=block''),
      (''Strict-Transport-Security'', ''max-age=31536000; includeSubDomains''),
      (''Content-Security-Policy'', ''default-src '' @ [CHR 0x27] @ ''self'' @ [CHR 0x27]),
      (''Referrer-Policy'', ''strict-origin-when-cross-origin'')]"

definition security_headers :: "response \<Rightarrow> response" where
  "security_headers r = r\<lparr>rs_headers := fold (\<lambda>(n, v). set_header n v) security_header_list (rs_headers r)\<rparr>"

text \<open>
  The whole shell: the handler of last resort is outside every middleware, then the security headers, the
  rate limiter, the size limit and the request identifier.
\<close>

definition serve_request ::
    "bool \<Rightarrow> time \<Rightarrow> string \<Rightarrow> (request \<Rightarrow> response option) \<Rightarrow> request \<Rightarrow> rate_limiter option \<times> observation list
     \<Rightarrow> response \<times> rate_limiter option \<times> observation list" where
  "serve_request available now rid app q = (\<lambda>(lmt, obs).
     case rl_dispatch now (rq_method q) (rq_path q) (rq_client q) lmt of
       (TooManyRequests window, lmt') \<Rightarrow> (security_headers (too_many window), lmt', obs)
     | (CallNext, lmt') \<Rightarrow>
         (case size_limit (request_id available rid app) q obs of
            (None, obs') \<Rightarrow> (unhandled_exception_handler, lmt', obs')
          | (Some r, obs') \<Rightarrow> (security_headers r, lmt', obs')))"

section \<open>Probes\<close>

text \<open>\<open>connects\<close>: a connection is made; \<open>answers\<close>: the test query succeeds.\<close>

definition check_db_connection :: "exn + unit \<Rightarrow> bool" where
  "check_db_connection query_result = (case query_result of Inl _ \<Rightarrow> False | Inr _ \<Rightarrow> True)"

definition health_check :: "string \<Rightarrow> string \<Rightarrow> bool \<Rightarrow> exn + unit \<Rightarrow> response" where
  "health_check name version connects query_result =
     (let ok = connects \<and> check_db_connection query_result
      in \<lparr>rs_status = (if ok then 200 else 503), rs_headers = [],
          rs_body = [(''status'', PStr (if ok then ''ok'' else ''degraded'')), (''service'', PStr name),
            (''version'', PStr version), (''database'', PStr (if ok then ''ok'' else ''unavailable''))]\<rparr>)"

definition api_root :: "string \<Rightarrow> string \<Rightarrow> (string, pyval) dict" where
  "api_root name version =
     [(''message'', PStr (''Welcome to '' @ name)), (''version'', PStr version), (''docs'', PStr ''/docs'')]"

definition metrics_response :: "string option \<Rightarrow> string + response" where
  "metrics_response body =
     (case body of
        Some b \<Rightarrow> Inl b
      | None \<Rightarrow> Inr \<lparr>rs_status = 503, rs_headers = [],
          rs_body = error_body (PStr ''Metrics unavailable: prometheus-client is not installed'') ''service_unavailable'' 503\<rparr>)"

section \<open>Properties\<close>

lemma status_of_kinds: "400 \<le> status_of k \<and> status_of k < 600"
  by (simp add: status_of_def split: app_kind.split)

text \<open>
  Every error body has the shape the clients rely on, and its status code is that of its response: for the
  application's errors, for validation errors, whose contexts hold only scalars, and for any other.
\<close>

theorem error_bodies_agree_with_status:
  "dict_get (rs_body (app_error_handler e)) ''status_code'' = Some (PInt (int (rs_status (app_error_handler e)))) \<and>
   dict_get (rs_body (app_error_handler e)) ''error_code'' = Some (PStr (ae_code e)) \<and>
   dict_get (rs_body (validation_error_handler str_of errs)) ''status_code'' =
     Some (PInt (int (rs_status (validation_error_handler str_of errs)))) \<and>
   dict_get (rs_body unhandled_exception_handler) ''status_code'' = Some (PInt (int (rs_status unhandled_exception_handler))) \<and>
   (case dict_get (sanitize_validation_error str_of err) ''ctx'' of
      Some (PDict d) \<Rightarrow> list_all (\<lambda>(k, v). scalar v) d | v \<Rightarrow> v = dict_get err ''ctx'')"
proof -
  have ctx: "case dict_get (sanitize_validation_error str_of err) ''ctx'' of
      Some (PDict d) \<Rightarrow> list_all (\<lambda>(k, v). scalar v) d | v \<Rightarrow> v = dict_get err ''ctx''"
    by (auto simp: sanitize_validation_error_def scalar_def list_all_iff split: option.split pyval.split list.split)
  show ?thesis
    using ctx by (simp add: app_error_handler_def app_error_to_dict_def error_body_def validation_error_handler_def
        unhandled_exception_handler_def)
qed

definition header_get :: "string \<Rightarrow> (string \<times> string) list \<Rightarrow> string option" where
  "header_get n hs = map_option snd (List.find (\<lambda>(m, _). py_lower m = py_lower n) hs)"

lemma header_get_Cons:
  "header_get n ((m, v) # hs) = (if py_lower m = py_lower n then Some v else header_get n hs)"
  by (simp add: header_get_def)

lemma set_header_Cons:
  "set_header n v ((m, x) # hs) =
     (if py_lower m = py_lower n then (m, v) # filter (\<lambda>(k, _). py_lower k \<noteq> py_lower n) hs
      else (m, x) # set_header n v hs)"
  by (simp add: set_header_def Let_def)

lemma header_get_filter:
  "py_lower k \<noteq> py_lower n \<Longrightarrow> header_get k (filter (\<lambda>(m, _). py_lower m \<noteq> py_lower n) hs) = header_get k hs"
  by (induction hs) (auto simp: header_get_def)

lemma header_get_set:
  "header_get k (set_header n v hs) = (if py_lower k = py_lower n then Some v else header_get k hs)"
proof (induction hs)
  case Nil
  show ?case by (auto simp: set_header_def header_get_def)
next
  case (Cons p hs)
  obtain m x where p: "p = (m, x)" by fastforce
  show ?case using Cons.IH by (auto simp: p set_header_Cons header_get_Cons header_get_filter)
qed

lemma set_header_keeps:
  "py_lower k \<noteq> py_lower n \<Longrightarrow> (k, x) \<in> set hs \<Longrightarrow> (k, x) \<in> set (set_header n v hs)"
  by (induction hs) (auto simp: set_header_Cons split: if_splits)

lemma header_get_fold:
  "distinct (map (py_lower \<circ> fst) ps) \<Longrightarrow>
     header_get k (fold (\<lambda>(n, v). set_header n v) ps hs) =
       (case List.find (\<lambda>(n, _). py_lower n = py_lower k) ps of Some (_, v) \<Rightarrow> Some v | None \<Rightarrow> header_get k hs)"
proof (induction ps arbitrary: hs)
  case (Cons p ps)
  obtain n v where p: "p = (n, v)" by fastforce
  have "List.find (\<lambda>(m, _). py_lower m = py_lower k) ps = None" if "py_lower n = py_lower k"
    using Cons.prems that by (force simp: p find_None_iff)
  then show ?case
    using Cons.IH [of "set_header n v hs"] Cons.prems by (auto simp: p header_get_set split: option.split)
qed simp

lemma fold_headers_keep:
  "list_all (\<lambda>(n, _). py_lower n \<noteq> py_lower k) ps \<Longrightarrow> (k, x) \<in> set hs \<Longrightarrow>
     (k, x) \<in> set (fold (\<lambda>(n, v). set_header n v) ps hs)"
  by (induction ps arbitrary: hs) (auto simp: set_header_keeps)

lemma security_names_distinct: "distinct (map (py_lower \<circ> fst) security_header_list)"
  by code_simp

lemma request_id_is_no_security_header:
  "list_all (\<lambda>(n, _). py_lower n \<noteq> py_lower ''X-Request-ID'') security_header_list"
  by code_simp

definition secured :: "response \<Rightarrow> bool" where
  "secured r = list_all (\<lambda>(n, v). header_get n (rs_headers r) = Some v) security_header_list"

lemma security_headers_secured: "secured (security_headers r)"
proof -
  have "header_get n (rs_headers (security_headers r)) = Some v" if "(n, v) \<in> set security_header_list" for n v
  proof -
    have "List.find (\<lambda>(m, _). py_lower m = py_lower n) security_header_list \<noteq> None"
    proof
      assume "List.find (\<lambda>(m, _). py_lower m = py_lower n) security_header_list = None"
      then show False using that unfolding find_None_iff by auto
    qed
    then obtain m w where found: "List.find (\<lambda>(m, _). py_lower m = py_lower n) security_header_list = Some (m, w)"
      by fastforce
    then have "(m, w) \<in> set security_header_list" "py_lower m = py_lower n"
      by (auto simp: find_Some_iff intro: nth_mem)
        (metis nth_mem)
    then have "(m, w) = (n, v)"
      using that security_names_distinct unfolding distinct_map inj_on_def by (metis comp_apply fst_conv)
    then show ?thesis
      using found by (simp add: security_headers_def header_get_fold security_names_distinct)
  qed
  then show ?thesis by (auto simp: secured_def list_all_iff)
qed


lemma logging_set_up_once:
  "setup_logging levels c level' dir' False (setup_logging levels c level dir force s) = setup_logging levels c level dir force s"
  by (simp add: setup_logging_def Let_def)

lemma refused_before_size: "rl_dispatch now (rq_method q) (rq_path q) (rq_client q) lmt = (TooManyRequests w, lmt') \<Longrightarrow>
   rs_status (fst (serve_request available now rid app q (lmt, obs))) = 429"
  by (simp add: serve_request_def security_headers_def too_many_def)

end
