(* ===== verification/Migrations.thy ===== *)
theory Migrations
  imports Prelude
begin

text \<open>
  The database migrations, \<open>alembic/versions\<close>, as lists of schema operations, the order in which their
  revisions are run, and the tables that the ORM declares (\<open>src/db/models.py\<close>). A schema maps a table to its
  columns (name, type, whether it may be null, table it refers to) and indexes; server defaults and the
  primary key \<open>id\<close>, which every table has, are left out. \<open>Mapped[Any]\<close> counts as nullable.
\<close>

section \<open>Schemas\<close>

datatype coltype = IntegerCol | StringCol | TextCol | BooleanCol | FloatCol | JsonCol | TimeCol

record column_def =
  cd_name :: string
  cd_type :: coltype
  cd_null :: bool
  cd_ref :: "string option"

definition required :: "string \<Rightarrow> coltype \<Rightarrow> column_def" where
  "required n t = \<lparr>cd_name = n, cd_type = t, cd_null = False, cd_ref = None\<rparr>"

definition optional :: "string \<Rightarrow> coltype \<Rightarrow> column_def" where
  "optional n t = \<lparr>cd_name = n, cd_type = t, cd_null = True, cd_ref = None\<rparr>"

definition reference :: "string \<Rightarrow> string \<Rightarrow> bool \<Rightarrow> column_def" where
  "reference n t nullable = \<lparr>cd_name = n, cd_type = IntegerCol, cd_null = nullable, cd_ref = Some t\<rparr>"

record table_def =
  td_columns :: "column_def list"
  td_indexes :: "(string \<times> string \<times> bool) list"

type_synonym schema = "(string, table_def) dict"

datatype ddl =
    CreateTable string "column_def list"
  | DropTable string
  | CreateIndex string string string bool
  | DropIndex string string

definition refs_of :: "column_def list \<Rightarrow> string list" where
  "refs_of cols = List.map_filter cd_ref cols"

text \<open>
  An operation fails when the database would refuse it: a table that exists already or refers to one that
  does not, an unknown table, column or index, an index of that name, a table that another one refers to.
\<close>

fun apply_ddl :: "ddl \<Rightarrow> schema \<Rightarrow> exn + schema" where
  "apply_ddl (CreateTable t cols) s =
     (if dict_get s t \<noteq> None \<or> list_ex (\<lambda>r. r \<noteq> t \<and> dict_get s r = None) (refs_of cols) then Inl RuntimeError
      else Inr (s @ [(t, \<lparr>td_columns = cols, td_indexes = []\<rparr>)]))"
| "apply_ddl (DropTable t) s =
     (if dict_get s t = None \<or> list_ex (\<lambda>(u, d). u \<noteq> t \<and> t \<in> set (refs_of (td_columns d))) s then Inl RuntimeError
      else Inr (dict_del t s))"
| "apply_ddl (CreateIndex t i c u) s =
     (case dict_get s t of
        None \<Rightarrow> Inl RuntimeError
      | Some d \<Rightarrow>
          if c \<notin> set (map cd_name (td_columns d)) \<or> i \<in> set (map fst (td_indexes d)) then Inl RuntimeError
          else Inr (dict_mut t (\<lambda>d. d\<lparr>td_indexes := td_indexes d @ [(i, c, u)]\<rparr>) s))"
| "apply_ddl (DropIndex t i) s =
     (case dict_get s t of
        None \<Rightarrow> Inl RuntimeError
      | Some d \<Rightarrow>
          if i \<notin> set (map fst (td_indexes d)) then Inl RuntimeError
          else Inr (dict_mut t (\<lambda>d. d\<lparr>td_indexes := filter (\<lambda>(j, _). j \<noteq> i) (td_indexes d)\<rparr>) s))"

fun apply_all :: "ddl list \<Rightarrow> schema \<Rightarrow> exn + schema" where
  "apply_all [] s = Inr s"
| "apply_all (op # ops) s = (case apply_ddl op s of Inl e \<Rightarrow> Inl e | Inr s' \<Rightarrow> apply_all ops s')"

section \<open>The revisions\<close>

definition upgrade_initial :: "ddl list" where
  "upgrade_initial =
     [CreateTable ''users''
         [required ''id'' IntegerCol, required ''email'' StringCol, required ''username'' StringCol,
          required ''hashed_password'' StringCol, optional ''full_name'' StringCol,
          required ''is_active'' BooleanCol, required ''is_superuser'' BooleanCol,
          required ''is_verified'' BooleanCol, required ''failed_login_attempts'' IntegerCol,
          optional ''lock_until'' TimeCol, optional ''password_reset_token'' StringCol,
          optional ''password_reset_expires'' TimeCol, required ''created_at'' TimeCol,
          optional ''updated_at'' TimeCol],
      CreateIndex ''users'' ''ix_users_email'' ''email'' True,
      CreateIndex ''users'' ''ix_users_id'' ''id'' False,
      CreateIndex ''users'' ''ix_users_username'' ''username'' True,
      CreateTable ''datasets''
         [required ''id'' IntegerCol, required ''name'' StringCol, optional ''description'' TextCol,
          required ''storage_uri'' StringCol, required ''format'' StringCol,
          optional ''row_count'' IntegerCol, optional ''columns'' JsonCol, required ''status'' StringCol,
          required ''created_at'' TimeCol, optional ''updated_at'' TimeCol,
          reference ''created_by'' ''users'' False],
      CreateIndex ''datasets'' ''ix_datasets_id'' ''id'' False,
      CreateIndex ''datasets'' ''ix_datasets_name'' ''name'' False,
      CreateTable ''experiments''
         [required ''id'' IntegerCol, required ''name'' StringCol, optional ''description'' TextCol,
          required ''status'' StringCol, optional ''start_time'' TimeCol, optional ''end_time'' TimeCol,
          optional ''metrics'' JsonCol, optional ''parameters'' JsonCol, required ''created_at'' TimeCol,
          optional ''updated_at'' TimeCol, reference ''created_by'' ''users'' False],
      CreateIndex ''experiments'' ''ix_experiments_id'' ''id'' False,
      CreateIndex ''experiments'' ''ix_experiments_name'' ''name'' False,
      CreateTable ''items''
         [required ''id'' IntegerCol, required ''title'' StringCol, optional ''description'' TextCol,
          reference ''owner_id'' ''users'' False, required ''created_at'' TimeCol,
          optional ''updated_at'' TimeCol],
      CreateIndex ''items'' ''ix_items_id'' ''id'' False,
      CreateIndex ''items'' ''ix_items_title'' ''title'' False,
      CreateTable ''model_metadata''
         [required ''id'' IntegerCol, required ''name'' StringCol, required ''version'' StringCol,
          optional ''description'' TextCol, required ''file_path'' StringCol,
          optional ''file_size'' IntegerCol, optional ''accuracy'' FloatCol,
          required ''created_at'' TimeCol, optional ''updated_at'' TimeCol,
          reference ''created_by'' ''users'' False],
      CreateIndex ''model_metadata'' ''ix_model_metadata_id'' ''id'' False,
      CreateIndex ''model_metadata'' ''ix_model_metadata_name'' ''name'' False]"

definition downgrade_initial :: "ddl list" where
  "downgrade_initial =
     [DropIndex ''model_metadata'' ''ix_model_metadata_name'',
      DropIndex ''model_metadata'' ''ix_model_metadata_id'',
      DropTable ''model_metadata'',
      DropIndex ''items'' ''ix_items_title'',
      DropIndex ''items'' ''ix_items_id'',
      DropTable ''items'',
      DropIndex ''experiments'' ''ix_experiments_name'',
      DropIndex ''experiments'' ''ix_experiments_id'',
      DropTable ''experiments'',
      DropIndex ''datasets'' ''ix_datasets_name'',
      DropIndex ''datasets'' ''ix_datasets_id'',
      DropTable ''datasets'',
      DropIndex ''users'' ''ix_users_username'',
      DropIndex ''users'' ''ix_users_id'',
      DropIndex ''users'' ''ix_users_email'',
      DropTable ''users'']"

definition upgrade_audit :: "ddl list" where
  "upgrade_audit =
     [CreateTable ''audit_log''
         [required ''id'' IntegerCol, required ''tool_name'' StringCol,
          reference ''user_id'' ''users'' True, optional ''arguments'' TextCol,
          required ''success'' BooleanCol, optional ''error'' TextCol, optional ''duration_ms'' FloatCol,
          required ''created_at'' TimeCol],
      CreateIndex ''audit_log'' ''ix_audit_log_id'' ''id'' False,
      CreateIndex ''audit_log'' ''ix_audit_log_tool_name'' ''tool_name'' False,
      CreateTable ''scheduled_jobs''
         [required ''id'' IntegerCol, required ''name'' StringCol, required ''tool_name'' StringCol,
          optional ''arguments'' JsonCol, required ''interval_seconds'' IntegerCol,
          required ''enabled'' BooleanCol, optional ''last_run_at'' TimeCol,
          optional ''last_status'' StringCol, reference ''created_by'' ''users'' True,
          required ''created_at'' TimeCol, optional ''updated_at'' TimeCol],
      CreateIndex ''scheduled_jobs'' ''ix_scheduled_jobs_id'' ''id'' False,
      CreateIndex ''scheduled_jobs'' ''ix_scheduled_jobs_name'' ''name'' True,
      CreateIndex ''scheduled_jobs'' ''ix_scheduled_jobs_tool_name'' ''tool_name'' False]"

definition downgrade_audit :: "ddl list" where
  "downgrade_audit =
     [DropIndex ''scheduled_jobs'' ''ix_scheduled_jobs_tool_name'',
      DropIndex ''scheduled_jobs'' ''ix_scheduled_jobs_name'',
      DropIndex ''scheduled_jobs'' ''ix_scheduled_jobs_id'',
      DropTable ''scheduled_jobs'',
      DropIndex ''audit_log'' ''ix_audit_log_tool_name'',
      DropIndex ''audit_log'' ''ix_audit_log_id'',
      DropTable ''audit_log'']"

definition upgrade_refresh :: "ddl list" where
  "upgrade_refresh =
     [CreateTable ''refresh_tokens''
         [required ''id'' IntegerCol, required ''token'' StringCol, reference ''user_id'' ''users'' False,
          required ''expires_at'' TimeCol, required ''revoked'' BooleanCol, required ''created_at'' TimeCol],
      CreateIndex ''refresh_tokens'' ''ix_refresh_tokens_id'' ''id'' False,
      CreateIndex ''refresh_tokens'' ''ix_refresh_tokens_token'' ''token'' True,
      CreateIndex ''refresh_tokens'' ''ix_refresh_tokens_user_id'' ''user_id'' False]"

definition downgrade_refresh :: "ddl list" where
  "downgrade_refresh =
     [DropIndex ''refresh_tokens'' ''ix_refresh_tokens_user_id'',
      DropIndex ''refresh_tokens'' ''ix_refresh_tokens_token'',
      DropIndex ''refresh_tokens'' ''ix_refresh_tokens_id'',
      DropTable ''refresh_tokens'']"


record revision =
  rv_id :: string
  rv_down :: "string option"
  rv_upgrade :: "ddl list"
  rv_downgrade :: "ddl list"

definition revisions :: "revision list" where
  "revisions =
     [\<lparr>rv_id = ''96af740d1ab7'', rv_down = Some ''bee0e33979a7'', rv_upgrade = upgrade_audit, rv_downgrade = downgrade_audit\<rparr>,
      \<lparr>rv_id = ''add_refresh_tokens_table'', rv_down = Some ''96af740d1ab7'', rv_upgrade = upgrade_refresh,
       rv_downgrade = downgrade_refresh\<rparr>,
      \<lparr>rv_id = ''bee0e33979a7'', rv_down = None, rv_upgrade = upgrade_initial, rv_downgrade = downgrade_initial\<rparr>]"

text \<open>The revisions are run along their \<open>down_revision\<close> links, from the one that has none.\<close>

fun revision_chain :: "nat \<Rightarrow> string option \<Rightarrow> revision list \<Rightarrow> revision list" where
  "revision_chain 0 at_rev revs = []"
| "revision_chain (Suc n) at_rev revs =
     (case List.find (\<lambda>r. rv_down r = at_rev) revs of None \<Rightarrow> [] | Some r \<Rightarrow> r # revision_chain n (Some (rv_id r)) revs)"

definition upgrade_head :: "schema \<Rightarrow> exn + schema" where
  "upgrade_head s = apply_all (concat (map rv_upgrade (revision_chain (length revisions) None revisions))) s"

definition downgrade_base :: "schema \<Rightarrow> exn + schema" where
  "downgrade_base s = apply_all (concat (map rv_downgrade (rev (revision_chain (length revisions) None revisions)))) s"

section \<open>The tables of the ORM\<close>

definition model_tables :: schema where
  "model_tables =
     [(''users'', \<lparr>td_columns =
         [required ''id'' IntegerCol, required ''email'' StringCol, required ''username'' StringCol,
          required ''hashed_password'' StringCol, optional ''full_name'' StringCol,
          required ''is_active'' BooleanCol, required ''is_superuser'' BooleanCol,
          required ''is_verified'' BooleanCol, required ''failed_login_attempts'' IntegerCol,
          optional ''lock_until'' TimeCol, optional ''password_reset_token'' StringCol,
          optional ''hashed_reset_token'' StringCol, optional ''password_reset_expires'' TimeCol,
          required ''created_at'' TimeCol, optional ''updated_at'' TimeCol],
        td_indexes = [(''ix_users_id'', ''id'', False), (''ix_users_email'', ''email'', True), (''ix_users_username'', ''username'', True)]\<rparr>),
      (''items'', \<lparr>td_columns =
         [required ''id'' IntegerCol, required ''title'' StringCol, optional ''description'' TextCol,
          reference ''owner_id'' ''users'' False, required ''created_at'' TimeCol,
          optional ''updated_at'' TimeCol],
        td_indexes = [(''ix_items_id'', ''id'', False), (''ix_items_title'', ''title'', False)]\<rparr>),
      (''model_metadata'', \<lparr>td_columns =
         [required ''id'' IntegerCol, required ''name'' StringCol, required ''version'' StringCol,
          optional ''description'' TextCol, required ''file_path'' StringCol,
          optional ''file_size'' IntegerCol, optional ''accuracy'' FloatCol,
          required ''created_at'' TimeCol, optional ''updated_at'' TimeCol,
          reference ''created_by'' ''users'' False],
        td_indexes = [(''ix_model_metadata_id'', ''id'', False), (''ix_model_metadata_name'', ''name'', False)]\<rparr>),
      (''experiments'', \<lparr>td_columns =
         [required ''id'' IntegerCol, required ''name'' StringCol, optional ''description'' TextCol,
          required ''status'' StringCol, optional ''start_time'' TimeCol, optional ''end_time'' TimeCol,
          optional ''metrics'' JsonCol, optional ''parameters'' JsonCol, required ''created_at'' TimeCol,
          optional ''updated_at'' TimeCol, reference ''created_by'' ''users'' False],
        td_indexes = [(''ix_experiments_id'', ''id'', False), (''ix_experiments_name'', ''name'', False), (''ix_experiments_status'', ''status'', False)]\<rparr>),
      (''audit_log'', \<lparr>td_columns =
         [required ''id'' IntegerCol, required ''tool_name'' StringCol,
          reference ''user_id'' ''users'' True, optional ''arguments'' TextCol,
          required ''success'' BooleanCol, optional ''error'' TextCol, optional ''duration_ms'' FloatCol,
          required ''created_at'' TimeCol],
        td_indexes = [(''ix_audit_log_id'', ''id'', False), (''ix_audit_log_tool_name'', ''tool_name'', False)]\<rparr>),
      (''prediction_log'', \<lparr>td_columns =
         [required ''id'' IntegerCol, required ''model_version'' StringCol,
          required ''features'' JsonCol, optional ''prediction'' JsonCol,
          optional ''probabilities'' JsonCol, required ''latency_ms'' FloatCol,
          required ''created_at'' TimeCol, reference ''user_id'' ''users'' True],
        td_indexes = [(''ix_prediction_log_id'', ''id'', False), (''ix_prediction_log_model_version'', ''model_version'', False), (''ix_prediction_log_created_at'', ''created_at'', False)]\<rparr>),
      (''scheduled_jobs'', \<lparr>td_columns =
         [required ''id'' IntegerCol, required ''name'' StringCol, required ''tool_name'' StringCol,
          optional ''arguments'' JsonCol, required ''interval_seconds'' IntegerCol,
          optional ''trigger_condition'' StringCol, required ''enabled'' BooleanCol,
          optional ''last_run_at'' TimeCol, optional ''last_status'' StringCol,
          reference ''created_by'' ''users'' True, required ''created_at'' TimeCol,
          optional ''updated_at'' TimeCol],
        td_indexes = [(''ix_scheduled_jobs_id'', ''id'', False), (''ix_scheduled_jobs_name'', ''name'', True), (''ix_scheduled_jobs_tool_name'', ''tool_name'', False)]\<rparr>),
      (''datasets'', \<lparr>td_columns =
         [required ''id'' IntegerCol, required ''name'' StringCol, optional ''description'' TextCol,
          required ''storage_uri'' StringCol, required ''format'' StringCol,
          optional ''row_count'' IntegerCol, optional ''columns'' JsonCol, required ''status'' StringCol,
          required ''created_at'' TimeCol, optional ''updated_at'' TimeCol,
          reference ''created_by'' ''users'' False],
        td_indexes = [(''ix_datasets_id'', ''id'', False), (''ix_datasets_name'', ''name'', False), (''ix_datasets_status'', ''status'', False)]\<rparr>),
      (''refresh_tokens'', \<lparr>td_columns =
         [required ''id'' IntegerCol, required ''token'' StringCol,
          reference ''user_id'' ''users'' False, required ''expires_at'' TimeCol,
          required ''revoked'' BooleanCol, required ''created_at'' TimeCol],
        td_indexes = [(''ix_refresh_tokens_id'', ''id'', False), (''ix_refresh_tokens_token'', ''token'', True), (''ix_refresh_tokens_user_id'', ''user_id'', False)]\<rparr>)]"

text \<open>What a schema lacks of another: by table, the columns and the indexes that it does not have alike.\<close>

definition lacking :: "schema \<Rightarrow> schema \<Rightarrow> (string \<times> string list \<times> string list) list" where
  "lacking wanted s =
     filter (\<lambda>(_, cs, is). cs \<noteq> [] \<or> is \<noteq> [])
       (map (\<lambda>(t, d).
          (t, map cd_name (filter (\<lambda>c. case dict_get s t of None \<Rightarrow> True | Some e \<Rightarrow> c \<notin> set (td_columns e)) (td_columns d)),
           map fst (filter (\<lambda>i. case dict_get s t of None \<Rightarrow> True | Some e \<Rightarrow> i \<notin> set (td_indexes e)) (td_indexes d))))
        wanted)"

section \<open>Properties\<close>

fun creates :: "ddl \<Rightarrow> bool" where
  "creates (CreateTable t cols) = True"
| "creates (CreateIndex t i c u) = True"
| "creates _ = False"

fun undo :: "ddl \<Rightarrow> ddl" where
  "undo (CreateTable t cols) = DropTable t"
| "undo (CreateIndex t i c u) = DropIndex t i"
| "undo op = op"

definition closed_schema :: "schema \<Rightarrow> bool" where
  "closed_schema s \<longleftrightarrow> dict_wf s \<and>
     (\<forall>u d r. (u, d) \<in> set s \<longrightarrow> r \<in> set (refs_of (td_columns d)) \<longrightarrow> r \<noteq> u \<longrightarrow> dict_get s r \<noteq> None)"

lemma undo_table:
  assumes "closed_schema s" "apply_ddl (CreateTable t cols) s = Inr s'"
  shows "apply_ddl (DropTable t) s' = Inr s \<and> closed_schema s'"
proof -
  have fresh: "dict_get s t = None" and s': "s' = dict_put t \<lparr>td_columns = cols, td_indexes = []\<rparr> s"
    and refs: "\<And>r. r \<in> set (refs_of cols) \<Longrightarrow> r \<noteq> t \<Longrightarrow> dict_get s r \<noteq> None"
    using assms(2) by (auto simp: dict_put_absent list_ex_iff split: if_splits)
  have wf: "dict_wf s'" using assms(1) by (simp add: s' closed_schema_def)
  have entries: "set s' = insert (t, \<lparr>td_columns = cols, td_indexes = []\<rparr>) (set s)"
    using fresh by (simp add: s' dict_put_absent)
  have "False" if "(u, d) \<in> set s" "u \<noteq> t" "t \<in> set (refs_of (td_columns d))" for u d
    using assms(1) [unfolded closed_schema_def] fresh that by blast
  then have "\<not> list_ex (\<lambda>(u, d). u \<noteq> t \<and> t \<in> set (refs_of (td_columns d))) s'"
    by (auto simp: list_ex_iff entries)
  moreover have "closed_schema s'"
    using assms(1) refs wf unfolding closed_schema_def entries by (auto simp: s')
  ultimately show ?thesis using fresh by (simp add: s' dict_del_put_absent dict_del_absent)
qed

lemma undo_index:
  assumes "closed_schema s" "apply_ddl (CreateIndex t i c u) s = Inr s'"
  shows "apply_ddl (DropIndex t i) s' = Inr s \<and> closed_schema s'"
proof -
  obtain d where d: "dict_get s t = Some d" "i \<notin> set (map fst (td_indexes d))"
      and s': "s' = dict_mut t (\<lambda>d. d\<lparr>td_indexes := td_indexes d @ [(i, c, u)]\<rparr>) s"
    using assms(2) by (auto split: option.splits if_splits)
  have "filter (\<lambda>(j, _). j \<noteq> i) (td_indexes d) = td_indexes d"
    using d(2) by (force simp: filter_id_conv)
  moreover have "b = d" if "(t, b) \<in> set s" for b
    using that d(1) assms(1) by (simp add: closed_schema_def dict_mem_get)
  ultimately have "b\<lparr>td_indexes := filter (\<lambda>(j, _). j \<noteq> i) (td_indexes b)\<rparr> = b" if "(t, b) \<in> set s" for b
    using that by simp
  then have "dict_mut t (\<lambda>d. d\<lparr>td_indexes := filter (\<lambda>(j, _). j \<noteq> i) (td_indexes d)\<rparr>) s' = s"
    by (auto simp: s' dict_mut_def intro!: map_idI)
  moreover have "closed_schema s'"
    unfolding closed_schema_def
  proof (intro conjI allI impI)
    show "dict_wf s'" using assms(1) by (simp add: s' closed_schema_def)
    fix v e r
    assume e: "(v, e) \<in> set s'" "r \<in> set (refs_of (td_columns e))" "r \<noteq> v"
    then obtain d' where "(v, d') \<in> set s" "td_columns e = td_columns d'"
      by (auto simp: s' dict_mut_def)
    then have "dict_get s r \<noteq> None" using assms(1) e unfolding closed_schema_def by metis
    then show "dict_get s' r \<noteq> None" by (auto simp: s')
  qed
  ultimately show ?thesis using d(1) by (simp add: s')
qed

lemma apply_all_append:
  "apply_all (xs @ ys) s = (case apply_all xs s of Inl e \<Rightarrow> Inl e | Inr s' \<Rightarrow> apply_all ys s')"
  by (induction xs arbitrary: s) (auto split: sum.split)

lemma undo_one:
  assumes "closed_schema s" "creates op" "apply_ddl op s = Inr s'"
  shows "apply_ddl (undo op) s' = Inr s \<and> closed_schema s'"
proof (cases op)
  case (CreateTable t cols)
  show ?thesis
    unfolding CreateTable undo.simps by (rule undo_table [OF assms(1) assms(3) [unfolded CreateTable]])
next
  case (CreateIndex t i c u)
  show ?thesis
    unfolding CreateIndex undo.simps by (rule undo_index [OF assms(1) assms(3) [unfolded CreateIndex]])
qed (use assms(2) in simp_all)

lemma undo_all:
  "closed_schema s \<Longrightarrow> list_all creates ops \<Longrightarrow> apply_all ops s = Inr s' \<Longrightarrow>
     apply_all (rev (map undo ops)) s' = Inr s \<and> closed_schema s'"
proof (induction ops arbitrary: s)
  case (Cons op ops)
  obtain s1 where s1: "apply_ddl op s = Inr s1" "apply_all ops s1 = Inr s'"
    using Cons.prems(3) by (auto split: sum.splits)
  have one: "apply_ddl (undo op) s1 = Inr s \<and> closed_schema s1"
    using Cons.prems(1,2) s1(1) by (intro undo_one) simp_all
  then show ?case using Cons.IH [OF _ _ s1(2)] Cons.prems(2) by (simp add: apply_all_append)
qed simp

lemma downgrades_undo:
  "downgrade_initial = rev (map undo upgrade_initial)" "downgrade_audit = rev (map undo upgrade_audit)"
  "downgrade_refresh = rev (map undo upgrade_refresh)"
  by (simp_all add: downgrade_initial_def upgrade_initial_def downgrade_audit_def upgrade_audit_def
      downgrade_refresh_def upgrade_refresh_def)

lemma upgrades_create: "list_all creates upgrade_initial" "list_all creates upgrade_audit" "list_all creates upgrade_refresh"
  by (simp_all add: upgrade_initial_def upgrade_audit_def upgrade_refresh_def)

lemma chain_order: "map rv_upgrade (revision_chain (length revisions) None revisions) = [upgrade_initial, upgrade_audit, upgrade_refresh]"
  "map rv_downgrade (revision_chain (length revisions) None revisions) = [downgrade_initial, downgrade_audit, downgrade_refresh]"
  by (simp_all add: revisions_def)

text \<open>
  C14. The downgrade of every revision undoes its upgrade: from any schema whose references are closed on
  which the upgrade to the head succeeds, the downgrade to the base leads back to that very schema.
\<close>

theorem downgrade_inverts_upgrade:
  assumes "closed_schema s" "upgrade_head s = Inr s'"
  shows "downgrade_base s' = Inr s"
proof -
  have "list_all creates (upgrade_initial @ upgrade_audit @ upgrade_refresh)"
    by (simp add: upgrades_create)
  moreover have "apply_all (upgrade_initial @ upgrade_audit @ upgrade_refresh) s = Inr s'"
    using assms(2) by (simp add: upgrade_head_def chain_order)
  ultimately have "apply_all (rev (map undo (upgrade_initial @ upgrade_audit @ upgrade_refresh))) s' = Inr s"
    using undo_all [OF assms(1)] by blast
  then show ?thesis
    by (simp add: downgrade_base_def rev_map [symmetric] chain_order downgrades_undo)
qed

definition head_schema :: schema where
  "head_schema = (case upgrade_head [] of Inr s \<Rightarrow> s | Inl _ \<Rightarrow> [])"

lemma upgrade_succeeds: "upgrade_head [] = Inr head_schema"
  by code_simp

theorem downgrade_inverts_upgrade_witness: "downgrade_base head_schema = Inr []"
  by (rule downgrade_inverts_upgrade [OF _ upgrade_succeeds]) (simp add: closed_schema_def)

text \<open>
  A migrated database is not the one the ORM declares: it lacks the table of the prediction log, a column
  of the users and one of the scheduled jobs, which every query of them selects, and two indexes; it has
  nothing that the ORM does not declare.
\<close>

theorem migrated_schema_lacks_columns:
  "lacking model_tables head_schema =
     [(''users'', [''hashed_reset_token''], []), (''experiments'', [], [''ix_experiments_status'']),
      (''prediction_log'', [''id'', ''model_version'', ''features'', ''prediction'', ''probabilities'', ''latency_ms'',
         ''created_at'', ''user_id''],
       [''ix_prediction_log_id'', ''ix_prediction_log_model_version'', ''ix_prediction_log_created_at'']),
      (''scheduled_jobs'', [''trigger_condition''], []), (''datasets'', [], [''ix_datasets_status''])] \<and>
   lacking head_schema model_tables = []"
  by code_simp

section \<open>Creating the declared tables directly\<close>

text \<open>
  \<open>Base.metadata.create_all\<close>, which \<open>init_db\<close> of \<open>src/db/database.py\<close> calls: each declared table with its indexes
  unless a table of that name exists, which is left as it is.
\<close>

fun create_missing :: "schema \<Rightarrow> schema \<Rightarrow> schema" where
  "create_missing [] s = s"
| "create_missing ((t, d) # wanted) s = create_missing wanted (if dict_get s t = None then dict_put t d s else s)"

definition init_db :: "schema \<Rightarrow> schema" where
  "init_db s = create_missing model_tables s"

lemma create_missing_get:
  "dict_wf wanted \<Longrightarrow>
     dict_get (create_missing wanted s) t = (case dict_get s t of Some d \<Rightarrow> Some d | None \<Rightarrow> dict_get wanted t)"
proof (induction wanted arbitrary: s)
  case (Cons p wanted)
  obtain u d where p: "p = (u, d)" by fastforce
  have "dict_wf wanted" "dict_get wanted u = None" using Cons.prems p by (auto simp: dict_wf_def dict_get_def map_of_eq_None_iff)
  then show ?case
    using Cons.IH [of "if dict_get s u = None then dict_put u d s else s"] p
    by (auto simp: dict_get_def dict_put_def update_conv' split: option.split)
qed (simp add: dict_get_def split: option.split)

lemma model_tables_wf: "dict_wf model_tables"
  by code_simp

text \<open>
  Creating the tables directly gives an empty database the declared schema, never changes a table that exists,
  and is idempotent; on a migrated database it adds the prediction log, and the missing columns stay missing.
\<close>

theorem init_db_adds_tables_only:
  "dict_get (init_db s) t = (case dict_get s t of Some d \<Rightarrow> Some d | None \<Rightarrow> dict_get model_tables t) \<and>
   dict_get (init_db (init_db s)) t = dict_get (init_db s) t \<and> init_db [] = model_tables \<and>
   lacking model_tables (init_db head_schema) =
     [(''users'', [''hashed_reset_token''], []), (''experiments'', [], [''ix_experiments_status'']),
      (''scheduled_jobs'', [''trigger_condition''], []), (''datasets'', [], [''ix_datasets_status''])]"
proof -
  have get: "dict_get (init_db s) t = (case dict_get s t of Some d \<Rightarrow> Some d | None \<Rightarrow> dict_get model_tables t)" for s
    unfolding init_db_def by (rule create_missing_get [OF model_tables_wf])
  have "init_db [] = model_tables" by code_simp
  moreover have "lacking model_tables (init_db head_schema) =
     [(''users'', [''hashed_reset_token''], []), (''experiments'', [], [''ix_experiments_status'']),
      (''scheduled_jobs'', [''trigger_condition''], []), (''datasets'', [], [''ix_datasets_status''])]" by code_simp
  ultimately show ?thesis by (auto simp: get split: option.split)
qed

end
