(* ===== verification/Startup.thy ===== *)
theory Startup
  imports Api Migrations
begin

text \<open>
  What runs before the first request: the start-up hook and the middlewares of the application
  (\<open>src/api/main.py\<close>), the commands \<open>init-db\<close> and \<open>serve\<close> (\<open>src/cli/main.py\<close>), and the migration environment
  (\<open>alembic/env.py\<close>), which passes the database address through a configuration file parser.
\<close>

section \<open>The application\<close>

record app_process =
  pr_logging :: logging
  pr_schema :: schema
  pr_lines :: "string list"

text \<open>The tables are created at start-up only for an address that mentions SQLite.\<close>

definition lifespan_start ::
    "(string \<Rightarrow> int option) \<Rightarrow> string \<Rightarrow> string \<Rightarrow> string \<Rightarrow> string \<Rightarrow> app_process \<Rightarrow> app_process" where
  "lifespan_start levels log_level url app_name version p =
     p\<lparr>pr_logging := setup_logging levels log_level (Some log_level) None False (pr_logging p),
       pr_schema := (if py_in ''sqlite'' url then init_db (pr_schema p) else pr_schema p),
       pr_lines := pr_lines p @ [app_name @ '' v'' @ version @ '' starting'']\<rparr>"

definition lifespan_end :: "string \<Rightarrow> app_process \<Rightarrow> app_process" where
  "lifespan_end app_name p = p\<lparr>pr_lines := pr_lines p @ [app_name @ '' shutting down'']\<rparr>"

text \<open>The middlewares in the order in which they are added; the last one is the outermost.\<close>

datatype middleware = Cors "string list" | RequestId | RequestSizeLimit | RateLimited | SecurityHeaders

definition added_middlewares :: "string list \<Rightarrow> bool \<Rightarrow> middleware list" where
  "added_middlewares origins limited =
     (if origins \<noteq> [] then [Cors origins] else []) @ [RequestId, RequestSizeLimit] @
     (if limited then [RateLimited] else []) @ [SecurityHeaders]"

definition application_middlewares :: "string option \<Rightarrow> string list \<Rightarrow> string \<Rightarrow> bool \<Rightarrow> middleware list" where
  "application_middlewares var configured env limited = added_middlewares (allowed_origins var configured env) limited"

section \<open>Commands\<close>

fun join_names :: "string list \<Rightarrow> string" where
  "join_names [] = []"
| "join_names [x] = x"
| "join_names (x # y # xs) = x @ '', '' @ join_names (y # xs)"

definition str_le :: "string \<Rightarrow> string \<Rightarrow> bool" where
  "str_le a b \<longleftrightarrow> (a = b \<or> (a, b) \<in> lexord {(x, y). (of_char x :: nat) < of_char y})"

fun insert_name :: "string \<Rightarrow> string list \<Rightarrow> string list" where
  "insert_name x [] = [x]"
| "insert_name x (y # ys) = (if str_le x y then x # y # ys else y # insert_name x ys)"

definition sorted_names :: "string list \<Rightarrow> string list" where
  "sorted_names xs = foldr insert_name xs []"

definition init_db_command :: "string \<Rightarrow> schema \<Rightarrow> string list \<times> schema" where
  "init_db_command url s =
     ([''Database ready at '' @ url, ''Tables: '' @ join_names (sorted_names (map fst model_tables))], init_db s)"

text \<open>An empty host and the port 0 fall back on the settings.\<close>

record server_args =
  sv_app :: string
  sv_host :: string
  sv_port :: int
  sv_reload :: bool

definition serve_command :: "string \<Rightarrow> int \<Rightarrow> string option \<Rightarrow> int option \<Rightarrow> bool \<Rightarrow> server_args" where
  "serve_command default_host default_port host port reload =
     \<lparr>sv_app = ''src.api.main:app'',
      sv_host = (case host of Some (c # h) \<Rightarrow> c # h | _ \<Rightarrow> default_host),
      sv_port = (case port of Some p \<Rightarrow> if p = 0 then default_port else p | None \<Rightarrow> default_port),
      sv_reload = reload\<rparr>"

section \<open>The migration environment\<close>

text \<open>
  The parser of configuration files refuses a value with a percent sign that is neither doubled nor the start of a
  reference \<open>%(name)s\<close>; reading a value undoes the doubling and replaces the references.
\<close>

fun drop_doubled :: "string \<Rightarrow> string" where
  "drop_doubled (a # b # s) =
     (if a = CHR ''%'' \<and> b = CHR ''%'' then drop_doubled s else a # drop_doubled (b # s))"
| "drop_doubled s = s"

definition reference_end :: "string \<Rightarrow> (string \<times> string) option" where
  "reference_end s =
     (case s of
        a # b # t \<Rightarrow>
          (let name = takeWhile (\<lambda>c. c \<noteq> CHR '')'') t; rest = dropWhile (\<lambda>c. c \<noteq> CHR '')'') t
           in if a = CHR ''%'' \<and> b = CHR ''('' \<and> name \<noteq> [] \<and> prefix '')s'' rest then Some (name, drop 2 rest) else None)
      | _ \<Rightarrow> None)"

lemma reference_end_shorter: "reference_end s = Some (n, r) \<Longrightarrow> length r < length s"
proof -
  assume "reference_end s = Some (n, r)"
  then obtain a b t where s: "s = a # b # t" and r: "r = drop 2 (dropWhile (\<lambda>c. c \<noteq> CHR '')'') t)"
    by (auto simp: reference_end_def Let_def split: list.splits if_splits)
  have "length (dropWhile (\<lambda>c. c \<noteq> CHR '')'') t) \<le> length t" by (rule length_dropWhile_le)
  then show ?thesis by (simp add: s r)
qed

function drop_references :: "string \<Rightarrow> string" where
  "drop_references [] = []"
| "drop_references (c # s) =
     (case reference_end (c # s) of None \<Rightarrow> c # drop_references s | Some (_, r) \<Rightarrow> drop_references r)"
  by pat_completeness auto
termination
  by (relation "measure length") (auto dest: reference_end_shorter)

definition interpolation_ok :: "string \<Rightarrow> bool" where
  "interpolation_ok s \<longleftrightarrow> CHR ''%'' \<notin> set (drop_references (drop_doubled s))"

text \<open>The settings' address is set as an option; the import of the environment fails if it is refused.\<close>

datatype migration_run =
    Offline "string option" bool
  | Online bool

definition migration_env :: "bool \<Rightarrow> string \<Rightarrow> (string \<Rightarrow> exn + string) \<Rightarrow> bool \<Rightarrow> exn + migration_run" where
  "migration_env offline url get_option dialect_sqlite =
     (if \<not> interpolation_ok url then Inl ValueError
      else if offline then
        (case get_option url of Inl e \<Rightarrow> Inl e | Inr u \<Rightarrow> Inr (Offline (Some u) (prefix ''sqlite'' u)))
      else (case get_option url of Inl e \<Rightarrow> Inl e | Inr u \<Rightarrow> Inr (Online dialect_sqlite)))"

section \<open>Properties\<close>

text \<open>
  Starting the application creates every declared table that is missing when the address mentions SQLite and never touches a
  table otherwise; it never changes a table that exists.
\<close>

theorem startup_creates_tables_on_sqlite_only:
  "dict_get (pr_schema (lifespan_start levels log_level url app_name version p)) t =
     (case dict_get (pr_schema p) t of
        Some d \<Rightarrow> Some d
      | None \<Rightarrow> if py_in ''sqlite'' url then dict_get model_tables t else None)"
proof -
  have "dict_get (init_db s) t = (case dict_get s t of Some d \<Rightarrow> Some d | None \<Rightarrow> dict_get model_tables t)" for s
    unfolding init_db_def by (rule create_missing_get [OF model_tables_wf])
  then show ?thesis by (simp add: lifespan_start_def split: option.split)
qed

text \<open>The headers are set outside every other middleware, and without origins no cross-origin answer is given.\<close>

lemma outermost_middleware: "last (added_middlewares origins limited) = SecurityHeaders"
  by (simp add: added_middlewares_def)

lemma production_without_origins:
  "application_middlewares None [] ''production'' limited =
     [RequestId, RequestSizeLimit] @ (if limited then [RateLimited] else []) @ [SecurityHeaders]"
  by (simp add: application_middlewares_def added_middlewares_def allowed_origins_def cors_origins_def stripped_entries_def
      is_production_def py_lower_def py_lower_char_def py_strip_def py_lstrip_def py_rstrip_def)

lemma percent_kept:
  "CHR ''%'' \<notin> set s \<Longrightarrow> interpolation_ok s"
proof -
  assume s: "CHR ''%'' \<notin> set s"
  have "drop_doubled s = s" if "CHR ''%'' \<notin> set s" for s
    using that by (induction s rule: drop_doubled.induct) auto
  moreover have "drop_references s = s" if "CHR ''%'' \<notin> set s" for s
    using that by (induction s) (auto simp: reference_end_def split: list.splits)
  ultimately show ?thesis using s by (simp add: interpolation_ok_def)
qed

text \<open>
  Every address without a percent sign can be migrated as far as the configuration file goes; one whose
  password has an encoded character cannot, offline or online, although the application accepts it.
\<close>

theorem encoded_addresses_cannot_be_migrated:
  assumes "CHR ''%'' \<notin> set url"
  shows "migration_env offline url Inr dialect_sqlite =
      Inr (if offline then Offline (Some url) (prefix ''sqlite'' url) else Online dialect_sqlite) \<and>
    migration_env offline ''postgresql://u:p%40ss@db/app'' get_option dialect_sqlite = Inl ValueError \<and>
    en_url (hd (dm_engines (import_database ''postgresql://u:p%40ss@db/app''))) = ''postgresql://u:p%40ss@db/app''"
proof (intro conjI)
  show "migration_env offline url Inr dialect_sqlite =
      Inr (if offline then Offline (Some url) (prefix ''sqlite'' url) else Online dialect_sqlite)"
    using percent_kept [OF assms] by (simp add: migration_env_def)
  have "\<not> interpolation_ok ''postgresql://u:p%40ss@db/app''" by code_simp
  then show "migration_env offline ''postgresql://u:p%40ss@db/app'' get_option dialect_sqlite = Inl ValueError"
    by (simp add: migration_env_def)
qed (simp add: import_database_def)

theorem encoded_addresses_cannot_be_migrated_witness:
  "migration_env True ''sqlite:///app.db'' Inr False = Inr (Offline (Some ''sqlite:///app.db'') True)"
proof -
  have "CHR ''%'' \<notin> set ''sqlite:///app.db''" by simp
  from encoded_addresses_cannot_be_migrated [OF this, of True False "\<lambda>_. Inl KeyError"] show ?thesis by simp
qed

end
