(* ===== verification/Embedders.thy ===== *)
theory Embedders
  imports PyRegex "HOL-Library.List_Lexorder" "HOL-Library.Char_ord"
begin

text \<open>
  The embedders of the retrieval layer, \<open>src/features/rag/embedder.py\<close>: the dense one with its choice of a
  backend and the vocabulary fitted on first use, and the sparse one, whose weights are term frequency
  times inverse document frequency. The models and the logarithm are parameters.
\<close>

section \<open>Dense embeddings\<close>

datatype backend = SentenceTransformers | Tfidf

record 'v dense =
  de_backend :: backend
  de_vocabulary :: "string list option"

text \<open>
  The libraries: the encoder with its dimension, and the vectorizer, which fits a vocabulary (or raises when
  the texts have none) and transforms with it.
\<close>

record 'v libraries =
  lb_encode :: "string list \<Rightarrow> 'v list list"
  lb_dimension :: nat
  lb_fit :: "string list \<Rightarrow> exn + string list"
  lb_transform :: "string list \<Rightarrow> string list \<Rightarrow> 'v list list"

definition new_embedder :: "bool \<Rightarrow> bool \<Rightarrow> exn + 'v dense" where
  "new_embedder transformers sklearn =
     (if transformers then Inr \<lparr>de_backend = SentenceTransformers, de_vocabulary = None\<rparr>
      else if sklearn then Inr \<lparr>de_backend = Tfidf, de_vocabulary = None\<rparr>
      else Inl RuntimeError)"

definition dense_embed :: "'v libraries \<Rightarrow> string list \<Rightarrow> 'v dense \<Rightarrow> (exn + 'v list list) \<times> 'v dense" where
  "dense_embed lb texts s =
     (if texts = [] then (Inr [], s)
      else case de_backend s of
          SentenceTransformers \<Rightarrow> (Inr (lb_encode lb texts), s)
        | Tfidf \<Rightarrow>
            (case de_vocabulary s of
               Some voc \<Rightarrow> (Inr (lb_transform lb voc texts), s)
             | None \<Rightarrow>
                 (case lb_fit lb texts of
                    Inl e \<Rightarrow> (Inl e, s)
                  | Inr voc \<Rightarrow> (Inr (lb_transform lb voc texts), s\<lparr>de_vocabulary := Some voc\<rparr>))))"

definition dense_dimension :: "'v libraries \<Rightarrow> 'v dense \<Rightarrow> nat" where
  "dense_dimension lb s =
     (case de_backend s of
        SentenceTransformers \<Rightarrow> lb_dimension lb
      | Tfidf \<Rightarrow> (case de_vocabulary s of None \<Rightarrow> 0 | Some voc \<Rightarrow> length voc))"

section \<open>Sparse embeddings\<close>

text \<open>\<open>re.findall(r"\b\w+\b", text.lower())\<close>: the maximal runs of word characters.\<close>

fun word_runs :: "string \<Rightarrow> string \<Rightarrow> string list" where
  "word_runs cur [] = (if cur = [] then [] else [cur])"
| "word_runs cur (c # s) =
     (if code_in rx_word c then word_runs (cur @ [c]) s
      else (if cur = [] then [] else [cur]) @ word_runs [] s)"

definition tokenize :: "string \<Rightarrow> string list" where
  "tokenize text = word_runs [] (py_lower text)"

record sparse =
  sp_corpus :: "string list list"
  sp_vocabulary :: "string list"
  sp_fitted :: bool

definition new_sparse :: "bool \<Rightarrow> exn + sparse" where
  "new_sparse available =
     (if available then Inr \<lparr>sp_corpus = [], sp_vocabulary = [], sp_fitted = False\<rparr> else Inl RuntimeError)"

text \<open>The vocabulary numbers the sorted tokens; \<open>index\<close> raises when the library cannot index the corpus.\<close>

definition sparse_fit :: "(string list list \<Rightarrow> exn + unit) \<Rightarrow> string list \<Rightarrow> sparse \<Rightarrow> (exn + unit) \<times> sparse" where
  "sparse_fit index corpus s =
     (if corpus = [] then (Inr (), s)
      else
        (let toks = map tokenize corpus; s1 = s\<lparr>sp_corpus := toks\<rparr>
         in case index toks of
              Inl e \<Rightarrow> (Inl e, s1)
            | Inr _ \<Rightarrow> (Inr (), s1\<lparr>sp_vocabulary := sorted_list_of_set (set (concat toks)), sp_fitted := True\<rparr>)))"

definition token_index :: "sparse \<Rightarrow> string \<Rightarrow> nat option" where
  "token_index s t =
     (if t \<in> set (sp_vocabulary s) then Some (length (takeWhile (\<lambda>u. u \<noteq> t) (sp_vocabulary s))) else None)"

definition document_count :: "sparse \<Rightarrow> string \<Rightarrow> nat" where
  "document_count s t = length (filter (\<lambda>d. t \<in> set d) (sp_corpus s))"

definition token_weight :: "(rat \<Rightarrow> rat) \<Rightarrow> sparse \<Rightarrow> string list \<Rightarrow> string \<Rightarrow> rat" where
  "token_weight logf s toks t =
     (let nt = of_nat (document_count s t); n = of_nat (length (sp_corpus s));
          idf = (if 0 < document_count s t then logf ((n - nt + 1 / 2) / (nt + 1 / 2) + 1) else 0)
      in of_nat (count_list toks t) * max idf 0)"

text \<open>The distinct tokens are visited in any order: here, that of their first occurrence from the right.\<close>

definition sparse_vector :: "(rat \<Rightarrow> rat) \<Rightarrow> sparse \<Rightarrow> string \<Rightarrow> (nat, rat) dict" where
  "sparse_vector logf s text =
     (let toks = tokenize text
      in List.map_filter (\<lambda>t. case token_index s t of
             None \<Rightarrow> None
           | Some i \<Rightarrow> if 0 < token_weight logf s toks t then Some (i, token_weight logf s toks t) else None)
           (remdups toks))"

text \<open>An embedder that was not fitted takes the queries themselves as its corpus.\<close>

definition sparse_embed ::
    "(rat \<Rightarrow> rat) \<Rightarrow> (string list list \<Rightarrow> exn + unit) \<Rightarrow> string list \<Rightarrow> sparse \<Rightarrow> (exn + (nat, rat) dict list) \<times> sparse" where
  "sparse_embed logf index texts s =
     (if texts = [] then (Inr [], s)
      else
        (case (if sp_fitted s then (Inr (), s) else sparse_fit index texts s) of
           (Inl e, s') \<Rightarrow> (Inl e, s')
         | (Inr _, s') \<Rightarrow> (Inr (map (sparse_vector logf s') texts), s')))"

definition vocab_size :: "sparse \<Rightarrow> nat" where
  "vocab_size s = length (sp_vocabulary s)"

definition is_fitted :: "sparse \<Rightarrow> bool" where
  "is_fitted s = sp_fitted s"

section \<open>The vocabulary\<close>

lemma length_takeWhile_neq [simp]: "x \<in> set xs \<Longrightarrow> length (takeWhile (\<lambda>u. u \<noteq> x) xs) < length xs"
  by (induction xs) auto

lemma nth_length_takeWhile_neq [simp]: "x \<in> set xs \<Longrightarrow> xs ! length (takeWhile (\<lambda>u. u \<noteq> x) xs) = x"
  by (induction xs) auto

lemma token_index_Some:
  assumes "distinct (sp_vocabulary s)"
  shows "token_index s t = Some i \<longleftrightarrow> i < vocab_size s \<and> sp_vocabulary s ! i = t"
proof -
  have "length (takeWhile (\<lambda>u. u \<noteq> sp_vocabulary s ! i) (sp_vocabulary s)) = i" if "i < length (sp_vocabulary s)"
    using nth_eq_iff_index_eq [OF assms _ that] nth_mem [OF that] by (metis length_takeWhile_neq nth_length_takeWhile_neq)
  then show ?thesis by (auto simp: token_index_def vocab_size_def)
qed

lemma fit_vocabulary:
  assumes "sparse_fit index corpus s0 = (Inr (), s)" and "corpus \<noteq> []"
  shows "sp_corpus s = map tokenize corpus" and "set (sp_vocabulary s) = set (concat (sp_corpus s))"
    and "sorted (sp_vocabulary s)" and "distinct (sp_vocabulary s)" and "is_fitted s"
  using assms by (auto simp: sparse_fit_def Let_def is_fitted_def split: sum.splits)

lemma document_count_pos: "0 < document_count s t \<longleftrightarrow> t \<in> set (concat (sp_corpus s))"
  by (auto simp: document_count_def filter_empty_conv)

lemma document_count_le: "document_count s t \<le> length (sp_corpus s)"
  by (simp add: document_count_def)

section \<open>Weights\<close>

lemma idf_argument_above_one:
  "(n::rat) \<ge> k \<Longrightarrow> k > 0 \<Longrightarrow> 1 < (n - k + 1 / 2) / (k + 1 / 2) + 1"
  by simp

lemma token_weight_pos:
  assumes "\<And>x. 1 < x \<Longrightarrow> 0 < logf x" and "t \<in> set toks"
  shows "0 < token_weight logf s toks t \<longleftrightarrow> t \<in> set (concat (sp_corpus s))"
proof (cases "0 < document_count s t")
  case True
  have "0 < logf ((of_nat (length (sp_corpus s)) - of_nat (document_count s t) + 1 / 2)
                  / (of_nat (document_count s t) + 1 / 2) + 1)"
    using True document_count_le [of s t] by (intro assms idf_argument_above_one) simp_all
  moreover have "0 < count_list toks t" using assms(2) by (simp add: count_list_0_iff zero_less_iff_neq_zero)
  ultimately show ?thesis using True document_count_pos [of s t] by (simp add: token_weight_def Let_def max_def)
next
  case False
  then show ?thesis using document_count_pos [of s t] by (simp add: token_weight_def Let_def)
qed

lemma in_set_map_filter: "y \<in> set (List.map_filter f xs) \<longleftrightarrow> (\<exists>x. x \<in> set xs \<and> f x = Some y)"
  by (induction xs) (auto simp: List.map_filter_simps split: option.splits)

lemma sparse_vector_entries:
  "(i, w) \<in> set (sparse_vector logf s text) \<longleftrightarrow>
     (\<exists>t. t \<in> set (tokenize text) \<and> token_index s t = Some i \<and> w = token_weight logf s (tokenize text) t \<and> 0 < w)"
  by (auto simp: sparse_vector_def Let_def in_set_map_filter split: option.splits if_splits)

lemma token_index_inj: "token_index s t = Some i \<Longrightarrow> token_index s u = Some i \<Longrightarrow> t = u"
  by (auto simp: token_index_def split: if_splits) (metis nth_length_takeWhile_neq)

lemma distinct_fst_map_filter:
  assumes "distinct xs" and "\<And>x y a b. f x = Some a \<Longrightarrow> f y = Some b \<Longrightarrow> fst a = fst b \<Longrightarrow> x = y"
  shows "distinct (map fst (List.map_filter f xs))"
  using assms(1)
proof (induction xs)
  case (Cons x xs)
  show ?case
  proof (cases "f x")
    case (Some a)
    have "fst b \<noteq> fst a" if "b \<in> set (List.map_filter f xs)" for b
      using that Cons.prems assms(2) [OF Some, of _ b] unfolding in_set_map_filter by fastforce
    then have "fst a \<notin> fst ` set (List.map_filter f xs)" by force
    then show ?thesis using Cons Some by (simp add: List.map_filter_simps)
  qed (use Cons in \<open>simp add: List.map_filter_simps\<close>)
qed (simp add: List.map_filter_simps)

lemma sparse_vector_distinct: "distinct (map fst (sparse_vector logf s text))"
  unfolding sparse_vector_def Let_def
  by (rule distinct_fst_map_filter) (auto split: option.splits if_splits dest: token_index_inj)

section \<open>Properties\<close>

text \<open>
  The vocabulary of an embedder fitted on a corpus numbers exactly the tokens of that corpus, without gaps
  and in alphabetical order: a token has an index iff it occurs, and the indices are the positions of the sorted
  vocabulary.
\<close>

theorem vocabulary_numbers_tokens:
  assumes "sparse_fit index corpus s0 = (Inr (), s)" and "corpus \<noteq> []"
  shows "((\<exists>i. token_index s t = Some i) \<longleftrightarrow> (\<exists>d. d \<in> set corpus \<and> t \<in> set (tokenize d))) \<and>
    (token_index s t = Some i \<longleftrightarrow> i < vocab_size s \<and> sp_vocabulary s ! i = t) \<and> sorted (sp_vocabulary s)"
proof (intro conjI)
  note v = fit_vocabulary [OF assms]
  show "(\<exists>i. token_index s t = Some i) \<longleftrightarrow> (\<exists>d. d \<in> set corpus \<and> t \<in> set (tokenize d))"
    using v(1,2) by (auto simp: token_index_def)
  show "token_index s t = Some i \<longleftrightarrow> i < vocab_size s \<and> sp_vocabulary s ! i = t"
    by (rule token_index_Some [OF v(4)])
qed (rule fit_vocabulary(3) [OF assms])

lemma vocabulary_numbers_tokens_witness:
  "token_index \<lparr>sp_corpus = [[''a'', ''b''], [''b'']], sp_vocabulary = [''a'', ''b''], sp_fitted = True\<rparr> ''b'' = Some 1"
proof -
  have "sparse_fit (\<lambda>_. Inr ()) [''A-b'', ''b!''] \<lparr>sp_corpus = [], sp_vocabulary = [], sp_fitted = False\<rparr> =
      (Inr (), \<lparr>sp_corpus = [[''a'', ''b''], [''b'']], sp_vocabulary = [''a'', ''b''], sp_fitted = True\<rparr>)"
    by code_simp
  from vocabulary_numbers_tokens [OF this, of "''b''" 1] show ?thesis by (simp add: vocab_size_def)
qed

text \<open>
  With a logarithm that is positive above one, the vector of a text has one positive entry for each token of
  the text that the fitted corpus contains, and no other: the inverse document frequency written in the code, with
  its one added inside the logarithm, never drops a token however common it is.
\<close>

theorem sparse_vector_covers_known_tokens:
  assumes "sparse_fit index corpus s0 = (Inr (), s)" and "corpus \<noteq> []" and "\<And>x. 1 < x \<Longrightarrow> 0 < logf x"
  shows "distinct (map fst (sparse_vector logf s text)) \<and> list_all (\<lambda>(i, w). 0 < w) (sparse_vector logf s text) \<and>
    (i \<in> fst ` set (sparse_vector logf s text) \<longleftrightarrow>
       i < vocab_size s \<and> sp_vocabulary s ! i \<in> set (tokenize text) \<inter> set (concat (map tokenize corpus)))"
proof (intro conjI)
  note v = fit_vocabulary [OF assms(1,2)]
  show "distinct (map fst (sparse_vector logf s text))" by (rule sparse_vector_distinct)
  show "list_all (\<lambda>(i, w). 0 < w) (sparse_vector logf s text)"
    by (auto simp: list_all_iff sparse_vector_entries)
  have "i \<in> fst ` set (sparse_vector logf s text) \<longleftrightarrow>
      (\<exists>t. t \<in> set (tokenize text) \<and> token_index s t = Some i \<and> 0 < token_weight logf s (tokenize text) t)"
    unfolding image_iff Bex_def split_paired_Ex sparse_vector_entries fst_conv by blast
  also have "\<dots> \<longleftrightarrow> (\<exists>t. t \<in> set (tokenize text) \<and> token_index s t = Some i \<and> t \<in> set (concat (sp_corpus s)))"
    using token_weight_pos [where logf = logf, OF assms(3)] by blast
  also have "\<dots> \<longleftrightarrow> i < vocab_size s \<and> sp_vocabulary s ! i \<in> set (tokenize text) \<inter> set (concat (map tokenize corpus))"
    unfolding token_index_Some [OF v(4)] v(1) by blast
  finally show "i \<in> fst ` set (sparse_vector logf s text) \<longleftrightarrow>
       i < vocab_size s \<and> sp_vocabulary s ! i \<in> set (tokenize text) \<inter> set (concat (map tokenize corpus))" .
qed

lemma sparse_vector_covers_known_tokens_witness:
  "1 \<in> fst ` set (sparse_vector (\<lambda>x. x - 1)
      \<lparr>sp_corpus = [[''a'', ''b''], [''b'']], sp_vocabulary = [''a'', ''b''], sp_fitted = True\<rparr> ''B, c'')"
proof -
  have "sparse_fit (\<lambda>_. Inr ()) [''A-b'', ''b!''] \<lparr>sp_corpus = [], sp_vocabulary = [], sp_fitted = False\<rparr> =
      (Inr (), \<lparr>sp_corpus = [[''a'', ''b''], [''b'']], sp_vocabulary = [''a'', ''b''], sp_fitted = True\<rparr>)"
    by code_simp
  note r = sparse_vector_covers_known_tokens [OF this, of "\<lambda>x. x - 1" "''B, c''" 1]
  have t: "tokenize ''B, c'' = [''b'', ''c'']" "tokenize ''A-b'' = [''a'', ''b'']" "tokenize ''b!'' = [''b'']" by code_simp+
  show ?thesis using r by (simp add: t vocab_size_def)
qed

text \<open>
  The dense embedder on the fallback fits its vocabulary on the texts of its first successful call and never
  again: after a call that returned vectors from a fresh embedder, every later call uses that vocabulary and keeps
  the state.
\<close>

theorem dense_vocabulary_fixed_at_first_call:
  assumes "new_embedder False sklearn = Inr s0" and "texts \<noteq> []" and "dense_embed lb texts s0 = (Inr vs, s)"
  shows "(\<exists>voc. lb_fit lb texts = Inr voc \<and> de_vocabulary s = Some voc \<and> dense_dimension lb s = length voc \<and>
      dense_embed lb later s = (Inr (if later = [] then [] else lb_transform lb voc later), s))"
  using assms by (auto simp: new_embedder_def dense_embed_def dense_dimension_def split: sum.splits if_splits)

lemma dense_vocabulary_fixed_at_first_call_witness:
  "dense_embed \<lparr>lb_encode = \<lambda>_. [], lb_dimension = 3, lb_fit = \<lambda>_. Inr [''b''], lb_transform = \<lambda>voc. map (\<lambda>_. [length voc])\<rparr>
     [''x'', ''y''] \<lparr>de_backend = Tfidf, de_vocabulary = Some [''b'']\<rparr> =
   (Inr [[1], [1]], \<lparr>de_backend = Tfidf, de_vocabulary = Some [''b'']\<rparr>)"
  using dense_vocabulary_fixed_at_first_call [where sklearn = True and texts = "[''b'']" and later = "[''x'', ''y'']"
      and s = "\<lparr>de_backend = Tfidf, de_vocabulary = Some [''b'']\<rparr>" and s0 = "\<lparr>de_backend = Tfidf, de_vocabulary = None\<rparr>"
      and lb = "\<lparr>lb_encode = \<lambda>_. [], lb_dimension = 3, lb_fit = \<lambda>_. Inr [''b''], lb_transform = \<lambda>voc. map (\<lambda>_. [length voc])\<rparr>"]
  by (simp add: new_embedder_def dense_embed_def)

end
