(* ===== verification/Qdrant.thy ===== *)
theory Qdrant
  imports Rag
begin

text \<open>
  How a retriever is set up, \<open>src/features/rag/retriever.py\<close>: its configuration from arguments and settings, the probe of the
  vector server, the request that creates the collection; and the similarity of vectors on which the
  storage in memory ranks. The similarity is computed on real numbers, without the rounding of floats.
\<close>

section \<open>Configuration\<close>

record retriever_config =
  rc_collection :: string
  rc_url :: string
  rc_api_key :: "string option"
  rc_vector_size :: int
  rc_hnsw_m :: int
  rc_hnsw_ef :: int
  rc_hybrid :: bool
  rc_dense :: string
  rc_sparse :: string

record retriever_args =
  ra_collection :: "string option"
  ra_url :: "string option"
  ra_api_key :: "string option"
  ra_vector_size :: "int option"
  ra_hnsw_m :: "int option"
  ra_hnsw_ef :: "int option"
  ra_hybrid :: "bool option"
  ra_dense :: "string option"
  ra_sparse :: "string option"

text \<open>\<open>a or b\<close>: an empty text and the number 0 count as not given. Only the switch is compared with \<open>None\<close>.\<close>

definition or_text :: "string option \<Rightarrow> string \<Rightarrow> string" where
  "or_text v d = (case v of Some (c # s) \<Rightarrow> c # s | _ \<Rightarrow> d)"

definition or_int :: "int option \<Rightarrow> int \<Rightarrow> int" where
  "or_int v d = (case v of Some i \<Rightarrow> if i = 0 then d else i | None \<Rightarrow> d)"

definition or_key :: "string option \<Rightarrow> string option \<Rightarrow> string option" where
  "or_key v d = (case v of Some (c # s) \<Rightarrow> v | _ \<Rightarrow> d)"

definition configure_retriever :: "retriever_config \<Rightarrow> retriever_args \<Rightarrow> retriever_config" where
  "configure_retriever st a =
     \<lparr>rc_collection = or_text (ra_collection a) (rc_collection st), rc_url = or_text (ra_url a) (rc_url st),
      rc_api_key = or_key (ra_api_key a) (rc_api_key st), rc_vector_size = or_int (ra_vector_size a) (rc_vector_size st),
      rc_hnsw_m = or_int (ra_hnsw_m a) (rc_hnsw_m st), rc_hnsw_ef = or_int (ra_hnsw_ef a) (rc_hnsw_ef st),
      rc_hybrid = (case ra_hybrid a of None \<Rightarrow> rc_hybrid st | Some b \<Rightarrow> b),
      rc_dense = or_text (ra_dense a) (rc_dense st), rc_sparse = or_text (ra_sparse a) (rc_sparse st)\<rparr>"

text \<open>The server is used when its client is installed and answers; \<open>probe\<close> is the outcome of asking.\<close>

definition init_qdrant_client :: "exn + unit \<Rightarrow> bool" where
  "init_qdrant_client probe = (case probe of Inl _ \<Rightarrow> False | Inr _ \<Rightarrow> True)"

definition open_retriever ::
    "bool \<Rightarrow> (string \<Rightarrow> string option \<Rightarrow> exn + unit) \<Rightarrow> retriever_config \<Rightarrow> retriever_args
     \<Rightarrow> retriever_config \<times> 'v retriever" where
  "open_retriever installed probe st a =
     (let cfg = configure_retriever st a
      in (cfg, new_retriever (installed \<and> init_qdrant_client (probe (rc_url cfg) (rc_api_key cfg))) (rc_hybrid cfg)))"

record dense_params =
  dp_size :: int
  dp_distance :: string
  dp_m :: int
  dp_ef :: int

datatype vector_params = DenseVectors dense_params | SparseVectors bool

text \<open>The vectors of a new collection, a dictionary by name.\<close>

definition vectors_config :: "retriever_config \<Rightarrow> (string, vector_params) dict" where
  "vectors_config cfg =
     (let dense = [(rc_dense cfg, DenseVectors \<lparr>dp_size = rc_vector_size cfg, dp_distance = ''Cosine'',
                      dp_m = rc_hnsw_m cfg, dp_ef = rc_hnsw_ef cfg\<rparr>)]
      in if rc_hybrid cfg then dict_put (rc_sparse cfg) (SparseVectors False) dense else dense)"

text \<open>The collection is created unless the server lists it.\<close>

definition ensure_request :: "retriever_config \<Rightarrow> string list \<Rightarrow> (string \<times> (string, vector_params) dict) option" where
  "ensure_request cfg existing =
     (if rc_collection cfg \<in> set existing then None else Some (rc_collection cfg, vectors_config cfg))"

section \<open>Similarity\<close>

fun dot :: "real list \<Rightarrow> real list \<Rightarrow> real" where
  "dot (x # xs) (y # ys) = x * y + dot xs ys"
| "dot _ _ = 0"

definition vector_norm :: "real list \<Rightarrow> real" where
  "vector_norm a = sqrt (dot a a)"

definition cosine_similarity :: "real list \<Rightarrow> real list \<Rightarrow> real" where
  "cosine_similarity a b =
     (let denom = vector_norm a * vector_norm b in if denom = 0 then 0 else dot a b / denom)"

lemma dot_self_nonneg: "0 \<le> dot a a"
  by (induction a) (simp_all add: add_nonneg_nonneg)

lemma dot_commute: "dot a b = dot b a"
  by (induction a b rule: dot.induct) (simp_all add: mult.commute)

lemma dot_scale: "dot (map ((*) k) a) b = k * dot a b"
  by (induction a b rule: dot.induct) (simp_all add: distrib_left mult.assoc)

lemma cross_terms:
  assumes "s\<^sup>2 \<le> p * q" and "0 \<le> p" and "0 \<le> q"
  shows "2 * s * (x * y) \<le> p * y\<^sup>2 + q * (x::real)\<^sup>2"
proof -
  have amgm: "4 * (u * v) \<le> (u + v)\<^sup>2" for u v :: real
    using zero_le_power2 [of "u - v"] by (simp add: power2_sum power2_diff)
  have "(2 * s * (x * y))\<^sup>2 = 4 * s\<^sup>2 * (x\<^sup>2 * y\<^sup>2)" by (simp add: power2_eq_square)
  also have "\<dots> \<le> 4 * (p * q) * (x\<^sup>2 * y\<^sup>2)"
    using assms(1) by (simp add: mult_right_mono)
  also have "\<dots> = 4 * ((p * y\<^sup>2) * (q * x\<^sup>2))" by simp
  also have "\<dots> \<le> (p * y\<^sup>2 + q * x\<^sup>2)\<^sup>2"
    by (rule amgm)
  finally show ?thesis by (rule power2_le_imp_le) (simp add: assms)
qed

lemma cauchy_schwarz: "(dot a b)\<^sup>2 \<le> dot a a * dot b b"
proof (induction a b rule: dot.induct)
  case (1 x xs y ys)
  have "2 * dot xs ys * (x * y) \<le> dot xs xs * y\<^sup>2 + dot ys ys * x\<^sup>2"
    using 1 by (rule cross_terms) (rule dot_self_nonneg)+
  then show ?case using 1 by (simp add: power2_sum power2_eq_square algebra_simps)
qed (simp_all add: dot_self_nonneg)

text \<open>
  The similarity of two vectors lies between -1 and 1, does not depend on their order, and is not changed by a positive
  factor; it is 0 when a vector is null and 1 for a vector and itself otherwise.
\<close>

theorem cosine_is_a_bounded_similarity:
  assumes "0 < k"
  shows "\<bar>cosine_similarity a b\<bar> \<le> 1 \<and> cosine_similarity a b = cosine_similarity b a \<and>
    cosine_similarity (map ((*) k) a) b = cosine_similarity a b \<and>
    cosine_similarity a a = (if dot a a = 0 then 0 else 1)"
proof (intro conjI)
  show "\<bar>cosine_similarity a b\<bar> \<le> 1"
  proof (cases "vector_norm a * vector_norm b = 0")
    case False
    have "\<bar>dot a b\<bar> = sqrt ((dot a b)\<^sup>2)" by simp
    also have "\<dots> \<le> sqrt (dot a a * dot b b)" using cauchy_schwarz by (rule real_sqrt_le_mono)
    also have "\<dots> = vector_norm a * vector_norm b" by (simp add: vector_norm_def real_sqrt_mult)
    finally have "\<bar>dot a b\<bar> \<le> vector_norm a * vector_norm b" .
    moreover have "0 < vector_norm a * vector_norm b"
      using False dot_self_nonneg by (simp add: vector_norm_def less_le)
    ultimately show ?thesis using False by (simp add: cosine_similarity_def Let_def abs_divide)
  qed (auto simp: cosine_similarity_def Let_def)
  show "cosine_similarity a b = cosine_similarity b a"
    by (simp add: cosine_similarity_def Let_def dot_commute mult.commute)
  have "dot (map ((*) k) a) (map ((*) k) a) = k\<^sup>2 * dot a a"
    using dot_scale [of k a "map ((*) k) a"] dot_scale [of k a a] dot_commute [of a "map ((*) k) a"]
    by (simp add: power2_eq_square)
  then have "vector_norm (map ((*) k) a) = k * vector_norm a"
    using assms by (simp add: vector_norm_def real_sqrt_mult)
  then show "cosine_similarity (map ((*) k) a) b = cosine_similarity a b"
    using assms by (simp add: cosine_similarity_def Let_def dot_scale)
  show "cosine_similarity a a = (if dot a a = 0 then 0 else 1)"
    using dot_self_nonneg [of a] by (auto simp: cosine_similarity_def vector_norm_def)
qed

theorem cosine_is_a_bounded_similarity_witness:
  "cosine_similarity (map ((*) 2) [3, 4]) [4, 3] = cosine_similarity [3, 4] [4, 3] \<and> cosine_similarity [3, 4] [3, 4] = 1"
proof -
  have "(0::real) < 2" by simp
  from cosine_is_a_bounded_similarity [OF this, of "[3, 4]" "[4, 3]"] show ?thesis by simp
qed

text \<open>A sparse name equal to the dense one replaces the dense vectors of a hybrid collection.\<close>

lemma same_names_lose_dense:
  "rc_hybrid cfg \<Longrightarrow> rc_sparse cfg = rc_dense cfg \<Longrightarrow> vectors_config cfg = [(rc_dense cfg, SparseVectors False)]"
  by (simp add: vectors_config_def dict_put_def Let_def)

text \<open>An argument of 0 or an empty text is not an argument, and an empty key does not clear the one of the settings.\<close>

lemma empty_arguments_ignored:
  "configure_retriever st \<lparr>ra_collection = Some [], ra_url = Some [], ra_api_key = Some [], ra_vector_size = Some 0,
     ra_hnsw_m = Some 0, ra_hnsw_ef = Some 0, ra_hybrid = None, ra_dense = Some [], ra_sparse = Some []\<rparr> = st"
  by (simp add: configure_retriever_def or_text_def or_int_def or_key_def)

end
