(* ===== verification/Cli.thy ===== *)
theory Cli
  imports Tools
begin

text \<open>
  Two front ends over the same database and tool registry: the command line (\<open>src/cli/main.py\<close>) and the MCP
  server (\<open>src/mcp_server.py\<close>).

  A command prints lines or ends with an exception: the framework's own \<open>ClickException\<close>, whose text is shown,
  or any other one. Options have been read and type-checked by the framework. Limits are not negative. The
  text of an argument object is read by \<open>json.loads\<close>, a parameter, as is the resolution of a path.
\<close>

section \<open>State and outcomes\<close>

record cli_state =
  cs_auth :: auth_state
  cs_tools :: tool_db

datatype cli_exit = ClickException string | Uncaught exn

abbreviation tab :: string where
  "tab \<equiv> [CHR 0x09]"

definition py_bool :: "bool \<Rightarrow> string" where
  "py_bool b = (if b then ''True'' else ''False'')"

section \<open>Users\<close>

text \<open>The flag is set on the new object and stored by a second commit.\<close>

definition create_user_command ::
    "auth_config \<Rightarrow> string \<Rightarrow> string \<Rightarrow> string \<Rightarrow> string \<Rightarrow> string option \<Rightarrow> bool \<Rightarrow> cli_state
     \<Rightarrow> (cli_exit + string list) \<times> cli_state" where
  "create_user_command cfg salt email username pw full_name superuser s =
     (if get_user_by_email email (cs_auth s) \<noteq> None
        then (Inl (ClickException (''Email already registered: '' @ email)), s)
      else if get_user_by_username username (cs_auth s) \<noteq> None
        then (Inl (ClickException (''Username already taken: '' @ username)), s)
      else (case crud_create_user cfg salt email username pw full_name (cs_auth s) of
          (Inl e, a) \<Rightarrow> (Inl (Uncaught e), s\<lparr>cs_auth := a\<rparr>)
        | (Inr u, a) \<Rightarrow>
            (let a' = (if superuser then put_user (usr_id u) (\<lambda>r. r\<lparr>is_superuser := True\<rparr>) a else a)
             in (Inr [''Created user id='' @ str_int (usr_id u) @ '' username='' @ usr_username u],
                 s\<lparr>cs_auth := a'\<rparr>))))"

definition user_line :: "user \<Rightarrow> string" where
  "user_line u = str_int (usr_id u) @ tab @ usr_username u @ tab @ usr_email u @ tab @ ''active='' @
     py_bool (is_active u) @ tab @ ''superuser='' @ py_bool (is_superuser u)"

definition list_users_command :: "nat \<Rightarrow> cli_state \<Rightarrow> string list" where
  "list_users_command lmt s = map user_line (get_users 0 lmt (cs_auth s))"

text \<open>The dash of the second message, a character outside the model, is written as a hyphen.\<close>

definition resolve_actor :: "string option \<Rightarrow> cli_state \<Rightarrow> cli_exit + user" where
  "resolve_actor username s =
     (case username of
        Some (c # name) \<Rightarrow>
          (case get_user_by_username (c # name) (cs_auth s) of
             None \<Rightarrow> Inl (ClickException (''User not found: '' @ c # name))
           | Some u \<Rightarrow> Inr u)
      | _ \<Rightarrow>
          (case get_users 0 1 (cs_auth s) of
             [] \<Rightarrow> Inl (ClickException ''No users exist yet - run create-user first.'')
           | u # _ \<Rightarrow> Inr u))"

section \<open>Datasets\<close>

text \<open>
  \<open>resolve\<close> is the absolute path of an existing file. The schema object is built after the owner is known; its
  validation error is not one of the framework's.
\<close>

definition upload_dataset_command ::
    "(string \<Rightarrow> string) \<Rightarrow> time \<Rightarrow> string \<Rightarrow> string option \<Rightarrow> string option \<Rightarrow> string option \<Rightarrow> cli_state
     \<Rightarrow> (cli_exit + string list) \<times> cli_state" where
  "upload_dataset_command resolve now file_path name description username s =
     (let suffix = py_lower (snd (path_split (path_name file_path)))
      in case dict_get format_by_suffix suffix of
           None \<Rightarrow> (Inl (ClickException (''Unsupported file format '' @ (if suffix = [] then ''unknown'' else suffix) @
                     ''; expected .csv, .parquet or .json'')), s)
         | Some fmt \<Rightarrow>
             (let stem = fst (path_split (path_name file_path));
                  given = (case name of None \<Rightarrow> stem | Some n \<Rightarrow> if n = [] then stem else n);
                  dname = take 100 (if py_strip given = [] then ''upload'' else py_strip given)
              in if get_dataset_by_name dname (td_catalog (cs_tools s)) \<noteq> None
                   then (Inl (ClickException (''Dataset already exists: '' @ dname)), s)
                 else (case resolve_actor username s of
                     Inl e \<Rightarrow> (Inl e, s)
                   | Inr actor \<Rightarrow>
                       (let c = \<lparr>dc_name = dname, dc_description = description, dc_storage_uri = resolve file_path,
                                 dc_format = fmt, dc_row_count = None, dc_columns = None\<rparr>
                        in if \<not> dataset_create_valid c then (Inl (Uncaught (OtherException ''ValidationError'')), s)
                           else (case crud_create_dataset now c (usr_id actor) (td_catalog (cs_tools s)) of
                               (r, ct) \<Rightarrow> (Inr [''Registered dataset id='' @ str_int (ds_id r) @ '' name='' @ ds_name r],
                                 s\<lparr>cs_tools := (cs_tools s)\<lparr>td_catalog := ct\<rparr>\<rparr>))))))"

definition dataset_line :: "dataset \<Rightarrow> string" where
  "dataset_line r = str_int (ds_id r) @ tab @ ds_name r @ tab @ ds_format r @ tab @ ds_status r @ tab @ ds_storage_uri r"

definition list_datasets_command :: "nat \<Rightarrow> cli_state \<Rightarrow> string list" where
  "list_datasets_command lmt s = map dataset_line (get_datasets 0 lmt (td_catalog (cs_tools s)))"

section \<open>Training and status\<close>

text \<open>The arguments of the queued task, and the line that says how to watch it.\<close>

definition train_command :: "string \<Rightarrow> int \<Rightarrow> string \<Rightarrow> string \<Rightarrow> (int \<times> string \<times> string \<times> int) \<times> string list" where
  "train_command task_id dataset_id target exper =
     ((dataset_id, target, exper, 1),
      [''Training task queued. Task ID: '' @ task_id @
       ''. Monitor with: python -m src.cli agent-invoke predict --task-id '' @ task_id])"

definition status_command :: "string \<Rightarrow> string \<Rightarrow> string \<Rightarrow> string \<Rightarrow> bool \<Rightarrow> cli_state \<Rightarrow> string list" where
  "status_command app version env url db_ok s =
     [app @ '' v'' @ version @ '' env='' @ env,
      ''database='' @ (if db_ok then ''ok'' else ''unavailable'') @ '' ('' @ url @ '')'',
      ''users='' @ str_nat (length (get_users 0 100000 (cs_auth s))) @
      '' datasets='' @ str_nat (length (get_datasets 0 100000 (td_catalog (cs_tools s)))) @
      '' models='' @ str_nat (length (get_model_metadata_list 0 100000 (td_catalog (cs_tools s)))) @
      '' experiments='' @ str_nat (length (get_experiments 0 100000 (td_catalog (cs_tools s))))]"

section \<open>Tools on the command line\<close>

text \<open>The options of the command, by name; any other one is refused by the framework.\<close>

definition agent_invoke_options :: "string list" where
  "agent_invoke_options = [''--args-json'', ''--username'']"

definition agent_invoke_command ::
    "nat \<Rightarrow> tool_env \<Rightarrow> (string \<Rightarrow> string + pyval) \<Rightarrow> string \<Rightarrow> string \<Rightarrow> string option \<Rightarrow> cli_state
     \<Rightarrow> (cli_exit + reply) \<times> cli_state" where
  "agent_invoke_command n e loads name args_json username s =
     (case loads args_json of
        Inl msg \<Rightarrow> (Inl (ClickException (''Invalid --args-json: '' @ msg)), s)
      | Inr (PDict arguments) \<Rightarrow>
          (case (case username of
                   None \<Rightarrow> Inr None
                 | Some u \<Rightarrow> if u = [] then Inr None else map_sum id Some (resolve_actor (Some u) s)) of
             Inl err \<Rightarrow> (Inl err, s)
           | Inr user \<Rightarrow>
               (case invoke_tool n e name arguments user (cs_tools s) of
                  (r, t) \<Rightarrow> (map_sum (\<lambda>x. Uncaught (fst x)) id r, s\<lparr>cs_tools := t\<rparr>)))
      | Inr _ \<Rightarrow> (Inl (ClickException ''--args-json must be a JSON object''), s))"

section \<open>The MCP server\<close>

text \<open>The parameters of a tool as the server shows them: each with its default, the required ones first.\<close>

record 'v parameter =
  pa_name :: string
  pa_default :: "'v option"

definition ordered_parameters :: "'v parameter list \<Rightarrow> 'v parameter list" where
  "ordered_parameters ps = filter (\<lambda>p. pa_default p = None) ps @ filter (\<lambda>p. pa_default p \<noteq> None) ps"

text \<open>The handler registered for a tool: it validates the arguments and calls the tool without a user.\<close>

definition mcp_handler :: "nat \<Rightarrow> tool_env \<Rightarrow> tool \<Rightarrow> (string, pyval) dict \<Rightarrow> tool_db \<Rightarrow> handler_result" where
  "mcp_handler n e t kwargs s =
     (case parse_args e t kwargs of
        None \<Rightarrow> (Inl (OtherException ''ValidationError'', te_invalid e (tl_name t) kwargs), s)
      | Some a \<Rightarrow> call_handler (invoke_tool n e) e (tl_name t) a None s)"

section \<open>Lemmas\<close>

lemma resolve_actor_known: "resolve_actor username s = Inr u \<Longrightarrow> u \<in> set (db_users (cs_auth s))"
  by (auto simp: resolve_actor_def get_user_by_username_def find_first_def get_users_def find_Some_iff
      split: option.splits list.splits dest: in_set_takeD intro: nth_mem)
     (metis in_set_takeD list.set_intros(1))+

lemma put_user_appended:
  assumes "auth_inv a" and "usr_id u = db_next_id a"
  shows "put_user (usr_id u) f (a\<lparr>db_users := db_users a @ [u], db_next_id := db_next_id a + 1\<rparr>) =
    a\<lparr>db_users := db_users a @ [f u], db_next_id := db_next_id a + 1\<rparr>"
proof -
  have "(if usr_id x = usr_id u then f x else x) = x" if "x \<in> set (db_users a)" for x
    using assms that by (auto simp: auth_inv_def)
  then have "map (\<lambda>x. if usr_id x = usr_id u then f x else x) (db_users a) = db_users a"
    by (simp add: map_idI)
  then show ?thesis by (simp add: put_user_def)
qed

lemma user_tools:
  "filter tl_requires_user (TOOLS github) =
     [tool_entry ''create_dataset'' DatasetCreateC True, tool_entry ''register_model'' ModelCreateC True,
      tool_entry ''create_experiment'' ExperimentCreateC True]"
  by (simp add: TOOLS_def builtin_tools_def github_tools_def tool_entry_def)

lemma refused_without_user:
  "tool_create_dataset now c None s = (Inl (ForbiddenError, ''This tool requires an authenticated user''), s)"
  "tool_register_model now c' None s = (Inl (ForbiddenError, ''This tool requires an authenticated user''), s)"
  "tool_create_experiment now c'' None s = (Inl (ForbiddenError, ''This tool requires an authenticated user''), s)"
  by (simp_all add: tool_create_dataset_def tool_register_model_def tool_create_experiment_def require_user_def)

lemma user_tools_need_user:
  assumes "t \<in> set (TOOLS github)" and "tl_requires_user t" and "class_of a = tl_class t"
  shows "call_handler ivk e (tl_name t) a None s = (Inl (ForbiddenError, ''This tool requires an authenticated user''), s)"
proof -
  have "t \<in> set (filter tl_requires_user (TOOLS github))" using assms(1,2) by simp
  then consider "t = tool_entry ''create_dataset'' DatasetCreateC True" | "t = tool_entry ''register_model'' ModelCreateC True"
    | "t = tool_entry ''create_experiment'' ExperimentCreateC True"
    unfolding user_tools by auto
  then show ?thesis
    by cases (use assms(3) in \<open>cases a; simp add: tool_entry_def call_handler_def refused_without_user\<close>)+
qed

lemma get_tool_registered: "get_tool github name = Some t \<Longrightarrow> t \<in> set (TOOLS github) \<and> tl_name t = name"
  by (auto simp: get_tool_def find_Some_iff)

lemma parse_args_class: "parse_args e t args = Some a \<Longrightarrow> class_of a = tl_class t"
  by (auto simp: parse_args_def split: option.splits if_splits)

lemma plain_handler_keeps_audit:
  assumes "name \<noteq> ''run_scheduled_jobs''"
  shows "td_audit (snd (call_handler ivk e name a u s)) = td_audit s"
proof -
  have "td_audit (snd (tool_create_dataset now c u s)) = td_audit s"
    "td_audit (snd (tool_register_model now c' u s)) = td_audit s"
    "td_audit (snd (tool_create_experiment now c'' u s)) = td_audit s" for now c c' c''
    by (simp_all add: tool_create_dataset_def tool_register_model_def tool_create_experiment_def case_prod_unfold
        split: sum.split)
  moreover have "td_audit (snd (crud_create_scheduled_job now c uid s)) = td_audit s"
    "td_audit (snd (crud_delete_scheduled_job i s)) = td_audit s" for now c uid i
    by (simp_all add: crud_create_scheduled_job_def crud_delete_scheduled_job_def case_prod_unfold)
  then have "td_audit (snd (create_scheduled_job k now c u s)) = td_audit s"
    "td_audit (snd (delete_scheduled_job i s)) = td_audit s" for k now c i
    by (auto simp: create_scheduled_job_def delete_scheduled_job_def case_prod_unfold split: option.split)
  ultimately show ?thesis
    using assms unfolding call_handler_def by (cases a) simp_all
qed

section \<open>Properties\<close>



text \<open>
  The command that creates a user never ends with an exception of its own: on an address and a name that are
  free it stores one new active row, with the superuser flag it was asked for, and leaves the others as they are, so
  the tables stay consistent. It does so for every password, also one that the registration endpoint refuses.
\<close>

theorem cli_registers_any_password:
  assumes "auth_inv (cs_auth s)" and "get_user_by_email email (cs_auth s) = None"
    and "get_user_by_username username (cs_auth s) = None"
    and "create_user_command cfg salt email username pw full_name superuser s = (r, s')"
  shows "\<exists>u out. r = Inr out \<and> db_users (cs_auth s') = db_users (cs_auth s) @ [u] \<and> usr_email u = email \<and>
    usr_username u = username \<and> hashed_password u = get_password_hash (cfg_crypto cfg) salt pw \<and> is_active u \<and>
    (is_superuser u \<longleftrightarrow> superuser) \<and> auth_inv (cs_auth s') \<and> cs_tools s' = cs_tools s \<and>
    (length pw < 8 \<longrightarrow> fst (api_create_user cfg valid clk ip salt
       \<lparr>uc_email = email, uc_username = username, uc_password = pw, uc_full_name = full_name\<rparr> (cs_auth s)) =
         Inl (HTTPException 422))"
proof -
  let ?a = "cs_auth s"
  obtain res a1 where c: "crud_create_user cfg salt email username pw full_name ?a = (res, a1)" by fastforce
  define u where "u = projr res"
  have u: "res = Inr u" "a1 = ?a\<lparr>db_users := db_users ?a @ [u], db_next_id := db_next_id ?a + 1\<rparr>"
    "usr_id u = db_next_id ?a" "usr_email u = email" "usr_username u = username"
    "hashed_password u = get_password_hash (cfg_crypto cfg) salt pw" "is_active u" "\<not> is_superuser u"
    using c assms(2,3) by (auto simp: u_def crud_create_user_def Let_def)
  define v where "v = (if superuser then u\<lparr>is_superuser := True\<rparr> else u)"
  have v: "usr_id v = db_next_id ?a" "usr_email v = email" "usr_username v = username"
    "hashed_password v = get_password_hash (cfg_crypto cfg) salt pw" "is_active v" "is_superuser v \<longleftrightarrow> superuser"
    using u by (simp_all add: v_def)
  have s': "s' = s\<lparr>cs_auth := ?a\<lparr>db_users := db_users ?a @ [v], db_next_id := db_next_id ?a + 1\<rparr>\<rparr>" "\<exists>out. r = Inr out"
    using assms(4) c u put_user_appended [OF assms(1) u(3), of "\<lambda>r. r\<lparr>is_superuser := True\<rparr>"] assms(2,3)
    by (auto simp: create_user_command_def v_def)
  moreover have "auth_inv (?a\<lparr>db_users := db_users ?a @ [v], db_next_id := db_next_id ?a + 1\<rparr>)"
    by (rule auth_inv_add) (use assms(1-3) v in simp_all)
  moreover have "length pw < 8 \<longrightarrow> fst (api_create_user cfg valid clk ip salt
       \<lparr>uc_email = email, uc_username = username, uc_password = pw, uc_full_name = full_name\<rparr> ?a) = Inl (HTTPException 422)"
    by (simp add: api_create_user_def user_create_valid_def)
  ultimately show ?thesis using v by auto
qed

lemma cli_registers_any_password_witness:
  "\<exists>u. db_users (cs_auth (snd (create_user_command demo_config [] ''a@b'' ''root'' [] None True
       \<lparr>cs_auth = auth_init None, cs_tools = new_tool_db\<rparr>))) = [u] \<and> is_superuser u \<and> usr_username u = ''root''"
proof -
  let ?s = "\<lparr>cs_auth = auth_init None, cs_tools = new_tool_db\<rparr>"
  have "auth_inv (cs_auth ?s)" "get_user_by_email ''a@b'' (cs_auth ?s) = None" "get_user_by_username ''root'' (cs_auth ?s) = None"
    by (simp_all add: auth_inv_def auth_init_def get_user_by_email_def get_user_by_username_def find_first_def)
  from cli_registers_any_password [OF this prod.collapse [symmetric], where cfg = demo_config and salt = "[]" and pw = "[]"
      and full_name = None and superuser = True and valid = "\<lambda>_. True" and clk = 0 and ip = "[]"]
  have "\<exists>u. db_users (cs_auth (snd (create_user_command demo_config [] ''a@b'' ''root'' [] None True ?s))) =
      db_users (cs_auth ?s) @ [u] \<and> is_superuser u \<and> usr_username u = ''root''" by blast
  moreover have "db_users (cs_auth ?s) = []" by (simp add: auth_init_def)
  ultimately show ?thesis by simp
qed

text \<open>
  The command that uploads a dataset either changes nothing or registers one row under a name that was free,
  owned by a user that exists, and a catalogue of valid rows stays one.
\<close>

theorem cli_upload_registers_one_valid_row:
  assumes "upload_dataset_command resolve now path name description username s = (r, s')"
    and "catalog_ok (td_catalog (cs_tools s))"
  shows "case r of Inl _ \<Rightarrow> s' = s
    | Inr _ \<Rightarrow> cs_auth s' = cs_auth s \<and> catalog_ok (td_catalog (cs_tools s')) \<and>
        (\<exists>d actor. tb_rows (ct_datasets (td_catalog (cs_tools s'))) = tb_rows (ct_datasets (td_catalog (cs_tools s))) @ [d] \<and>
           actor \<in> set (db_users (cs_auth s)) \<and> ds_created_by d = usr_id actor \<and> ds_storage_uri d = resolve path \<and>
           get_dataset_by_name (ds_name d) (td_catalog (cs_tools s)) = None)"
proof (cases r)
  case (Inl e)
  with assms(1) show ?thesis
    by (auto simp: upload_dataset_command_def Let_def split: option.splits if_splits sum.splits prod.splits)
next
  case (Inr out)
  let ?ct = "td_catalog (cs_tools s)"
  from assms(1) Inr obtain fmt dname actor c where a: "resolve_actor username s = Inr actor"
    "dataset_create_valid c" "get_dataset_by_name (dc_name c) ?ct = None" "dc_storage_uri c = resolve path"
    "s' = s\<lparr>cs_tools := (cs_tools s)\<lparr>td_catalog := snd (crud_create_dataset now c (usr_id actor) ?ct)\<rparr>\<rparr>"
    by (auto simp: upload_dataset_command_def Let_def split: option.splits if_splits sum.splits prod.splits)
  have rows: "tb_rows (ct_datasets (snd (crud_create_dataset now c (usr_id actor) ?ct))) =
      tb_rows (ct_datasets ?ct) @ [mk_dataset (now, c, usr_id actor) (tb_next (ct_datasets ?ct))]"
    by (simp add: crud_create_dataset_def tb_insert_def Let_def)
  have "catalog_ok (snd (crud_create_dataset now c (usr_id actor) ?ct))"
    by (rule crud_create_dataset_ok [OF assms(2) a(2,3)])
  with Inr a rows resolve_actor_known [OF a(1)] show ?thesis
    by (auto simp: mk_dataset_def)
qed

lemma cli_upload_registers_one_valid_row_witness:
  "case fst (upload_dataset_command ((@) ''/data/'') 7 ''Sales.CSV'' None None None
      \<lparr>cs_auth = demo_auth, cs_tools = new_tool_db\<rparr>) of Inl _ \<Rightarrow> False | Inr out \<Rightarrow> out = [''Registered dataset id=1 name=Sales'']
   \<and> catalog_ok (td_catalog (cs_tools (snd (upload_dataset_command ((@) ''/data/'') 7 ''Sales.CSV'' None None None
      \<lparr>cs_auth = demo_auth, cs_tools = new_tool_db\<rparr>))))"
proof -
  let ?call = "upload_dataset_command ((@) ''/data/'') 7 ''Sales.CSV'' None None None
      \<lparr>cs_auth = demo_auth, cs_tools = new_tool_db\<rparr>"
  have out: "fst ?call = Inr [''Registered dataset id=1 name=Sales'']"
    unfolding demo_auth_eq by code_simp
  have "catalog_ok (td_catalog (cs_tools \<lparr>cs_auth = demo_auth, cs_tools = new_tool_db\<rparr>))"
    by (simp add: catalog_ok_def table_ok_def new_tool_db_def new_catalog_def new_table_def tb_wf_def)
  from cli_upload_registers_one_valid_row [OF prod.collapse [symmetric] this,
      where resolve = "(@) ''/data/''" and now = 7 and path = "''Sales.CSV''" and name = None
        and description = None and username = None]
  show ?thesis unfolding out sum.case by simp
qed

end
