(* ===== verification/Schemas.thy ===== *)
theory Schemas
  imports Cli
begin

text \<open>
  The response schemas of \<open>src/schemas\<close>: the field table of every schema a route answers with, and the
  reading of a row into one, which picks the fields by name and checks each value against its type and constraint, as the
  routes' \<open>response_model\<close> does. A row that does not pass is a server error.
\<close>

section \<open>Fields\<close>

datatype field_kind = KInt | KStr | KBool | KFloat | KTime | KStrs | KDict | KAny | KList | KOpt field_kind

fun of_kind :: "field_kind \<Rightarrow> pyval \<Rightarrow> bool" where
  "of_kind KInt v = (case v of PInt _ \<Rightarrow> True | _ \<Rightarrow> False)"
| "of_kind KStr v = (case v of PStr _ \<Rightarrow> True | _ \<Rightarrow> False)"
| "of_kind KBool v = (case v of PBool _ \<Rightarrow> True | _ \<Rightarrow> False)"
| "of_kind KFloat v = (case v of PFloat _ \<Rightarrow> True | PInt _ \<Rightarrow> True | _ \<Rightarrow> False)"
| "of_kind KTime v = (case v of PFloat _ \<Rightarrow> True | _ \<Rightarrow> False)"
| "of_kind KStrs v = (case v of PList xs \<Rightarrow> list_all (\<lambda>x. case x of PStr _ \<Rightarrow> True | _ \<Rightarrow> False) xs | _ \<Rightarrow> False)"
| "of_kind KDict v = (case v of PDict _ \<Rightarrow> True | _ \<Rightarrow> False)"
| "of_kind KAny v = True"
| "of_kind KList v = (case v of PList _ \<Rightarrow> True | _ \<Rightarrow> False)"
| "of_kind (KOpt k) v = (v = PNone \<or> of_kind k v)"

record read_field =
  rf_name :: string
  rf_kind :: field_kind
  rf_check :: "pyval \<Rightarrow> bool"
  rf_default :: "pyval option"

definition field :: "string \<Rightarrow> field_kind \<Rightarrow> read_field" where
  "field name k = \<lparr>rf_name = name, rf_kind = k, rf_check = \<lambda>_. True, rf_default = None\<rparr>"

definition opt_field :: "string \<Rightarrow> field_kind \<Rightarrow> read_field" where
  "opt_field name k = \<lparr>rf_name = name, rf_kind = KOpt k, rf_check = \<lambda>_. True, rf_default = Some PNone\<rparr>"

definition checked_text :: "(string \<Rightarrow> bool) \<Rightarrow> pyval \<Rightarrow> bool" where
  "checked_text P v = (case v of PStr s \<Rightarrow> P s | _ \<Rightarrow> True)"

text \<open>Reading: a missing attribute takes the default; all failing fields are reported.\<close>

definition read_value :: "(string, pyval) dict \<Rightarrow> read_field \<Rightarrow> pyval option" where
  "read_value row f =
     (case dict_get row (rf_name f) of
        None \<Rightarrow> rf_default f
      | Some v \<Rightarrow> if of_kind (rf_kind f) v \<and> rf_check f v then Some v else None)"

definition failing_fields :: "read_field list \<Rightarrow> (string, pyval) dict \<Rightarrow> string list" where
  "failing_fields fs row = map rf_name (filter (\<lambda>f. read_value row f = None) fs)"

definition read_row :: "read_field list \<Rightarrow> (string, pyval) dict \<Rightarrow> string list + (string, pyval) dict" where
  "read_row fs row =
     (if failing_fields fs row = [] then Inr (map (\<lambda>f. (rf_name f, the (read_value row f))) fs)
      else Inl (failing_fields fs row))"

text \<open>What the client gets: the body, or an internal error when the answer does not fit its schema.\<close>

definition respond :: "read_field list \<Rightarrow> (string, pyval) dict \<Rightarrow> nat \<Rightarrow> nat \<times> (string, pyval) dict option" where
  "respond fs row ok_status =
     (case read_row fs row of Inl _ \<Rightarrow> (500, None) | Inr body \<Rightarrow> (ok_status, Some body))"

section \<open>Schemas\<close>

text \<open>The user schema inherits the constraints of registration.\<close>

definition UserBase :: "(string \<Rightarrow> bool) \<Rightarrow> read_field list" where
  "UserBase valid_email =
     [(field ''email'' KStr)\<lparr>rf_check := checked_text valid_email\<rparr>,
      (field ''username'' KStr)\<lparr>rf_check := checked_text (\<lambda>s. len_between 3 50 s \<and> list_all username_char s)\<rparr>,
      (opt_field ''full_name'' KStr)\<lparr>rf_check := checked_text (\<lambda>s. length s \<le> 100)\<rparr>]"

definition UserRead :: "(string \<Rightarrow> bool) \<Rightarrow> read_field list" where
  "UserRead valid_email = UserBase valid_email @
     [field ''id'' KInt, field ''is_active'' KBool, field ''is_superuser'' KBool, field ''created_at'' KTime,
      opt_field ''updated_at'' KTime]"

definition ItemRead :: "read_field list" where
  "ItemRead =
     [field ''id'' KInt, field ''title'' KStr, opt_field ''description'' KStr, field ''owner_id'' KInt,
      field ''created_at'' KTime, opt_field ''updated_at'' KTime]"

definition ModelRead :: "read_field list" where
  "ModelRead =
     [field ''id'' KInt, field ''name'' KStr, field ''version'' KStr, opt_field ''description'' KStr,
      field ''file_path'' KStr, opt_field ''file_size'' KInt, opt_field ''accuracy'' KFloat,
      field ''created_by'' KInt, field ''created_at'' KTime, opt_field ''updated_at'' KTime]"

definition ExperimentRead :: "read_field list" where
  "ExperimentRead =
     [field ''id'' KInt, field ''name'' KStr, opt_field ''description'' KStr, field ''status'' KStr,
      opt_field ''start_time'' KTime, opt_field ''end_time'' KTime, opt_field ''metrics'' KDict,
      opt_field ''parameters'' KDict, field ''created_by'' KInt, field ''created_at'' KTime,
      opt_field ''updated_at'' KTime]"

definition DatasetRead :: "read_field list" where
  "DatasetRead =
     [field ''id'' KInt, field ''name'' KStr, opt_field ''description'' KStr, field ''storage_uri'' KStr,
      field ''format'' KStr, opt_field ''row_count'' KInt, opt_field ''columns'' KStrs, field ''status'' KStr,
      field ''created_by'' KInt, field ''created_at'' KTime, opt_field ''updated_at'' KTime]"

definition Token :: "read_field list" where
  "Token =
     [field ''access_token'' KStr, opt_field ''refresh_token'' KStr,
      (field ''token_type'' KStr)\<lparr>rf_default := Some (PStr ''bearer'')\<rparr>]"

definition Message :: "read_field list" where
  "Message = [field ''detail'' KStr]"

definition PredictionResponse :: "read_field list" where
  "PredictionResponse =
     [(field ''status'' KStr)\<lparr>rf_default := Some (PStr ''ok'')\<rparr>,
      (field ''prediction'' KAny)\<lparr>rf_default := Some PNone\<rparr>, opt_field ''probabilities'' KList]"

definition ProcessResponse :: "read_field list" where
  "ProcessResponse =
     [field ''status'' KStr, field ''processed_at'' KTime, opt_field ''processed_by'' KStr, field ''message'' KStr]"

section \<open>Rows as the schemas see them\<close>

definition opt_val :: "('a \<Rightarrow> pyval) \<Rightarrow> 'a option \<Rightarrow> pyval" where
  "opt_val f v = (case v of None \<Rightarrow> PNone | Some x \<Rightarrow> f x)"

text \<open>All columns of a user, the secret ones too.\<close>

definition user_attributes :: "time \<Rightarrow> time option \<Rightarrow> user \<Rightarrow> (string, pyval) dict" where
  "user_attributes created updated u =
     [(''id'', PInt (usr_id u)), (''email'', PStr (usr_email u)), (''username'', PStr (usr_username u)),
      (''hashed_password'', PStr (hashed_password u)), (''full_name'', opt_val PStr (usr_full_name u)),
      (''is_active'', PBool (is_active u)), (''is_superuser'', PBool (is_superuser u)),
      (''is_verified'', PBool (is_verified u)), (''failed_login_attempts'', PInt (failed_login_attempts u)),
      (''lock_until'', opt_val PFloat (lock_until u)), (''password_reset_token'', opt_val PStr (password_reset_token u)),
      (''hashed_reset_token'', opt_val PStr (hashed_reset_token u)),
      (''password_reset_expires'', opt_val PFloat (password_reset_expires u)),
      (''created_at'', PFloat created), (''updated_at'', opt_val PFloat updated)]"

definition item_attributes :: "item \<Rightarrow> (string, pyval) dict" where
  "item_attributes r =
     [(''id'', PInt (it_id r)), (''title'', PStr (it_title r)), (''description'', opt_val PStr (it_description r)),
      (''owner_id'', PInt (it_owner r)), (''created_at'', PFloat (it_created r)), (''updated_at'', PFloat (it_updated r))]"

definition model_attributes :: "model_row \<Rightarrow> (string, pyval) dict" where
  "model_attributes r =
     [(''id'', PInt (mo_id r)), (''name'', PStr (mo_name r)), (''version'', PStr (mo_version r)),
      (''description'', opt_val PStr (mo_description r)), (''file_path'', PStr (mo_file_path r)),
      (''file_size'', opt_val PInt (mo_file_size r)), (''accuracy'', opt_val PFloat (mo_accuracy r)),
      (''created_at'', PFloat (mo_created r)), (''updated_at'', PFloat (mo_updated r)), (''created_by'', PInt (mo_created_by r))]"

definition experiment_attributes :: "experiment_row \<Rightarrow> (string, pyval) dict" where
  "experiment_attributes r =
     [(''id'', PInt (ex_id r)), (''name'', PStr (ex_name r)), (''description'', opt_val PStr (ex_description r)),
      (''status'', PStr (ex_status r)), (''start_time'', opt_val PFloat (ex_start r)), (''end_time'', opt_val PFloat (ex_end r)),
      (''metrics'', opt_val PDict (ex_metrics r)), (''parameters'', opt_val PDict (ex_parameters r)),
      (''created_at'', PFloat (ex_created r)), (''updated_at'', PFloat (ex_updated r)), (''created_by'', PInt (ex_created_by r))]"

definition dataset_attributes :: "dataset \<Rightarrow> (string, pyval) dict" where
  "dataset_attributes r =
     [(''id'', PInt (ds_id r)), (''name'', PStr (ds_name r)), (''description'', opt_val PStr (ds_description r)),
      (''storage_uri'', PStr (ds_storage_uri r)), (''format'', PStr (ds_format r)),
      (''row_count'', opt_val PInt (ds_row_count r)), (''columns'', opt_val (PList \<circ> map PStr) (ds_columns r)),
      (''status'', PStr (ds_status r)), (''created_at'', PFloat (ds_created r)), (''updated_at'', PFloat (ds_updated r)),
      (''created_by'', PInt (ds_created_by r))]"

text \<open>\<open>GET /users/me\<close>, and its verification status, which is a plain dictionary.\<close>

definition read_users_me :: "(string \<Rightarrow> bool) \<Rightarrow> time \<Rightarrow> time option \<Rightarrow> user \<Rightarrow> nat \<times> (string, pyval) dict option" where
  "read_users_me valid_email created updated u = respond (UserRead valid_email) (user_attributes created updated u) 200"

definition check_verification_status :: "user \<Rightarrow> (string, pyval) dict" where
  "check_verification_status u = [(''is_verified'', PBool (is_verified u)), (''email'', PStr (usr_email u))]"

section \<open>What the responses show\<close>

declare of_kind.simps(10) [simp del]

lemma of_kind_opt [simp]:
  "of_kind (KOpt KStr) (opt_val PStr s)" "of_kind (KOpt KInt) (opt_val PInt i)" "of_kind (KOpt KTime) (opt_val PFloat t)"
  "of_kind (KOpt KFloat) (opt_val PFloat t)" "of_kind (KOpt KDict) (opt_val PDict d)"
  by (simp_all add: opt_val_def of_kind.simps(10) split: option.split)

lemma of_kind_strs [simp]: "of_kind (KOpt KStrs) (opt_val (PList \<circ> map PStr) ss)"
  by (simp add: opt_val_def of_kind.simps(10) list_all_iff split: option.split)

lemma of_kind_time [simp]: "of_kind (KOpt KTime) (PFloat t)"
  by (simp add: of_kind.simps(10))

lemmas read_defs = read_row_def failing_fields_def read_value_def field_def opt_field_def

text \<open>Every row of the catalogue fits its schema: the body repeats its columns in the order of the schema.\<close>

lemma item_body:
  "read_row ItemRead (item_attributes r) = Inr
     [(''id'', PInt (it_id r)), (''title'', PStr (it_title r)), (''description'', opt_val PStr (it_description r)),
      (''owner_id'', PInt (it_owner r)), (''created_at'', PFloat (it_created r)), (''updated_at'', PFloat (it_updated r))]"
  by (simp add: read_defs ItemRead_def item_attributes_def)

lemma model_body:
  "read_row ModelRead (model_attributes r) = Inr
     [(''id'', PInt (mo_id r)), (''name'', PStr (mo_name r)), (''version'', PStr (mo_version r)),
      (''description'', opt_val PStr (mo_description r)), (''file_path'', PStr (mo_file_path r)),
      (''file_size'', opt_val PInt (mo_file_size r)), (''accuracy'', opt_val PFloat (mo_accuracy r)),
      (''created_by'', PInt (mo_created_by r)), (''created_at'', PFloat (mo_created r)), (''updated_at'', PFloat (mo_updated r))]"
  by (simp add: read_defs ModelRead_def model_attributes_def)

lemma experiment_body:
  "read_row ExperimentRead (experiment_attributes r) = Inr
     [(''id'', PInt (ex_id r)), (''name'', PStr (ex_name r)), (''description'', opt_val PStr (ex_description r)),
      (''status'', PStr (ex_status r)), (''start_time'', opt_val PFloat (ex_start r)), (''end_time'', opt_val PFloat (ex_end r)),
      (''metrics'', opt_val PDict (ex_metrics r)), (''parameters'', opt_val PDict (ex_parameters r)),
      (''created_by'', PInt (ex_created_by r)), (''created_at'', PFloat (ex_created r)), (''updated_at'', PFloat (ex_updated r))]"
  by (simp add: read_defs ExperimentRead_def experiment_attributes_def)

lemma dataset_body:
  "read_row DatasetRead (dataset_attributes r) = Inr
     [(''id'', PInt (ds_id r)), (''name'', PStr (ds_name r)), (''description'', opt_val PStr (ds_description r)),
      (''storage_uri'', PStr (ds_storage_uri r)), (''format'', PStr (ds_format r)),
      (''row_count'', opt_val PInt (ds_row_count r)), (''columns'', opt_val (PList \<circ> map PStr) (ds_columns r)),
      (''status'', PStr (ds_status r)), (''created_by'', PInt (ds_created_by r)), (''created_at'', PFloat (ds_created r)),
      (''updated_at'', PFloat (ds_updated r))]"
  by (simp add: read_defs DatasetRead_def dataset_attributes_def)

text \<open>So a body determines its row, and two rows with the same body are the same.\<close>

lemma opt_val_inj: "(\<And>x y. f x = f y \<Longrightarrow> x = y) \<Longrightarrow> (\<And>x. f x \<noteq> PNone) \<Longrightarrow> opt_val f a = opt_val f b \<Longrightarrow> a = b"
  by (simp add: opt_val_def split: option.splits) metis+

lemma item_body_determines_row:
  "read_row ItemRead (item_attributes r) = read_row ItemRead (item_attributes r') \<Longrightarrow> r = r'"
  unfolding item_body by (auto intro!: item.equality dest: opt_val_inj [rotated 2])

definition profile_ok :: "(string \<Rightarrow> bool) \<Rightarrow> user \<Rightarrow> bool" where
  "profile_ok valid_email u \<longleftrightarrow> valid_email (usr_email u) \<and> len_between 3 50 (usr_username u) \<and>
     list_all username_char (usr_username u) \<and> opt_all (\<lambda>n. length n \<le> 100) (usr_full_name u)"

lemma checked_opt: "checked_text P (opt_val PStr v) \<longleftrightarrow> opt_all P v"
  by (simp add: checked_text_def opt_val_def opt_all_def split: option.split)

lemma checked_str: "checked_text P (PStr v) \<longleftrightarrow> P v"
  by (simp add: checked_text_def)

lemma profile:
  "read_users_me valid_email created updated u =
     (if profile_ok valid_email u then
        (200, Some [(''email'', PStr (usr_email u)), (''username'', PStr (usr_username u)),
           (''full_name'', opt_val PStr (usr_full_name u)), (''id'', PInt (usr_id u)), (''is_active'', PBool (is_active u)),
           (''is_superuser'', PBool (is_superuser u)), (''created_at'', PFloat created), (''updated_at'', opt_val PFloat updated)])
      else (500, None))"
  by (simp add: read_users_me_def respond_def read_defs UserRead_def UserBase_def user_attributes_def profile_ok_def
      checked_opt checked_str)

text \<open>
  C25. The profile of a user does not depend on the password hash, the reset tokens, the lock or the counters:
  users who differ in these columns only get the same answer, and a body has exactly the eight public fields.
\<close>

theorem profile_hides_secrets:
  "read_users_me valid_email created updated (u\<lparr>hashed_password := h, is_verified := b, failed_login_attempts := n,
      lock_until := l, password_reset_token := t, hashed_reset_token := k, password_reset_expires := e\<rparr>) =
     read_users_me valid_email created updated u \<and>
   (case snd (read_users_me valid_email created updated u) of
      None \<Rightarrow> fst (read_users_me valid_email created updated u) = 500
    | Some body \<Rightarrow> fst (read_users_me valid_email created updated u) = 200 \<and>
        map fst body = [''email'', ''username'', ''full_name'', ''id'', ''is_active'', ''is_superuser'', ''created_at'', ''updated_at''])"
  by (simp add: profile profile_ok_def)

lemma created_user_fields:
  assumes "crud_create_user cfg salt email username pw full_name s = (Inr u, s')"
  shows "usr_email u = email" "usr_username u = username" "usr_full_name u = full_name"
  using assms by (auto simp: crud_create_user_def Let_def split: if_splits)

text \<open>
  The profile of a user who registered through the endpoint can always be read; one created with the same
  data on the command line can be read exactly when the data would have passed the endpoint's checks of the
  e-mail, user name and full name, and is an internal error otherwise.
\<close>

theorem registered_profiles_are_readable:
  "(case api_create_user cfg valid_email clk ip salt c s of
      (Inl err, _) \<Rightarrow> True
    | (Inr u, _) \<Rightarrow> fst (read_users_me valid_email created updated u) = 200) \<and>
   (case crud_create_user cfg salt (uc_email c) (uc_username c) (uc_password c) (uc_full_name c) s of
      (Inl err, _) \<Rightarrow> True
    | (Inr u, _) \<Rightarrow> fst (read_users_me valid_email created updated u) =
        (if valid_email (uc_email c) \<and> len_between 3 50 (uc_username c) \<and> list_all username_char (uc_username c) \<and>
            opt_all (\<lambda>n. length n \<le> 100) (uc_full_name c) then 200 else 500))"
proof (rule conjI)
  show "case api_create_user cfg valid_email clk ip salt c s of
      (Inl err, _) \<Rightarrow> True
    | (Inr u, _) \<Rightarrow> fst (read_users_me valid_email created updated u) = 200"
  proof (cases "api_create_user cfg valid_email clk ip salt c s")
    case (Pair r s')
    show ?thesis
    proof (cases r)
      case (Inr u)
      with Pair obtain s1 where valid: "user_create_valid valid_email c"
        and c: "crud_create_user cfg salt (uc_email c) (uc_username c) (uc_password c) (uc_full_name c) s1 = (Inr u, s')"
        by (auto simp: api_create_user_def split: if_splits prod.splits option.splits)
      from created_user_fields [OF c] valid have "profile_ok valid_email u"
        by (simp add: profile_ok_def user_create_valid_def len_between_def opt_all_def)
      with Pair Inr show ?thesis by (simp add: profile)
    qed (simp add: Pair)
  qed
next
  show "case crud_create_user cfg salt (uc_email c) (uc_username c) (uc_password c) (uc_full_name c) s of
      (Inl err, _) \<Rightarrow> True
    | (Inr u, _) \<Rightarrow> fst (read_users_me valid_email created updated u) =
        (if valid_email (uc_email c) \<and> len_between 3 50 (uc_username c) \<and> list_all username_char (uc_username c) \<and>
            opt_all (\<lambda>n. length n \<le> 100) (uc_full_name c) then 200 else 500)"
    using created_user_fields [of cfg salt "uc_email c" "uc_username c" "uc_password c" "uc_full_name c" s]
    by (auto simp: profile profile_ok_def split: prod.split sum.split)
qed

lemma unreadable_cli_user:
  "fst (read_users_me valid_email created updated
     (last (db_users (cs_auth (snd (create_user_command demo_config [] ''a@b'' ''a b'' [] None False
       \<lparr>cs_auth = auth_init None, cs_tools = new_tool_db\<rparr>)))))) = 500"
  by (simp add: create_user_command_def crud_create_user_def get_user_by_email_def get_user_by_username_def auth_init_def
      find_first_def profile profile_ok_def username_char_def Let_def)

section \<open>Scheduled jobs\<close>

text \<open>The schema of \<open>src/agent/scheduler.py\<close> leaves the trigger and the owner of a job out.\<close>

definition ScheduledJobRead :: "read_field list" where
  "ScheduledJobRead =
     [field ''id'' KInt, field ''name'' KStr, field ''tool_name'' KStr, opt_field ''arguments'' KDict,
      field ''interval_seconds'' KInt, field ''enabled'' KBool, opt_field ''last_run_at'' KTime,
      opt_field ''last_status'' KStr, field ''created_at'' KTime]"

definition job_attributes :: "job_row \<Rightarrow> (string, pyval) dict" where
  "job_attributes r =
     [(''id'', PInt (jb_id r)), (''name'', PStr (jb_name r)), (''tool_name'', PStr (jb_tool r)),
      (''arguments'', opt_val PDict (jb_arguments r)), (''interval_seconds'', PInt (jb_interval r)),
      (''trigger_condition'', opt_val PStr (jb_trigger r)), (''enabled'', PBool (jb_enabled r)),
      (''last_run_at'', opt_val PFloat (jb_last_run r)), (''last_status'', opt_val PStr (jb_last_status r)),
      (''created_by'', opt_val PInt (jb_created_by r)), (''created_at'', PFloat (jb_created r)), (''updated_at'', PFloat (jb_updated r))]"

definition serialize_job :: "job_row \<Rightarrow> string list + (string, pyval) dict" where
  "serialize_job r = read_row ScheduledJobRead (job_attributes r)"

lemma serialized_job:
  "serialize_job r = Inr
     [(''id'', PInt (jb_id r)), (''name'', PStr (jb_name r)), (''tool_name'', PStr (jb_tool r)),
      (''arguments'', opt_val PDict (jb_arguments r)), (''interval_seconds'', PInt (jb_interval r)),
      (''enabled'', PBool (jb_enabled r)), (''last_run_at'', opt_val PFloat (jb_last_run r)),
      (''last_status'', opt_val PStr (jb_last_status r)), (''created_at'', PFloat (jb_created r))]"
  by (simp add: serialize_job_def read_defs ScheduledJobRead_def job_attributes_def)

text \<open>So two jobs of different owners, or with different triggers, can look the same.\<close>

lemma job_owner_not_shown:
  "serialize_job (r\<lparr>jb_created_by := u, jb_trigger := t, jb_updated := n\<rparr>) = serialize_job r"
  by (simp add: serialized_job)

end
