(* ===== verification/Surfaces.thy ===== *)
theory Surfaces
  imports Cli
begin

text \<open>
  The surfaces that list the tools of the registry: the schemas of \<open>src/agent/tools.py\<close> with the route that
  shows them (\<open>src/api/agent/router.py\<close>), the listing of the command line (\<open>src/cli/main.py\<close>) and the
  registration loop of the MCP server (\<open>src/mcp_server.py\<close>). The schema of an argument model is made by
  its library and a parameter.
\<close>

section \<open>Descriptions\<close>

definition tool_descriptions :: "(string, string) dict" where
  "tool_descriptions =
     [(''system_info'', ''Get service health, version, environment and capability flags (MLflow/prediction availability).''),
      (''list_datasets'', ''List registered datasets with pagination.''),
      (''get_dataset'', ''Fetch a single dataset by its numeric id.''),
      (''create_dataset'', ''Register a dataset in the catalog (metadata only, no file upload). Returns the created record.''),
      (''list_models'', ''List registered model metadata with pagination.''),
      (''get_model'', ''Fetch registered model metadata by its numeric id.''),
      (''get_model_by_name'', ''Fetch registered model metadata by name and optional version.''),
      (''register_model'', ''Register model metadata (name/version/file_path).''),
      (''list_experiments'', ''List experiments with pagination.''),
      (''get_experiment'', ''Fetch a single experiment by its numeric id.''),
      (''create_experiment'', ''Create a new experiment record (status defaults to '' @ [CHR 0x27] @ ''created'' @ [CHR 0x27] @ '').''),
      (''predict'', ''Run a prediction with the currently deployed MLflow model. Fails if the ML runtime is unavailable.''),
      (''train_model'', ''Trigger a training run. Not implemented yet in this build.''),
      (''run_shell'', ''Execute a single shell command on the host (no pipes, redirects, or '' @
         ''metacharacters). Blocked destructive patterns are rejected; output is '' @
         ''truncated. Filesystem writes stay inside the tool.''),
      (''read_file'', ''Read a text file inside the allowed roots (project tree, OS temp dir, AGENT_FILE_ROOTS).''),
      (''write_file'', ''Write text to a file inside the allowed roots, creating parent dirs.''),
      (''list_dir'', ''List directory entries inside the allowed roots.''),
      (''process_list'', ''List running host processes (pid and name).''),
      (''process_kill'', ''Force-terminate a process by pid. System PIDs and the agent itself are refused.''),
      (''account_status'', ''Report which account integrations are live (GitHub via gh CLI, Gmail setup path).''),
      (''create_scheduled_job'', ''Register a recurring tool invocation run when its interval elapses.''),
      (''list_scheduled_jobs'', ''List scheduled jobs with pagination.''),
      (''run_scheduled_jobs'', ''Execute all due scheduled jobs now and report per-job outcomes.''),
      (''delete_scheduled_job'', ''Delete a scheduled job by id.''),
      (''github_repo_list'', ''List GitHub repositories visible to the authenticated user.''),
      (''github_issue_list'', ''List issues for a repository.''),
      (''github_issue_create'', ''Create a GitHub issue in a repository.''),
      (''github_pr_list'', ''List pull requests for a repository.'')]"

definition description_of :: "tool \<Rightarrow> string" where
  "description_of t = (case dict_get tool_descriptions (tl_name t) of None \<Rightarrow> [] | Some d \<Rightarrow> d)"

definition tool_schema :: "(args_class \<Rightarrow> pyval) \<Rightarrow> tool \<Rightarrow> (string, pyval) dict" where
  "tool_schema schema_of t =
     [(''name'', PStr (tl_name t)), (''description'', PStr (description_of t)), (''parameters'', schema_of (tl_class t))]"

definition all_tool_schemas :: "(args_class \<Rightarrow> pyval) \<Rightarrow> bool \<Rightarrow> (string, pyval) dict list" where
  "all_tool_schemas schema_of github = map (tool_schema schema_of) (TOOLS github)"

text \<open>The route lists the schemas to any active user; its model takes the three keys.\<close>

definition list_tools_route :: "(args_class \<Rightarrow> pyval) \<Rightarrow> bool \<Rightarrow> exn + user \<Rightarrow> exn + (string, pyval) dict list" where
  "list_tools_route schema_of github active_user =
     map_sum id (\<lambda>_. all_tool_schemas schema_of github) active_user"

fun first_line :: "string \<Rightarrow> string" where
  "first_line [] = []"
| "first_line (c # s) = (if c = CHR 0x0A then [] else c # first_line s)"

definition agent_tools_command :: "bool \<Rightarrow> string list" where
  "agent_tools_command github = map (\<lambda>t. tl_name t @ tab @ first_line (py_strip (description_of t))) (TOOLS github)"

section \<open>Registration with the MCP server\<close>

text \<open>
  The fields of the argument models with their defaults. A field with a default factory is not required, but its
  default is the library's marker for no value.
\<close>

datatype shown_default = Value pyval | NoValueMarker

definition req :: "string \<Rightarrow> shown_default parameter" where
  "req n = \<lparr>pa_name = n, pa_default = None\<rparr>"

definition dflt :: "string \<Rightarrow> pyval \<Rightarrow> shown_default parameter" where
  "dflt n v = \<lparr>pa_name = n, pa_default = Some (Value v)\<rparr>"

definition made :: "string \<Rightarrow> shown_default parameter" where
  "made n = \<lparr>pa_name = n, pa_default = Some NoValueMarker\<rparr>"

definition class_fields :: "args_class \<Rightarrow> shown_default parameter list" where
  "class_fields c = (case c of
       NoArgsC \<Rightarrow> []
     | ListArgsC \<Rightarrow> [dflt ''skip'' (PInt 0), dflt ''limit'' (PInt 100)]
     | GetDatasetC \<Rightarrow> [req ''dataset_id'']
     | DatasetCreateC \<Rightarrow> [req ''name'', dflt ''description'' PNone, req ''storage_uri'', dflt ''format'' (PStr ''csv''),
         dflt ''row_count'' PNone, dflt ''columns'' PNone]
     | GetModelC \<Rightarrow> [req ''model_id'']
     | GetModelByNameC \<Rightarrow> [req ''name'', dflt ''version'' PNone]
     | ModelCreateC \<Rightarrow> [req ''name'', req ''version'', dflt ''description'' PNone, req ''file_path'',
         dflt ''file_size'' PNone, dflt ''accuracy'' PNone]
     | GetExperimentC \<Rightarrow> [req ''experiment_id'']
     | ExperimentCreateC \<Rightarrow> [req ''name'', dflt ''description'' PNone, dflt ''status'' (PStr ''created''),
         dflt ''start_time'' PNone, dflt ''end_time'' PNone, dflt ''metrics'' PNone, dflt ''parameters'' PNone]
     | PredictionC \<Rightarrow> [made ''features'', dflt ''context'' PNone]
     | JobCreateC \<Rightarrow> [req ''name'', req ''tool_name'', made ''arguments'', dflt ''interval_seconds'' (PInt 3600),
         dflt ''enabled'' (PBool True)]
     | JobIdC \<Rightarrow> [req ''job_id'']
     | RunShellC \<Rightarrow> [req ''command'', dflt ''workdir'' PNone, dflt ''timeout_seconds'' (PInt 60)]
     | ReadFileC \<Rightarrow> [req ''path'', dflt ''max_bytes'' (PInt 65536)]
     | WriteFileC \<Rightarrow> [req ''path'', req ''content'', dflt ''create_dirs'' (PBool True)]
     | ListDirC \<Rightarrow> [dflt ''path'' (PStr ''.''), dflt ''recursive'' (PBool False)]
     | ProcessKillC \<Rightarrow> [req ''pid'']
     | IssueListC \<Rightarrow> [req ''repo'', dflt ''state'' (PStr ''open''), dflt ''limit'' (PInt 20)]
     | IssueCreateC \<Rightarrow> [req ''repo'', req ''title'', dflt ''body'' PNone]
     | PrListC \<Rightarrow> [req ''repo'', dflt ''state'' (PStr ''open''), dflt ''limit'' (PInt 20)])"

record mcp_tool =
  mt_name :: string
  mt_description :: string
  mt_parameters :: "shown_default parameter list"

definition register_mcp :: "tool \<Rightarrow> mcp_tool" where
  "register_mcp t =
     \<lparr>mt_name = tl_name t, mt_description = description_of t, mt_parameters = ordered_parameters (class_fields (tl_class t))\<rparr>"

definition mcp_server :: "bool \<Rightarrow> mcp_tool list" where
  "mcp_server github = map register_mcp (TOOLS github)"

section \<open>One registry\<close>

fun valid_signature :: "'v parameter list \<Rightarrow> bool" where
  "valid_signature [] = True"
| "valid_signature (p # ps) = ((pa_default p = None \<or> list_all (\<lambda>q. pa_default q \<noteq> None) ps) \<and> valid_signature ps)"

lemma valid_signature_append:
  "list_all (\<lambda>p. pa_default p = None) ps \<Longrightarrow> valid_signature (ps @ qs) = valid_signature qs"
  by (induction ps) auto

lemma valid_signature_defaults: "list_all (\<lambda>p. pa_default p \<noteq> None) ps \<Longrightarrow> valid_signature ps"
  by (induction ps) auto

lemma ordered_valid: "valid_signature (ordered_parameters ps)"
proof -
  have "list_all (\<lambda>p. pa_default p = None) (filter (\<lambda>p. pa_default p = None) ps)"
    "list_all (\<lambda>p. pa_default p \<noteq> None) (filter (\<lambda>p. pa_default p \<noteq> None) ps)"
    by (simp_all add: list_all_iff)
  then show ?thesis
    unfolding ordered_parameters_def by (simp only: valid_signature_append valid_signature_defaults)
qed

lemma ordered_same: "mset (ordered_parameters ps) = mset ps"
  by (induction ps) (simp_all add: ordered_parameters_def)

lemma tools_described: "list_all (\<lambda>t. description_of t \<noteq> []) (TOOLS True)"
  by code_simp

lemma tool_names_distinct: "distinct (map tl_name (TOOLS True))"
  by code_simp

lemma tools_with_github: "set (TOOLS github) \<subseteq> set (TOOLS True)"
  by (auto simp: TOOLS_def)

lemma tool_names: "distinct (map tl_name (TOOLS github))"
  using tool_names_distinct by (cases github) (simp_all add: TOOLS_def)

text \<open>
  The route, the command line and the MCP server list the same tools, in the order of the registry and
  under distinct names that the registry resolves to that very tool, each with a description; and every signature
  registered with the MCP server has each field of the argument model once, with no required one after an
  optional one, whatever the order of the fields.
\<close>

theorem surfaces_list_the_registry:
  "map (\<lambda>d. dict_get d ''name'') (all_tool_schemas schema_of github) = map (Some \<circ> PStr \<circ> tl_name) (TOOLS github) \<and>
   map mt_name (mcp_server github) = map tl_name (TOOLS github) \<and>
   length (agent_tools_command github) = length (TOOLS github) \<and>
   distinct (map tl_name (TOOLS github)) \<and>
   list_all (\<lambda>t. get_tool github (tl_name t) = Some t \<and> description_of t \<noteq> [] \<and>
       mset (mt_parameters (register_mcp t)) = mset (class_fields (tl_class t)) \<and>
       valid_signature (mt_parameters (register_mcp t))) (TOOLS github)"
proof (intro conjI)
  show "map (\<lambda>d. dict_get d ''name'') (all_tool_schemas schema_of github) = map (Some \<circ> PStr \<circ> tl_name) (TOOLS github)"
    by (simp add: all_tool_schemas_def tool_schema_def)
  show "map mt_name (mcp_server github) = map tl_name (TOOLS github)"
    by (simp add: mcp_server_def register_mcp_def)
  show "length (agent_tools_command github) = length (TOOLS github)" by (simp add: agent_tools_command_def)
  show names: "distinct (map tl_name (TOOLS github))" by (rule tool_names)
  have "get_tool github (tl_name t) = Some t" if "t \<in> set (TOOLS github)" for t
  proof -
    have "List.find (\<lambda>u. tl_name u = tl_name t) (TOOLS github) \<noteq> None"
      using that by (auto simp: find_None_iff)
    then obtain t' where t': "List.find (\<lambda>u. tl_name u = tl_name t) (TOOLS github) = Some t'" by blast
    then have "t' \<in> set (TOOLS github)" "tl_name t' = tl_name t" by (auto simp: find_Some_iff)
    then have "t' = t" using names that by (auto simp: distinct_map inj_on_def)
    then show ?thesis using t' by (simp add: get_tool_def)
  qed
  moreover have "description_of t \<noteq> []" if "t \<in> set (TOOLS github)" for t
    using tools_described tools_with_github that unfolding list_all_iff by blast
  ultimately show "list_all (\<lambda>t. get_tool github (tl_name t) = Some t \<and> description_of t \<noteq> [] \<and>
       mset (mt_parameters (register_mcp t)) = mset (class_fields (tl_class t)) \<and>
       valid_signature (mt_parameters (register_mcp t))) (TOOLS github)"
    by (simp add: list_all_iff register_mcp_def ordered_same ordered_valid)
qed

text \<open>The only fields with a marker for a default are the features of a prediction and the arguments of a job.\<close>

lemma marked_fields:
  "concat (map (\<lambda>t. map (\<lambda>p. (tl_name t, pa_name p)) (filter (\<lambda>p. pa_default p = Some NoValueMarker)
     (mt_parameters (register_mcp t)))) (TOOLS True)) = [(''predict'', ''features''), (''create_scheduled_job'', ''arguments'')]"
  by code_simp

end
