(* ===== verification/Routes.thy ===== *)
theory Routes
  imports Tables
begin

text \<open>
  The routes of the application in the order in which they are tried: the routers of \<open>src/api/*/router.py\<close>,
  mounted by \<open>src/api/routes/__init__.py\<close> and \<open>src/api/main.py\<close>. A path is the list of its segments; a route
  matches when every literal is equal and every parameter is not empty, and the first match answers.
\<close>

section \<open>Matching\<close>

datatype segment = Lit string | Par string

record route =
  ro_method :: string
  ro_path :: "segment list"
  ro_name :: string

fun segment_matches :: "segment \<Rightarrow> string \<Rightarrow> bool" where
  "segment_matches (Lit l) s = (s = l)"
| "segment_matches (Par n) s = (s \<noteq> [])"

definition path_matches :: "route \<Rightarrow> string list \<Rightarrow> bool" where
  "path_matches r p = list_all2 segment_matches (ro_path r) p"

datatype dispatch = Handler route | MethodNotAllowed | NoRoute

definition route_for :: "route list \<Rightarrow> string \<Rightarrow> string list \<Rightarrow> route option" where
  "route_for rs verb p = List.find (\<lambda>r. ro_method r = verb \<and> path_matches r p) rs"

definition dispatch_request :: "route list \<Rightarrow> string \<Rightarrow> string list \<Rightarrow> dispatch" where
  "dispatch_request rs verb p =
     (case route_for rs verb p of
        Some r \<Rightarrow> Handler r
      | None \<Rightarrow> if list_ex (\<lambda>r. path_matches r p) rs then MethodNotAllowed else NoRoute)"

text \<open>The segments of a path that starts with a slash.\<close>

fun split_path :: "string \<Rightarrow> string list" where
  "split_path [] = [[]]"
| "split_path (c # s) =
     (if c = CHR ''/'' then [] # split_path s
      else case split_path s of y # ys \<Rightarrow> (c # y) # ys | [] \<Rightarrow> [[c]])"

definition path_segments :: "string \<Rightarrow> string list" where
  "path_segments p = tl (split_path p)"

section \<open>The table\<close>

definition rt :: "string \<Rightarrow> segment list \<Rightarrow> string \<Rightarrow> route" where
  "rt verb p name = \<lparr>ro_method = verb, ro_path = p, ro_name = name\<rparr>"

definition include_router :: "segment list \<Rightarrow> route list \<Rightarrow> route list" where
  "include_router pre rs = map (\<lambda>r. r\<lparr>ro_path := pre @ ro_path r\<rparr>) rs"

definition auth_routes :: "route list" where
  "auth_routes =
     [rt ''POST'' [Lit ''token''] ''login_for_access_token'', rt ''GET'' [Lit ''users'', Lit ''me''] ''read_users_me'',
      rt ''POST'' [Lit ''users'', Lit []] ''create_user'', rt ''POST'' [Lit ''request-reset''] ''request_password_reset'',
      rt ''POST'' [Lit ''reset-password''] ''reset_password'', rt ''GET'' [Lit ''me'', Lit ''verify''] ''check_verification_status'',
      rt ''POST'' [Lit ''verify-email''] ''verify_email'', rt ''POST'' [Lit ''refresh''] ''refresh_tokens'',
      rt ''POST'' [Lit ''logout''] ''logout'']"

definition model_routes :: "route list" where
  "model_routes = include_router [Lit ''models'']
     [rt ''POST'' [Lit []] ''create_model_metadata'', rt ''GET'' [Lit []] ''read_model_metadata'',
      rt ''GET'' [Par ''model_id''] ''read_model_metadata_by_id'', rt ''DELETE'' [Par ''model_id''] ''delete_model_metadata'',
      rt ''GET'' [Par ''model_id'', Lit ''download''] ''download_model'',
      rt ''GET'' [Par ''name'', Par ''version''] ''read_model_metadata_by_name_version'']"

definition data_routes :: "route list" where
  "data_routes = include_router [Lit ''data'']
     [rt ''POST'' [Lit ''process''] ''process_data'', rt ''POST'' [Lit ''datasets''] ''create_dataset'',
      rt ''POST'' [Lit ''datasets'', Lit ''upload''] ''upload_dataset'', rt ''GET'' [Lit ''datasets''] ''list_datasets'',
      rt ''GET'' [Lit ''datasets'', Par ''dataset_id''] ''get_dataset'',
      rt ''PATCH'' [Lit ''datasets'', Par ''dataset_id''] ''update_dataset'',
      rt ''DELETE'' [Lit ''datasets'', Par ''dataset_id''] ''delete_dataset'',
      rt ''GET'' [Lit ''datasets'', Par ''dataset_id'', Lit ''download''] ''download_dataset'']"

definition prediction_routes :: "route list" where
  "prediction_routes = include_router [Lit ''predict'']
     [rt ''POST'' [Lit []] ''predict'', rt ''GET'' [Par ''task_id''] ''get_prediction_status'',
      rt ''GET'' [Lit ''model-info''] ''get_model_info'', rt ''POST'' [Lit ''reload-model''] ''reload_model'',
      rt ''POST'' [Lit ''train''] ''train'', rt ''POST'' [Lit ''promote''] ''promote_model'',
      rt ''GET'' [Lit ''drift''] ''check_drift'']"

definition experiment_routes :: "route list" where
  "experiment_routes = include_router [Lit ''experiments'']
     [rt ''POST'' [] ''create_experiment'', rt ''GET'' [] ''list_experiments'',
      rt ''GET'' [Par ''experiment_id''] ''get_experiment'', rt ''PATCH'' [Par ''experiment_id''] ''update_experiment'',
      rt ''DELETE'' [Par ''experiment_id''] ''delete_experiment'']"

definition item_routes :: "route list" where
  "item_routes = include_router [Lit ''items'']
     [rt ''POST'' [] ''create_item'', rt ''GET'' [] ''list_items'', rt ''GET'' [Par ''item_id''] ''get_item'',
      rt ''DELETE'' [Par ''item_id''] ''delete_item'']"

definition agent_routes :: "route list" where
  "agent_routes = include_router [Lit ''agent'']
     [rt ''GET'' [Lit ''tools''] ''list_tools'', rt ''POST'' [Lit ''tools'', Par ''name'', Lit ''invoke''] ''invoke_tool'']"

definition api_routes :: "route list" where
  "api_routes =
     include_router [Lit ''auth''] auth_routes @ include_router [] model_routes @ include_router [] data_routes @
     include_router [] prediction_routes @ include_router [] experiment_routes @ include_router [] item_routes @
     include_router [] agent_routes @ [rt ''GET'' [Lit []] ''api_root'', rt ''GET'' [Lit ''status''] ''api_status'']"

definition app_routes :: "route list" where
  "app_routes =
     include_router [Lit ''api'', Lit ''v1''] api_routes @
     [rt ''GET'' [Lit ''health''] ''health_check'', rt ''GET'' [Lit []] ''root'',
      rt ''GET'' [Lit ''api'', Lit ''v1'', Lit ''metrics''] ''metrics'']"

section \<open>Reachability\<close>

text \<open>A segment that takes every text another one takes, and a route that takes every request of another.\<close>

fun segment_covers :: "segment \<Rightarrow> segment \<Rightarrow> bool" where
  "segment_covers (Par n) (Par k) = True"
| "segment_covers (Par n) (Lit l) = (l \<noteq> [])"
| "segment_covers (Lit l) (Lit k) = (l = k)"
| "segment_covers (Lit l) (Par k) = False"

definition route_covers :: "route \<Rightarrow> route \<Rightarrow> bool" where
  "route_covers a b \<longleftrightarrow> ro_method a = ro_method b \<and> list_all2 segment_covers (ro_path a) (ro_path b)"

text \<open>A request that only routes covering a given one take: parameters get a text that is no literal.\<close>

fun sample_segment :: "string \<Rightarrow> segment \<Rightarrow> string" where
  "sample_segment x (Lit l) = l"
| "sample_segment x (Par n) = x"

fun literal :: "segment \<Rightarrow> string list" where
  "literal (Lit l) = [l]"
| "literal (Par n) = []"

definition sample_path :: "string \<Rightarrow> route \<Rightarrow> string list" where
  "sample_path x r = map (sample_segment x) (ro_path r)"

lemma covers_segment_matches: "segment_covers a b \<Longrightarrow> segment_matches b s \<Longrightarrow> segment_matches a s"
  by (cases a; cases b) auto

lemma covers_matches:
  assumes "route_covers a b" and "path_matches b p"
  shows "path_matches a p"
  using assms list_all2_trans [of segment_covers segment_matches segment_matches "ro_path a" "ro_path b" p]
    covers_segment_matches
  unfolding route_covers_def path_matches_def by blast

lemma sample_segment_matches:
  "x \<noteq> [] \<Longrightarrow> x \<notin> set (literal a) \<Longrightarrow> segment_matches a (sample_segment x b) \<longleftrightarrow> segment_covers a b"
  by (cases a; cases b) auto

lemma sample_segments:
  "x \<noteq> [] \<Longrightarrow> x \<notin> set (concat (map literal as)) \<Longrightarrow>
     list_all2 segment_matches as (map (sample_segment x) bs) \<longleftrightarrow> list_all2 segment_covers as bs"
proof (induction as arbitrary: bs)
  case (Cons a as)
  then show ?case by (cases bs) (auto simp: sample_segment_matches)
qed simp

lemma sample_matches:
  "x \<noteq> [] \<Longrightarrow> x \<notin> set (concat (map literal (ro_path a))) \<Longrightarrow>
     path_matches a (sample_path x b) \<longleftrightarrow> list_all2 segment_covers (ro_path a) (ro_path b)"
  unfolding path_matches_def sample_path_def by (rule sample_segments)

lemma segment_covers_refl: "segment_covers a a"
  by (cases a) simp_all

lemma covers_refl: "list_all2 segment_covers (ro_path r) (ro_path r)"
  by (simp add: list_all2_refl segment_covers_refl)

lemma reachable_iff:
  assumes rs: "rs = xs @ r # ys" and r: "r \<notin> set xs"
    and x: "x \<noteq> []" "list_all (\<lambda>a. x \<notin> set (concat (map literal (ro_path a)))) rs"
  shows "(\<exists>p. route_for rs (ro_method r) p = Some r) \<longleftrightarrow> \<not> list_ex (\<lambda>a. route_covers a r) xs"
proof
  assume "\<exists>p. route_for rs (ro_method r) p = Some r"
  then obtain p where p: "route_for rs (ro_method r) p = Some r" by blast
  then have match: "path_matches r p" unfolding route_for_def by (auto simp: find_Some_iff)
  show "\<not> list_ex (\<lambda>a. route_covers a r) xs"
  proof
    assume "list_ex (\<lambda>a. route_covers a r) xs"
    then obtain a where a: "a \<in> set xs" "route_covers a r" by (auto simp: list_ex_iff)
    then have "ro_method a = ro_method r \<and> path_matches a p"
      using match covers_matches by (auto simp: route_covers_def)
    then obtain b where "List.find (\<lambda>r'. ro_method r' = ro_method r \<and> path_matches r' p) xs = Some b"
      using a(1) by (cases "List.find (\<lambda>r'. ro_method r' = ro_method r \<and> path_matches r' p) xs") (auto simp: find_None_iff)
    moreover from this have "b \<in> set xs" by (auto simp: find_Some_iff)
    ultimately show False using p r unfolding route_for_def rs by (auto simp: find_append)
  qed
next
  assume none: "\<not> list_ex (\<lambda>a. route_covers a r) xs"
  have "\<not> (ro_method a = ro_method r \<and> path_matches a (sample_path x r))" if "a \<in> set xs" for a
  proof -
    have "a \<in> set rs" using that by (simp add: rs)
    then have fresh: "x \<notin> set (concat (map literal (ro_path a)))" by (rule bspec [OF x(2) [unfolded list_all_iff]])
    have "\<not> route_covers a r" using none that by (simp add: list_ex_iff)
    then show ?thesis by (simp add: route_covers_def sample_matches [OF x(1) fresh])
  qed
  then have "List.find (\<lambda>r'. ro_method r' = ro_method r \<and> path_matches r' (sample_path x r)) xs = None"
    by (auto simp: find_None_iff)
  moreover have "path_matches r (sample_path x r)"
    using x covers_refl sample_matches [OF x(1), of r r] unfolding rs list_all_iff by simp
  ultimately have "route_for rs (ro_method r) (sample_path x r) = Some r"
    unfolding route_for_def rs by (simp add: find_append)
  then show "\<exists>p. route_for rs (ro_method r) p = Some r" ..
qed

lemma app_routes_distinct: "distinct app_routes"
proof -
  have "distinct (map (\<lambda>r. (ro_method r, ro_path r)) app_routes)" by code_simp
  then show ?thesis by (simp add: distinct_map)
qed

lemma app_routes_literals: "list_all (\<lambda>a. ''x'' \<notin> set (concat (map literal (ro_path a)))) app_routes"
  by code_simp

lemma app_routes_covered:
  "list_all (\<lambda>i. list_ex (\<lambda>a. route_covers a (app_routes ! i)) (take i app_routes) =
     (ro_name (app_routes ! i) \<in> set [''get_model_info'', ''check_drift''])) [0..<length app_routes]"
  by code_simp

text \<open>
  C26. Of all routes of the application exactly the model information and the drift check can never be reached,
  by any path: both are declared after the route of the task status, whose parameter takes their names.
\<close>

theorem two_routes_unreachable:
  "list_all (\<lambda>r. (\<exists>p. dispatch_request app_routes (ro_method r) p = Handler r) \<longleftrightarrow>
     ro_name r \<notin> set [''get_model_info'', ''check_drift'']) app_routes"
proof -
  have "(\<exists>p. dispatch_request app_routes (ro_method r) p = Handler r) \<longleftrightarrow>
      ro_name r \<notin> set [''get_model_info'', ''check_drift'']" if "r \<in> set app_routes" for r
  proof -
    from that obtain i where i: "i < length app_routes" "app_routes ! i = r" by (auto simp: in_set_conv_nth)
    have split: "app_routes = take i app_routes @ r # drop (Suc i) app_routes"
      using id_take_nth_drop [OF i(1)] i(2) by simp
    have "r \<notin> set (take i app_routes)"
      using app_routes_distinct by (subst (asm) split) simp
    from reachable_iff [OF split this _ app_routes_literals]
    have "(\<exists>p. route_for app_routes (ro_method r) p = Some r) \<longleftrightarrow> \<not> list_ex (\<lambda>a. route_covers a r) (take i app_routes)"
      by simp
    also have "\<dots> \<longleftrightarrow> ro_name r \<notin> set [''get_model_info'', ''check_drift'']"
      using app_routes_covered i unfolding list_all_iff by (metis atLeast0LessThan atLeast_upt lessThan_iff)
    finally show ?thesis by (auto simp: dispatch_request_def split: option.split if_splits)
  qed
  then show ?thesis by (simp add: list_all_iff)
qed

text \<open>A version named \<open>download\<close> cannot be looked up by name; the request is taken for a download of a number.\<close>

lemma version_named_download:
  "route_for app_routes ''GET'' (path_segments ''/api/v1/models/m/download'') =
     Some \<lparr>ro_method = ''GET'', ro_path = [Lit ''api'', Lit ''v1'', Lit ''models'', Par ''model_id'', Lit ''download''],
       ro_name = ''download_model''\<rparr>"
  by code_simp

lemma wrong_method_is_refused:
  "dispatch_request app_routes ''DELETE'' (path_segments ''/api/v1/agent/tools'') = MethodNotAllowed"
  "dispatch_request app_routes ''GET'' (path_segments ''/api/v1/nothing'') = NoRoute"
  by code_simp+

end
