(* ===== verification/Access.thy ===== *)
theory Access
  imports Routes Auth
begin

text \<open>
  Who reaches which handler: the dependency that each route of \<open>src/api/*/router.py\<close> and \<open>src/api/main.py\<close> declares, resolved by
  \<open>src/api/deps.py\<close>, behind the choice of the route. Most routes ask for an active user; the probes and the
  routes that hand out or take back credentials ask for nothing.
\<close>

datatype guard = Open | TokenUser | ActiveUser

definition guards :: "(string, guard) dict" where
  "guards =
     [(''login_for_access_token'', Open), (''read_users_me'', ActiveUser), (''create_user'', Open),
      (''request_password_reset'', Open), (''reset_password'', Open), (''check_verification_status'', ActiveUser),
      (''verify_email'', ActiveUser), (''refresh_tokens'', Open), (''logout'', Open),
      (''create_model_metadata'', ActiveUser), (''read_model_metadata'', ActiveUser), (''read_model_metadata_by_id'', ActiveUser),
      (''delete_model_metadata'', ActiveUser), (''download_model'', ActiveUser),
      (''read_model_metadata_by_name_version'', ActiveUser),
      (''process_data'', ActiveUser), (''create_dataset'', ActiveUser), (''upload_dataset'', ActiveUser),
      (''list_datasets'', ActiveUser), (''get_dataset'', ActiveUser), (''update_dataset'', ActiveUser),
      (''delete_dataset'', ActiveUser), (''download_dataset'', ActiveUser),
      (''predict'', ActiveUser), (''get_prediction_status'', ActiveUser), (''get_model_info'', ActiveUser),
      (''reload_model'', ActiveUser), (''train'', ActiveUser), (''promote_model'', ActiveUser), (''check_drift'', ActiveUser),
      (''create_experiment'', ActiveUser), (''list_experiments'', ActiveUser), (''get_experiment'', ActiveUser),
      (''update_experiment'', ActiveUser), (''delete_experiment'', ActiveUser),
      (''create_item'', ActiveUser), (''list_items'', ActiveUser), (''get_item'', ActiveUser), (''delete_item'', ActiveUser),
      (''list_tools'', ActiveUser), (''invoke_tool'', ActiveUser),
      (''api_root'', Open), (''api_status'', Open), (''health_check'', Open), (''root'', Open), (''metrics'', TokenUser)]"

definition guard_of :: "route \<Rightarrow> guard" where
  "guard_of r = (case dict_get guards (ro_name r) of None \<Rightarrow> Open | Some g \<Rightarrow> g)"

text \<open>A missing token is refused before the user is looked up.\<close>

definition token_user :: "auth_config \<Rightarrow> time \<Rightarrow> string option \<Rightarrow> auth_state \<Rightarrow> exn + user" where
  "token_user cfg now token s =
     (case token of None \<Rightarrow> Inl (HTTPException 401) | Some t \<Rightarrow> get_current_user cfg now t s)"

definition authorise :: "auth_config \<Rightarrow> time \<Rightarrow> string option \<Rightarrow> auth_state \<Rightarrow> guard \<Rightarrow> exn + user option" where
  "authorise cfg now token s g =
     (case g of
        Open \<Rightarrow> Inr None
      | TokenUser \<Rightarrow> map_sum id Some (token_user cfg now token s)
      | ActiveUser \<Rightarrow> map_sum id Some (get_current_active_user (token_user cfg now token s)))"

definition admit_request ::
    "auth_config \<Rightarrow> time \<Rightarrow> string option \<Rightarrow> auth_state \<Rightarrow> string \<Rightarrow> string list \<Rightarrow> exn + route \<times> user option" where
  "admit_request cfg now token s verb p =
     (case dispatch_request app_routes verb p of
        NoRoute \<Rightarrow> Inl (HTTPException 404)
      | MethodNotAllowed \<Rightarrow> Inl (HTTPException 405)
      | Handler r \<Rightarrow> map_sum id (Pair r) (authorise cfg now token s (guard_of r)))"

section \<open>Admission\<close>

definition open_handlers :: "string list" where
  "open_handlers =
     [''login_for_access_token'', ''create_user'', ''request_password_reset'', ''reset_password'', ''refresh_tokens'', ''logout'',
      ''api_root'', ''api_status'', ''health_check'', ''root'']"

lemma guards_of_routes:
  "list_all (\<lambda>r. guard_of r =
     (if ro_name r \<in> set open_handlers then Open else if ro_name r = ''metrics'' then TokenUser else ActiveUser)) app_routes"
  by code_simp

lemma dispatched_route: "dispatch_request rs verb p = Handler r \<Longrightarrow> r \<in> set rs"
  by (auto simp: dispatch_request_def route_for_def find_Some_iff split: option.splits if_splits)

lemma dispatched_guard:
  assumes "dispatch_request app_routes verb p = Handler r"
  shows "guard_of r = (if ro_name r \<in> set open_handlers then Open else if ro_name r = ''metrics'' then TokenUser else ActiveUser)"
  using guards_of_routes dispatched_route [OF assms] unfolding list_all_iff by blast

lemma token_user_known:
  "token_user cfg now token s = Inr u \<Longrightarrow> token \<noteq> None \<and> u \<in> set (db_users s)"
  by (auto simp: token_user_def get_current_user_def get_user_def find_first_def find_Some_iff split: option.splits)


definition flag_users :: "(user \<Rightarrow> bool) \<Rightarrow> auth_state \<Rightarrow> auth_state" where
  "flag_users f s = s\<lparr>db_users := map (\<lambda>u. u\<lparr>is_superuser := f u\<rparr>) (db_users s)\<rparr>"

lemma get_user_flagged: "get_user uid (flag_users f s) = map_option (\<lambda>u. u\<lparr>is_superuser := f u\<rparr>) (get_user uid s)"
proof -
  have "find_first (\<lambda>u. usr_id u = uid) (map (\<lambda>u. u\<lparr>is_superuser := f u\<rparr>) us) =
      map_option (\<lambda>u. u\<lparr>is_superuser := f u\<rparr>) (find_first (\<lambda>u. usr_id u = uid) us)" for us
    by (induction us) (simp_all add: find_first_def)
  then show ?thesis by (simp add: get_user_def flag_users_def)
qed

lemma token_user_flagged:
  "token_user cfg now token (flag_users f s) = map_sum id (\<lambda>u. u\<lparr>is_superuser := f u\<rparr>) (token_user cfg now token s)"
  by (simp add: token_user_def get_current_user_def get_user_flagged split: option.split)

text \<open>
  C28. The superuser flag decides nothing: however the flags of the stored users are set, every request is answered
  with the same refusal or reaches the same handler.
\<close>

theorem superuser_flag_decides_nothing:
  "map_sum id fst (admit_request cfg now token (flag_users f s) verb p) = map_sum id fst (admit_request cfg now token s verb p)"
proof (cases "dispatch_request app_routes verb p")
  case (Handler r)
  have "authorise cfg now token (flag_users f s) g = map_sum id (map_option (\<lambda>u. u\<lparr>is_superuser := f u\<rparr>)) (authorise cfg now token s g)" for g
    by (cases g; cases "token_user cfg now token s")
      (simp_all add: authorise_def token_user_flagged get_current_active_user_def)
  then show ?thesis
    by (cases "authorise cfg now token s (guard_of r)") (simp_all add: admit_request_def Handler)
qed (simp_all add: admit_request_def)

end
