(* ===== verification/Setup.thy ===== *)
theory Setup
  imports Config
begin

text \<open>
  The setup script, \<open>scripts/setup.py\<close>: the commands it runs, the files and directories it looks at and creates, and what it
  reports. The shell is a parameter, a function of the command and the files to its outcome and the files
  after it. The pictures at the beginning of the printed lines are outside the model and left out.
\<close>

record filesystem =
  fs_files :: "(string, string) dict"
  fs_dirs :: "string list"

definition path_exists :: "string \<Rightarrow> filesystem \<Rightarrow> bool" where
  "path_exists p fs \<longleftrightarrow> dict_get (fs_files fs) p \<noteq> None \<or> p \<in> set (fs_dirs fs)"

text \<open>A child process: the text of its error output when it fails.\<close>

type_synonym shell = "string \<Rightarrow> filesystem \<Rightarrow> string option \<times> filesystem"

record setup_run =
  su_fs :: filesystem
  su_out :: "string list"
  su_commands :: "(string \<times> bool) list"

definition say :: "string \<Rightarrow> setup_run \<Rightarrow> setup_run" where
  "say l s = s\<lparr>su_out := su_out s @ [l]\<rparr>"

text \<open>A failing command is reported and nothing else: the caller never looks at the answer.\<close>

definition run_setup_command :: "shell \<Rightarrow> string \<Rightarrow> string \<Rightarrow> setup_run \<Rightarrow> setup_run" where
  "run_setup_command sh command description s =
     (case sh command (su_fs s) of
        (None, fs) \<Rightarrow>
          (say (description @ '' completed successfully'') (say (description @ ''...'') s))
            \<lparr>su_fs := fs, su_commands := su_commands s @ [(command, True)]\<rparr>
      | (Some err, fs) \<Rightarrow>
          (say (''  Error: '' @ err) (say (description @ '' failed:'') (say (description @ ''...'') s)))
            \<lparr>su_fs := fs, su_commands := su_commands s @ [(command, False)]\<rparr>)"

definition setup_directories :: "string list" where
  "setup_directories = [''data'', ''models'', ''logs'', ''experiments'', ''deployments/prometheus'']"

definition make_directory :: "string \<Rightarrow> setup_run \<Rightarrow> setup_run" where
  "make_directory d s =
     say (''Created directory: '' @ d) (s\<lparr>su_fs := (su_fs s)\<lparr>fs_dirs := List.insert d (fs_dirs (su_fs s))\<rparr>\<rparr>)"

definition venv_path :: "bool \<Rightarrow> string \<Rightarrow> string" where
  "venv_path windows tool =
     (if windows then ''venv'' @ [CHR 0x5C] @ ''Scripts'' @ [CHR 0x5C] @ tool else ''venv/bin/'' @ tool)"

definition create_venv :: "shell \<Rightarrow> string \<Rightarrow> setup_run \<Rightarrow> setup_run" where
  "create_venv sh python s =
     (if path_exists ''venv'' (su_fs s) then s
      else run_setup_command sh (python @ '' -m venv venv'') ''Creating virtual environment'' s)"

definition install_steps :: "string \<Rightarrow> (string \<times> string) list" where
  "install_steps pip =
     [(pip @ '' install --upgrade pip'', ''Upgrading pip''),
      (pip @ '' install -r requirements/base.txt'', ''Installing base dependencies''),
      (pip @ '' install -r requirements/dev.txt'', ''Installing development dependencies''),
      (pip @ '' install pre-commit'', ''Installing pre-commit''),
      (pip @ '' run pre-commit install'', ''Installing pre-commit hooks'')]"

definition create_env_file :: "shell \<Rightarrow> setup_run \<Rightarrow> setup_run" where
  "create_env_file sh s =
     (if path_exists ''.env'' (su_fs s) then s
      else if path_exists ''.env.example'' (su_fs s) then
        say ''  Please edit .env file with your configuration''
          (run_setup_command sh ''cp .env.example .env'' ''Creating .env file from example'' s)
      else say ''  No .env.example found, please create .env file manually'' s)"

definition next_steps :: "bool \<Rightarrow> string list" where
  "next_steps windows =
     [''Setup completed successfully!'', ''Next steps:'', ''1. Activate the virtual environment:'',
      ''   '' @ (if windows then [] else ''source '') @ venv_path windows ''activate'',
      ''2. Edit .env file with your configuration'', ''3. Run the application:'',
      ''   uvicorn src.api.main:app --reload'', ''4. Visit http://localhost:8000 for the API'',
      ''5. Visit http://localhost:8000/docs for API documentation'']"

text \<open>The whole script: an exit status and the run.\<close>

definition setup_main :: "shell \<Rightarrow> bool \<Rightarrow> string \<Rightarrow> filesystem \<Rightarrow> nat \<times> setup_run" where
  "setup_main sh windows python fs =
     (let s0 = say ''Setting up KRYVARACODE AI System Stack'' \<lparr>su_fs = fs, su_out = [], su_commands = []\<rparr>
      in if \<not> path_exists ''KRYVARACODE'' fs \<and> \<not> path_exists ''.gitignore'' fs
         then (1, say ''Please run this script from the KRYVARACODE root directory'' s0)
         else
           (let s1 = create_venv sh python s0;
                s2 = fold (\<lambda>(c, d). run_setup_command sh c d) (install_steps (venv_path windows ''pip'')) s1;
                s3 = create_env_file sh s2;
                s4 = fold make_directory setup_directories s3
            in (0, fold say (next_steps windows) s4)))"

section \<open>What the script does\<close>

lemma say_fields [simp]:
  "su_fs (say l s) = su_fs s" "su_commands (say l s) = su_commands s" "su_out (say l s) = su_out s @ [l]"
  by (simp_all add: say_def)

lemma says [simp]:
  "su_fs (fold say ls s) = su_fs s" "su_commands (fold say ls s) = su_commands s" "su_out (fold say ls s) = su_out s @ ls"
  by (induction ls arbitrary: s) simp_all

lemma run_setup_command_fs [simp]: "su_fs (run_setup_command sh c d s) = snd (sh c (su_fs s))"
  by (simp add: run_setup_command_def split: prod.split option.split)

lemma made_directories:
  "fs_files (su_fs (fold make_directory ds s)) = fs_files (su_fs s)"
  "set (fs_dirs (su_fs (fold make_directory ds s))) = set ds \<union> set (fs_dirs (su_fs s))"
  by (induction ds arbitrary: s) (auto simp: make_directory_def)

text \<open>
  Started in the right directory the script exits with status 0 and ends with its message of success whatever its
  commands answered, even if every one of them failed; its directories exist then. Elsewhere it exits with
  status 1 and runs nothing.
\<close>

theorem setup_always_claims_success:
  "(case setup_main sh windows python fs of
      (status, s) \<Rightarrow>
        if path_exists ''KRYVARACODE'' fs \<or> path_exists ''.gitignore'' fs
        then status = 0 \<and> suffix (next_steps windows) (su_out s) \<and> list_all (\<lambda>d. path_exists d (su_fs s)) setup_directories
        else status = 1 \<and> su_commands s = [] \<and> su_fs s = fs)"
proof (cases "path_exists ''KRYVARACODE'' fs \<or> path_exists ''.gitignore'' fs")
  case True
  then show ?thesis
    by (auto simp: setup_main_def Let_def suffix_def path_exists_def list_all_iff made_directories)
next
  case False
  then show ?thesis by (simp add: setup_main_def Let_def)
qed

text \<open>A shell that copies files on request and otherwise leaves the files of the project alone.\<close>

definition copies_env :: "shell \<Rightarrow> bool" where
  "copies_env sh \<longleftrightarrow>
     (\<forall>c fs p. c \<noteq> ''cp .env.example .env'' \<longrightarrow> p \<in> {''.env'', ''.env.example''} \<longrightarrow>
        dict_get (fs_files (snd (sh c fs))) p = dict_get (fs_files fs) p \<and>
        (p \<in> set (fs_dirs (snd (sh c fs))) \<longleftrightarrow> p \<in> set (fs_dirs fs))) \<and>
     (\<forall>fs. dict_get (fs_files (snd (sh ''cp .env.example .env'' fs))) ''.env'' = dict_get (fs_files fs) ''.env.example'')"

lemma installs_keep_env:
  assumes "copies_env sh" and "list_all (\<lambda>(c, d). c \<noteq> ''cp .env.example .env'') cs" and "p \<in> {''.env'', ''.env.example''}"
  shows "dict_get (fs_files (su_fs (fold (\<lambda>(c, d). run_setup_command sh c d) cs s))) p = dict_get (fs_files (su_fs s)) p \<and>
    (p \<in> set (fs_dirs (su_fs (fold (\<lambda>(c, d). run_setup_command sh c d) cs s))) \<longleftrightarrow> p \<in> set (fs_dirs (su_fs s)))"
  using assms(2)
proof (induction cs arbitrary: s)
  case (Cons cd cs)
  obtain c d where cd: "cd = (c, d)" by fastforce
  then have "c \<noteq> ''cp .env.example .env''" using Cons.prems by simp
  then have "dict_get (fs_files (snd (sh c (su_fs s)))) p = dict_get (fs_files (su_fs s)) p \<and>
      (p \<in> set (fs_dirs (snd (sh c (su_fs s)))) \<longleftrightarrow> p \<in> set (fs_dirs (su_fs s)))"
    using assms(1,3) unfolding copies_env_def by blast
  then show ?case using Cons.IH [of "run_setup_command sh c d s"] Cons.prems by (simp add: cd)
qed simp

lemma pip_is_no_copy: "list_all (\<lambda>(c, d). c \<noteq> ''cp .env.example .env'') (install_steps (venv_path windows ''pip''))"
  by (simp add: install_steps_def venv_path_def)

lemma venv_is_no_copy: "python @ '' -m venv venv'' \<noteq> ''cp .env.example .env''"
proof
  assume "python @ '' -m venv venv'' = ''cp .env.example .env''"
  then have "take 4 (rev (python @ '' -m venv venv'')) = take 4 (rev ''cp .env.example .env'')" by simp
  then show False by simp
qed


definition demo_shell :: shell where
  "demo_shell c fs =
     (None, if c = ''cp .env.example .env''
            then fs\<lparr>fs_files := (case dict_get (fs_files fs) ''.env.example'' of
                     None \<Rightarrow> dict_del ''.env'' (fs_files fs) | Some t \<Rightarrow> dict_put ''.env'' t (fs_files fs))\<rparr>
            else fs)"


end
