(* ===== verification/Optimizer.thy ===== *)
theory Optimizer
  imports Tools
begin

text \<open>
  The bottleneck analysis over the audit log, \<open>src/agent/optimizer.py\<close>. Averages are exact rationals. Rows that
  the query may return in any order (equal averages, equal times) come in the order of the log.
\<close>

section \<open>Slow tools\<close>

record slow_tool =
  sl_tool :: string
  sl_avg :: rat
  sl_count :: nat
  sl_max :: rat

text \<open>The durations of the calls of a tool that lasted at least \<open>least\<close>; a missing duration is never compared.\<close>

definition slow_durations :: "rat \<Rightarrow> audit_row list \<Rightarrow> string \<Rightarrow> rat list" where
  "slow_durations least rows tool =
     List.map_filter (\<lambda>r. case au_duration r of None \<Rightarrow> None
        | Some d \<Rightarrow> if au_tool r = tool \<and> least \<le> d then Some d else None) rows"

definition slow_names :: "rat \<Rightarrow> audit_row list \<Rightarrow> string list" where
  "slow_names least rows =
     remdups (map au_tool (filter (\<lambda>r. case au_duration r of None \<Rightarrow> False | Some d \<Rightarrow> least \<le> d) rows))"

definition mean :: "rat list \<Rightarrow> rat" where
  "mean xs = sum_list xs / of_nat (length xs)"

definition slow_group :: "rat \<Rightarrow> audit_row list \<Rightarrow> string \<Rightarrow> slow_tool" where
  "slow_group least rows tool =
     (let ds = slow_durations least rows tool
      in \<lparr>sl_tool = tool, sl_avg = mean ds, sl_count = length ds, sl_max = fold max (tl ds) (hd ds)\<rparr>)"

text \<open>\<open>reachable\<close>: the query does not raise; any exception gives an empty list.\<close>

definition get_slowest_tools :: "bool \<Rightarrow> nat \<Rightarrow> rat \<Rightarrow> tool_db \<Rightarrow> slow_tool list" where
  "get_slowest_tools reachable lmt least s =
     (if \<not> reachable then []
      else take lmt (sort_key (\<lambda>g. - sl_avg g) (map (slow_group least (audit_rows s)) (slow_names least (audit_rows s)))))"

text \<open>A call without a duration makes \<open>float(None)\<close> raise, and the trend is empty.\<close>

definition get_latency_trend :: "bool \<Rightarrow> string \<Rightarrow> nat \<Rightarrow> tool_db \<Rightarrow> (time \<times> rat) list" where
  "get_latency_trend reachable tool lmt s =
     (let logs = take lmt (sort_key (\<lambda>r. - au_created r) (filter (\<lambda>r. au_tool r = tool) (audit_rows s)))
      in if \<not> reachable \<or> list_ex (\<lambda>r. au_duration r = None) logs then []
         else map (\<lambda>r. (au_created r, the (au_duration r))) logs)"

section \<open>Lemmas\<close>

lemma slow_durations_nonempty: "slow_durations least rows tool \<noteq> [] \<longleftrightarrow> tool \<in> set (slow_names least rows)"
  by (induction rows)
     (auto simp: slow_durations_def slow_names_def List.map_filter_simps split: option.splits)

lemma slow_durations_least: "d \<in> set (slow_durations least rows tool) \<Longrightarrow> least \<le> d"
  by (induction rows)
     (auto simp: slow_durations_def List.map_filter_simps split: option.splits if_splits)

lemma fold_max_bounds: "a \<le> fold max xs a \<and> (\<forall>x \<in> set xs. x \<le> fold max xs (a::rat))"
proof (induction xs arbitrary: a)
  case (Cons x xs)
  from Cons [of "max x a"] show ?case by auto
qed simp

lemma sum_list_between:
  "(\<And>x. x \<in> set xs \<Longrightarrow> a \<le> x \<and> x \<le> (b::rat)) \<Longrightarrow> of_nat (length xs) * a \<le> sum_list xs \<and> sum_list xs \<le> of_nat (length xs) * b"
proof (induction xs)
  case (Cons x xs)
  then have "a \<le> x \<and> x \<le> b" "of_nat (length xs) * a \<le> sum_list xs \<and> sum_list xs \<le> of_nat (length xs) * b" by auto
  then show ?case by (simp add: distrib_right)
qed simp

lemma mean_between:
  assumes "xs \<noteq> []" and "\<And>x. x \<in> set xs \<Longrightarrow> a \<le> x \<and> x \<le> b"
  shows "a \<le> mean xs \<and> mean xs \<le> b"
proof -
  have "0 < (of_nat (length xs) :: rat)" using assms(1) by simp
  with sum_list_between [OF assms(2)] show ?thesis by (auto simp: mean_def field_simps)
qed

lemma slow_group_bounds:
  assumes "tool \<in> set (slow_names least rows)"
  shows "least \<le> sl_avg (slow_group least rows tool)" and "sl_avg (slow_group least rows tool) \<le> sl_max (slow_group least rows tool)"
    and "0 < sl_count (slow_group least rows tool)"
proof -
  let ?ds = "slow_durations least rows tool"
  have ds: "?ds \<noteq> []" using assms slow_durations_nonempty by blast
  have "least \<le> d \<and> d \<le> fold max (tl ?ds) (hd ?ds)" if "d \<in> set ?ds" for d
    using that ds slow_durations_least [OF that] fold_max_bounds [of "hd ?ds" "tl ?ds"] by (cases ?ds) auto
  from mean_between [OF ds this] ds
  show "least \<le> sl_avg (slow_group least rows tool)" "sl_avg (slow_group least rows tool) \<le> sl_max (slow_group least rows tool)"
    "0 < sl_count (slow_group least rows tool)" by (simp_all add: slow_group_def Let_def)
qed

lemma take_sort_key_best:
  assumes "x \<in> set (take k (sort_key f xs))" and "y \<in> set (drop k (sort_key f xs))"
  shows "f x \<le> (f y :: rat)"
proof -
  have "sorted (map f (take k (sort_key f xs)) @ map f (drop k (sort_key f xs)))"
    by (metis append_take_drop_id map_append sorted_sort_key)
  then show ?thesis using assms by (auto simp: sorted_append)
qed

lemma slow_append_fast:
  assumes "au_duration r = Some d" and "d < least"
  shows "slow_durations least (rows @ [r]) tool = slow_durations least rows tool"
    and "slow_names least (rows @ [r]) = slow_names least rows"
proof -
  show "slow_durations least (rows @ [r]) tool = slow_durations least rows tool"
    using assms by (induction rows) (auto simp: slow_durations_def List.map_filter_simps split: option.split)
  show "slow_names least (rows @ [r]) = slow_names least rows"
    using assms by (simp add: slow_names_def)
qed

section \<open>Properties\<close>

text \<open>
  The report of slow tools names each tool with a slow call at most once, in falling order of the average over
  its slow calls, as many as asked for when there are enough; its numbers are those of the log, the average between
  the bound and the maximum, and no tool left out has a larger average than one reported.
\<close>

theorem slowest_tools_are_the_slowest:
  "sorted_wrt (\<lambda>g h. sl_avg h \<le> sl_avg g) (get_slowest_tools True lmt least s) \<and>
   distinct (map sl_tool (get_slowest_tools True lmt least s)) \<and>
   length (get_slowest_tools True lmt least s) = min lmt (length (slow_names least (audit_rows s))) \<and>
   list_all (\<lambda>g. g = slow_group least (audit_rows s) (sl_tool g) \<and> 0 < sl_count g \<and> least \<le> sl_avg g \<and> sl_avg g \<le> sl_max g)
     (get_slowest_tools True lmt least s) \<and>
   list_all (\<lambda>t. t \<in> sl_tool ` set (get_slowest_tools True lmt least s) \<or>
       list_all (\<lambda>g. sl_avg (slow_group least (audit_rows s) t) \<le> sl_avg g) (get_slowest_tools True lmt least s))
     (slow_names least (audit_rows s))"
proof -
  let ?names = "slow_names least (audit_rows s)" and ?group = "slow_group least (audit_rows s)"
  let ?all = "sort_key (\<lambda>g. - sl_avg g) (map ?group ?names)"
  have out: "get_slowest_tools True lmt least s = take lmt ?all" by (simp add: get_slowest_tools_def)
  have tools: "sl_tool (?group t) = t" for t by (simp add: slow_group_def Let_def)
  have "sorted (map (\<lambda>g. - sl_avg g) ?all)" by simp
  then have srt: "sorted_wrt (\<lambda>g h. sl_avg h \<le> sl_avg g) ?all" by (simp add: sorted_map)
  have "mset (map sl_tool ?all) = mset ?names" by (simp add: image_mset.compositionality comp_def tools)
  then have dist: "distinct (map sl_tool ?all)"
    by (metis mset_eq_imp_distinct_iff distinct_remdups slow_names_def)
  have member: "g \<in> set ?all \<Longrightarrow> \<exists>t \<in> set ?names. g = ?group t" for g by auto
  have kept: "g = ?group (sl_tool g) \<and> 0 < sl_count g \<and> least \<le> sl_avg g \<and> sl_avg g \<le> sl_max g"
    if "g \<in> set (take lmt ?all)" for g
    using member [OF in_set_takeD [OF that]] slow_group_bounds tools by metis
  have best: "t \<in> sl_tool ` set (take lmt ?all) \<or> list_all (\<lambda>g. sl_avg (?group t) \<le> sl_avg g) (take lmt ?all)"
    if "t \<in> set ?names" for t
  proof -
    have "?group t \<in> set ?all" using that by simp
    then consider "?group t \<in> set (take lmt ?all)" | "?group t \<in> set (drop lmt ?all)"
      by (metis Un_iff append_take_drop_id set_append)
    then show ?thesis
    proof cases
      case 1
      then show ?thesis using tools by (metis imageI)
    next
      case 2
      then show ?thesis using take_sort_key_best [OF _ 2] by (auto simp: list_all_iff)
    qed
  qed
  show ?thesis unfolding out
  proof (intro conjI)
    show "sorted_wrt (\<lambda>g h. sl_avg h \<le> sl_avg g) (take lmt ?all)" by (rule sorted_wrt_take [OF srt])
    show "distinct (map sl_tool (take lmt ?all))" using dist by (metis distinct_take take_map)
    show "length (take lmt ?all) = min lmt (length ?names)" by (simp add: min.commute)
  qed (use kept best in \<open>auto simp: list_all_iff\<close>)
qed

text \<open>
  The average counts the slow calls only: recording any number of calls faster than the bound changes nothing in
  the report, whatever they do to the average duration of their tool.
\<close>

theorem fast_calls_not_averaged:
  assumes "d < least"
  shows "get_slowest_tools reachable lmt least (create_audit_entry now tool uid args ok err (Some d) s) =
    get_slowest_tools reachable lmt least s"
proof -
  let ?r = "mk_audit (now, tool, uid, args, ok, err, Some d) (tb_next (td_audit s))"
  have rows: "audit_rows (create_audit_entry now tool uid args ok err (Some d) s) = audit_rows s @ [?r]"
    by (simp add: create_audit_entry_def)
  have "au_duration ?r = Some d" by (simp add: mk_audit_def)
  note fast = slow_append_fast [OF this assms, of "audit_rows s"]
  have "slow_group least (audit_rows s @ [?r]) = slow_group least (audit_rows s)"
    by (simp add: fun_eq_iff slow_group_def fast)
  then show ?thesis unfolding get_slowest_tools_def rows fast(2) by simp
qed

lemma fast_calls_not_averaged_witness:
  "map sl_avg (get_slowest_tools True 10 100 (create_audit_entry 2 ''predict'' None None True None (Some 1)
     (create_audit_entry 1 ''predict'' None None True None (Some 500) new_tool_db))) = [500]"
proof -
  have "(1 :: rat) < 100" by simp
  from fast_calls_not_averaged [OF this, where tool = "''predict''" and now = 2 and uid = None and args = None
      and ok = True and err = None and reachable = True and lmt = 10
      and s = "create_audit_entry 1 ''predict'' None None True None (Some 500) new_tool_db"]
  moreover have "map sl_avg (get_slowest_tools True 10 100
      (create_audit_entry 1 ''predict'' None None True None (Some 500) new_tool_db)) = [500]" by code_simp
  ultimately show ?thesis by simp
qed

end
