(* ===== verification/Wrapper.thy ===== *)
theory Wrapper
  imports Forge Tools "HOL-Library.List_Lexorder" "HOL-Library.Char_ord"
begin

text \<open>
  The program the sandbox really runs: \<open>SandboxExecutor._wrap_code\<close> of \<open>src/agent/forge/sandbox.py\<close> puts the
  generated code between a header and a driver that decodes the arguments and calls a function of it. The
  arguments travel as base64 of their JSON text. A byte is a character; the JSON text is ASCII, so its UTF-8
  encoding is itself.
\<close>

section \<open>Base64\<close>

definition b64_digit :: "nat \<Rightarrow> char" where
  "b64_digit n =
     (if n < 26 then char_of (n + 65) else if n < 52 then char_of (n + 71) else if n < 62 then char_of (n - 4)
      else if n = 62 then CHR ''+'' else CHR ''/'')"

definition b64_value :: "char \<Rightarrow> nat option" where
  "b64_value c =
     (let n = of_char c :: nat
      in if 65 \<le> n \<and> n \<le> 90 then Some (n - 65) else if 97 \<le> n \<and> n \<le> 122 then Some (n - 71)
         else if 48 \<le> n \<and> n \<le> 57 then Some (n + 4) else if n = 43 then Some 62 else if n = 47 then Some 63 else None)"

definition b64_alphabet :: "char \<Rightarrow> bool" where
  "b64_alphabet c \<longleftrightarrow> b64_value c \<noteq> None \<or> c = CHR ''=''"

fun b64encode :: "string \<Rightarrow> string" where
  "b64encode [] = []"
| "b64encode [a] =
     (let x = of_char a :: nat in [b64_digit (x div 4), b64_digit (x mod 4 * 16), CHR ''='', CHR ''=''])"
| "b64encode [a, b] =
     (let x = of_char a :: nat; y = of_char b :: nat
      in [b64_digit (x div 4), b64_digit (x mod 4 * 16 + y div 16), b64_digit (y mod 16 * 4), CHR ''=''])"
| "b64encode (a # b # c # s) =
     (let x = of_char a :: nat; y = of_char b :: nat; z = of_char c :: nat
      in [b64_digit (x div 4), b64_digit (x mod 4 * 16 + y div 16), b64_digit (y mod 16 * 4 + z div 64), b64_digit (z mod 64)]
         @ b64encode s)"

definition b64_values :: "string \<Rightarrow> nat list option" where
  "b64_values s = those (map b64_value s)"

text \<open>Decoding of well-formed groups of four, the last one padded or not.\<close>

fun b64decode :: "string \<Rightarrow> string option" where
  "b64decode [] = Some []"
| "b64decode (p # q # r # t # s) =
     (if s = [] \<and> r = CHR ''='' \<and> t = CHR ''='' then
        (case b64_values [p, q] of Some [i, j] \<Rightarrow> Some [char_of (i * 4 + j div 16)] | _ \<Rightarrow> None)
      else if s = [] \<and> t = CHR ''='' then
        (case b64_values [p, q, r] of
           Some [i, j, k] \<Rightarrow> Some [char_of (i * 4 + j div 16), char_of (j mod 16 * 16 + k div 4)] | _ \<Rightarrow> None)
      else
        (case b64_values [p, q, r, t] of
           Some [i, j, k, l] \<Rightarrow>
             map_option (\<lambda>w. [char_of (i * 4 + j div 16), char_of (j mod 16 * 16 + k div 4), char_of (k mod 4 * 64 + l)] @ w)
               (b64decode s)
         | _ \<Rightarrow> None))"
| "b64decode s = None"

lemma b64_value_digit: "n < 64 \<Longrightarrow> b64_value (b64_digit n) = Some n"
  by (auto simp: b64_value_def b64_digit_def Let_def)

lemma b64_digit_not_pad: "n < 64 \<Longrightarrow> b64_digit n \<noteq> CHR ''=''"
  using b64_value_digit [of n] by (auto simp: b64_value_def)

lemma b64_digit_alphabet: "n < 64 \<Longrightarrow> b64_alphabet (b64_digit n)"
  by (simp add: b64_alphabet_def b64_value_digit)

lemma byte_less: "(of_char c :: nat) < 256"
  by simp

lemma b64_value_pad [simp]: "b64_value CHR ''='' = None"
  by (simp add: b64_value_def)

lemma rejoin:
  "(x::nat) div 4 * 4 + (x mod 4 * 16 + y div 16) div 16 = x" if "y < 256" for x y :: nat
proof -
  have "y div 16 < 16" using that by auto
  then have "(x mod 4 * 16 + y div 16) div 16 = x mod 4" by simp
  then show ?thesis by simp
qed

lemma rejoin_mid:
  "(x mod 4 * 16 + y div 16) mod 16 * 16 + (y mod 16 * 4 + z div 64) div 4 = (y::nat)" if "y < 256" "z < 256" for x y z :: nat
proof -
  have "y div 16 < 16" "z div 64 < 4" using that by auto
  then have "(x mod 4 * 16 + y div 16) mod 16 = y div 16" "(y mod 16 * 4 + z div 64) div 4 = y mod 16" by simp_all
  then show ?thesis by simp
qed

lemma rejoin_low: "(y mod 16 * 4 + z div 64) mod 4 * 64 + z mod 64 = (z::nat)" if "z < 256" for y z :: nat
proof -
  have "z div 64 < 4" using that by auto
  then have "(y mod 16 * 4 + z div 64) mod 4 = z div 64" by simp
  then show ?thesis by simp
qed

lemma digits_below:
  "x < 256 \<Longrightarrow> x div 4 < (64::nat)" "x < 256 \<Longrightarrow> y < 256 \<Longrightarrow> x mod 4 * 16 + y div 16 < (64::nat)"
  "y < 256 \<Longrightarrow> z < 256 \<Longrightarrow> y mod 16 * 4 + z div 64 < (64::nat)" "z mod 64 < (64::nat)"
proof -
  show "x mod 4 * 16 + y div 16 < (64::nat)" if "x < 256" "y < 256"
  proof -
    have "x mod 4 < 4" "y div 16 < 16" using that by auto
    then show ?thesis by linarith
  qed
  show "y mod 16 * 4 + z div 64 < (64::nat)" if "y < 256" "z < 256"
  proof -
    have "y mod 16 < 16" "z div 64 < 4" using that by auto
    then show ?thesis by linarith
  qed
qed auto

lemma b64_roundtrip: "b64decode (b64encode s) = Some s"
proof (induction s rule: b64encode.induct)
  case (2 a)
  let ?x = "of_char a :: nat"
  have v: "b64_values [b64_digit (?x div 4), b64_digit (?x mod 4 * 16)] = Some [?x div 4, ?x mod 4 * 16]"
    using digits_below(1) [OF byte_less [of a]] digits_below(2) [OF byte_less [of a], of 0]
    by (simp add: b64_values_def b64_value_digit)
  show ?case using rejoin [of 0 ?x] by (simp add: Let_def v)
next
  case (3 a b)
  let ?x = "of_char a :: nat" and ?y = "of_char b :: nat"
  have k: "?y mod 16 * 4 < 64" using digits_below(3) [OF byte_less [of b], of 0] by simp
  have v: "b64_values [b64_digit (?x div 4), b64_digit (?x mod 4 * 16 + ?y div 16), b64_digit (?y mod 16 * 4)] =
      Some [?x div 4, ?x mod 4 * 16 + ?y div 16, ?y mod 16 * 4]"
    using digits_below(1,2) byte_less [of a] byte_less [of b] k by (simp add: b64_values_def b64_value_digit)
  show ?case
    using rejoin [OF byte_less [of b], of ?x] rejoin_mid [OF byte_less [of b], of 0 ?x] b64_digit_not_pad [OF k]
    by (simp add: Let_def v)
next
  case (4 a b c s)
  let ?x = "of_char a :: nat" and ?y = "of_char b :: nat" and ?z = "of_char c :: nat"
  note d = digits_below(1) [OF byte_less [of a]] digits_below(2) [OF byte_less [of a] byte_less [of b]]
    digits_below(3) [OF byte_less [of b] byte_less [of c]] digits_below(4) [of ?z]
  have v: "b64_values [b64_digit (?x div 4), b64_digit (?x mod 4 * 16 + ?y div 16), b64_digit (?y mod 16 * 4 + ?z div 64),
        b64_digit (?z mod 64)] = Some [?x div 4, ?x mod 4 * 16 + ?y div 16, ?y mod 16 * 4 + ?z div 64, ?z mod 64]"
    using d by (simp add: b64_values_def b64_value_digit)
  show ?case
    using rejoin [OF byte_less [of b], of ?x] rejoin_mid [OF byte_less [of b] byte_less [of c], of ?x]
      rejoin_low [OF byte_less [of c], of ?y] b64_digit_not_pad [OF d(3)] b64_digit_not_pad [OF d(4)] 4
    by (simp add: Let_def v)
qed simp

lemma b64_inert: "list_all b64_alphabet (b64encode s)"
proof (induction s rule: b64encode.induct)
  case (2 a)
  show ?case
    using digits_below(1) [OF byte_less [of a]] digits_below(2) [OF byte_less [of a], of 0]
    by (simp add: Let_def b64_digit_alphabet, simp add: b64_alphabet_def)
next
  case (3 a b)
  show ?case
    using digits_below(1) [OF byte_less [of a]] digits_below(2) [OF byte_less [of a] byte_less [of b]]
      digits_below(3) [OF byte_less [of b], of 0]
    by (simp add: Let_def b64_digit_alphabet, simp add: b64_alphabet_def)
next
  case (4 a b c s)
  then show ?case
    using digits_below(1) [OF byte_less [of a]] digits_below(2) [OF byte_less [of a] byte_less [of b]]
      digits_below(3) [OF byte_less [of b] byte_less [of c]] digits_below(4) [of "of_char c"]
    by (simp add: Let_def b64_digit_alphabet)
qed simp

section \<open>The wrapped program\<close>

definition dq :: string where
  "dq = [CHR 0x22]"

definition wrapper_head :: "string \<Rightarrow> string" where
  "wrapper_head code =
     join_lines [[], ''import json'', ''import sys'', ''import base64'', [], code, [],
       ''if __name__ == '' @ dq @ ''__main__'' @ dq @ '':'', ''    try:'',
       ''        # Try to find the main execution function'',
       ''        # In production, the synthesizer would provide the exact function name'',
       ''        import inspect'',
       ''        curr_module = sys.modules['' @ squote @ ''__main__'' @ squote @ '']'',
       ''        funcs = [name for name, obj in inspect.getmembers(curr_module) if inspect.isfunction(obj)]'', [],
       ''        target_func = None'',
       ''        for name in ['' @ quoted ''execute'' @ '', '' @ quoted ''main'' @ '', '' @ quoted ''run'' @ '']:'',
       ''            if name in funcs:'', ''                target_func = getattr(curr_module, name)'',
       ''                break'', [], ''        if target_func is None and funcs:'',
       ''            target_func = getattr(curr_module, funcs[0])'', [], ''        if target_func:'',
       ''            # SECURITY: Deserialize args via base64 decode + json.loads.'',
       ''            # Base64 is immune to quote/escape injection in f-strings.'',
       ''            args_val = json.loads(base64.b64decode('' @ dq]"

definition wrapper_tail :: string where
  "wrapper_tail =
     join_lines [dq @ '').decode('' @ dq @ ''utf-8'' @ dq @ ''))'', ''            result = target_func(**args_val)'',
       ''            print(json.dumps(result, default=str))'', ''        else:'',
       ''            print('' @ dq @ ''Error: No executable function found in synthesized code.'' @ dq @ '')'',
       ''            sys.exit(1)'', ''    except Exception as e:'',
       ''        print(f'' @ dq @ ''Runtime Error: {e}'' @ dq @ '')'', ''        sys.exit(1)'', []]"

definition arguments_b64 :: "(rat \<Rightarrow> string) \<Rightarrow> (string, pyval) dict \<Rightarrow> string" where
  "arguments_b64 f args = b64encode (json_dumps f (PDict args))"

definition wrap_code :: "(rat \<Rightarrow> string) \<Rightarrow> string \<Rightarrow> (string, pyval) dict \<Rightarrow> string" where
  "wrap_code f code args = wrapper_head code @ arguments_b64 f args @ wrapper_tail"

section \<open>What the driver does\<close>

text \<open>
  The functions of the module that the code leaves behind when it loads without an exception, with what a call returns or the text of the exception it
  raises; \<open>inspect.getmembers\<close> lists them by name.
\<close>

type_synonym py_functions = "(string \<times> ((string, pyval) dict \<Rightarrow> string + pyval)) list"

definition target_func :: "py_functions \<Rightarrow> string option" where
  "target_func fns =
     (let funcs = sort (map fst fns)
      in case filter (\<lambda>n. n \<in> set funcs) [''execute'', ''main'', ''run''] of
           n # _ \<Rightarrow> Some n
         | [] \<Rightarrow> (case funcs of n # _ \<Rightarrow> Some n | [] \<Rightarrow> None))"

text \<open>Everything the driver says goes to the output stream, and the error stream stays empty.\<close>

definition driver :: "(rat \<Rightarrow> string) \<Rightarrow> (string \<Rightarrow> pyval option) \<Rightarrow> py_functions \<Rightarrow> string \<Rightarrow> run_result" where
  "driver f loads fns b64 =
     (case target_func fns of
        None \<Rightarrow> RunDone 1 (''Error: No executable function found in synthesized code.'' @ newline) []
      | Some n \<Rightarrow>
          (case Option.bind (b64decode b64) loads of
             Some (PDict args) \<Rightarrow>
               (case the (map_of fns n) args of
                  Inr v \<Rightarrow> RunDone 0 (json_dumps f v @ newline) []
                | Inl e \<Rightarrow> RunDone 1 (''Runtime Error: '' @ e @ newline) [])
           | _ \<Rightarrow> RunDone 1 (''Runtime Error: '' @ newline) []))"

text \<open>The sandbox whose interpreter runs the wrapped program; \<open>defines_fns\<close> gives the functions a code defines.\<close>

definition wrapped_sandbox ::
    "(rat \<Rightarrow> string) \<Rightarrow> (string \<Rightarrow> string + ast) \<Rightarrow> (string \<Rightarrow> pyval option) \<Rightarrow> (string \<Rightarrow> py_functions) \<Rightarrow> sandbox" where
  "wrapped_sandbox f parse loads defines_fns =
     \<lparr>sb_parse = parse, sb_run = (\<lambda>code args. driver f loads (defines_fns code) (arguments_b64 f args)), sb_loads = loads\<rparr>"

lemma target_func_defined: "target_func fns = Some n \<Longrightarrow> n \<in> set (map fst fns)"
  by (auto simp: target_func_def Let_def split: list.splits if_splits)
     (metis list.set_intros(1) set_sort list.set_map)

lemma driver_silent: "\<exists>rc out. driver f loads fns b64 = RunDone rc out []"
  by (simp add: driver_def split: option.split pyval.split sum.split)

lemma wrapped_error_empty:
  "validate_code parse code = None \<Longrightarrow>
   snd (execute (wrapped_sandbox f parse loads defines_fns) code args) \<in> {None, Some []}"
proof -
  assume v: "validate_code parse code = None"
  obtain rc out where "driver f loads (defines_fns code) (arguments_b64 f args) = RunDone rc out []" using driver_silent by blast
  with v show ?thesis by (simp add: execute_def wrapped_sandbox_def)
qed

lemma wrapped_tests_pass:
  assumes "validate_code parse code = None" and "list_all (\<lambda>t. tc_expected t = None) ts"
  shows "fst (verify_tool g (wrapped_sandbox f parse loads defines_fns) code ts)"
proof -
  have "fst (run_test g (wrapped_sandbox f parse loads defines_fns) code 0 t)" if "t \<in> set ts" for t
  proof -
    have "t = \<lparr>tc_args = tc_args t, tc_expected = None\<rparr>" using assms(2) that by (simp add: list_all_iff)
    then show ?thesis
      using generated_case_passes [of g "wrapped_sandbox f parse loads defines_fns" code 0 "tc_args t"]
        wrapped_error_empty [OF assms(1), of f loads defines_fns "tc_args t"] by auto
  qed
  then show ?thesis by (simp add: verify_tool_def verify_from_ok list_all_iff)
qed

lemma generated_tests_check_validation:
  "fst (verify_tool g (wrapped_sandbox f parse loads defines_fns) code (generate_test_cases sp)) \<longleftrightarrow>
     validate_code parse code = None"
proof (cases "validate_code parse code")
  case None
  then show ?thesis by (simp add: wrapped_tests_pass generate_test_cases_def)
next
  case (Some e)
  have "\<not> fst (run_test g (wrapped_sandbox f parse loads defines_fns) code 0 t)" for t
    using Some by (simp add: run_test_def execute_def wrapped_sandbox_def Let_def)
  with Some show ?thesis
    using verify_from_ok [of g "wrapped_sandbox f parse loads defines_fns" code 1 "generate_test_cases sp"]
    by (simp add: verify_tool_def generate_test_cases_def)
qed

section \<open>Properties\<close>


text \<open>
  A generated tool that fails passes its tests: the driver prints an exception on the output stream, so the
  error a failed run returns is the empty text, which a test without an expected value takes for success. Once the
  code passes the validation and loads, every list of such tests is passed, whatever the functions of the tool do.
\<close>

theorem failing_tools_pass_their_tests:
  assumes "validate_code parse code = None" and "list_all (\<lambda>t. tc_expected t = None) ts"
  shows "fst (verify_tool g (wrapped_sandbox f parse loads defines_fns) code ts)"
  using assms by (rule wrapped_tests_pass)

lemma failing_tools_pass_their_tests_witness:
  "fst (verify_tool (\<lambda>_. []) (wrapped_sandbox (\<lambda>_. []) (\<lambda>_. Inr (Other [])) (\<lambda>_. Some (PDict []))
      (\<lambda>_. [(''execute'', \<lambda>_. Inl ''boom'')])) ''def execute(): raise'' [\<lparr>tc_args = [], tc_expected = None\<rparr>]) \<and>
   driver (\<lambda>_. []) (\<lambda>_. Some (PDict [])) [(''execute'', \<lambda>_. Inl ''boom'')] (arguments_b64 (\<lambda>_. []) []) =
     RunDone 1 (''Runtime Error: boom'' @ newline) []"
proof
  have "validate_code (\<lambda>_. Inr (Other [])) ''def execute(): raise'' = None"
    by (simp add: validate_code_def check_node_def)
  then show "fst (verify_tool (\<lambda>_. []) (wrapped_sandbox (\<lambda>_. []) (\<lambda>_. Inr (Other [])) (\<lambda>_. Some (PDict []))
      (\<lambda>_. [(''execute'', \<lambda>_. Inl ''boom'')])) ''def execute(): raise'' [\<lparr>tc_args = [], tc_expected = None\<rparr>])"
    by (rule failing_tools_pass_their_tests) simp
  show "driver (\<lambda>_. []) (\<lambda>_. Some (PDict [])) [(''execute'', \<lambda>_. Inl ''boom'')] (arguments_b64 (\<lambda>_. []) []) =
     RunDone 1 (''Runtime Error: boom'' @ newline) []"
    by code_simp
qed

end
