(* ===== verification/Spec2Isabelle.thy ===== *)
theory Spec2Isabelle
  imports Coordinator Computer Roles Training E2b Nerve Eye Accounts Startup Embedders Qdrant Schemas Surfaces Access Setup
    Optimizer Wrapper
begin

text \<open>
  Verification library of KRYVARACODE, a Python service of a FastAPI application, an agent layer (tool registry,
  coordination, a tool forge, a safety layer, an adversarial swarm) and a machine-learning layer (retrieval, feature
  processing, prediction, training), over one relational database. Each theory models one part of the code under
  \<open>src/src\<close>, with its definitions in the order and under the names of the code, and proves what makes the part correct
  or, where the code does not do what it means to, what it really does.

  \<^bold>\<open>How the parts interact.\<close> A request passes the HTTP shell (\<open>Api\<close>), is resolved to a user (\<open>Auth\<close> over \<open>Security\<close>,
  limited by \<open>RateLimit\<close>) and reaches a router over the tables (\<open>Catalog\<close> over \<open>Tables\<close>), the prediction service
  (\<open>Prediction\<close> over \<open>Features\<close>), a queued task (\<open>Training\<close>) or the tool registry (\<open>Tools\<close>), which also serves the
  command line, the MCP server (\<open>Cli\<close>) and the scheduler. Tools act on the host (\<open>Computer\<close>), on a cloud sandbox (\<open>E2b\<close>)
  and on GitHub accounts (\<open>Accounts\<close>). The coordinator (\<open>Coordinator\<close>) routes work between agents over the message bus,
  the task queue and the shared store. The swarm (\<open>Sovereign\<close> with \<open>Memory\<close>) submits its results to the safety layer
  (\<open>Aegis\<close> over \<open>PyRegex\<close>), and the forge (\<open>Forge\<close>, \<open>Wrapper\<close>) writes, checks and registers new tools.

  \<^bold>\<open>Theories and sources.\<close>
  \<^item> \<open>Prelude\<close>: Python values, exceptions, insertion-ordered dictionaries (association lists with distinct keys, the
    locale \<open>kv_map\<close> and its interpretation \<open>pydict\<close>), slices, bounded deques, string operations.
  \<^item> \<open>Runs\<close>: runs of step relations and histories of operations; the locales \<open>step_relation\<close>, \<open>invariant_system\<close> and
    \<open>executed_system\<close>, linked by sublocales, which lift a fact about one step to all runs. The bus, the queue, the
    coordinator, the accounts, the sandbox client and the database sessions interpret them on their own steps.
  \<^item> \<open>PyRegex\<close>: the fragment of \<open>re\<close> that the scanners use, as an executable matcher.
  \<^item> \<open>MessageBus\<close>, \<open>SharedState\<close>, \<open>TaskQueue\<close>, \<open>Coordinator\<close>: \<open>agent/coordination/*.py\<close> and the orchestrator of
    \<open>agent/orchestrator.py\<close>; records for the bus, the store, the queue and the coordinator, one definition per method, and
    the step relations \<open>bus_step\<close>, \<open>ss_step\<close>, \<open>tq_step\<close>, \<open>co_step\<close> of all calls. The bus interprets the locale
    \<open>fifo_publisher\<close>, the store the locale \<open>kv_store\<close>.
  \<^item> \<open>RateLimit\<close>, \<open>Security\<close>, \<open>Auth\<close>: \<open>core/rate_limit.py\<close>, \<open>core/security.py\<close>, the user and token part of
    \<open>db/crud.py\<close>, \<open>api/auth/router.py\<close>, \<open>api/deps.py\<close>; all handlers are steps of \<open>auth_step\<close>.
  \<^item> \<open>Aegis\<close>: \<open>agent/aegis\<close> (rules, verifier, gatekeeper, governor) and the address check of the network policy.
  \<^item> \<open>Tables\<close>, \<open>Catalog\<close>: tables with an integer key, the locales \<open>id_table\<close> and \<open>edit_table\<close> and their interpretations
    on items, models, experiments, datasets; the rest of \<open>db/crud.py\<close> and the routers under \<open>api\<close> that use it.
  \<^item> \<open>Tools\<close>: \<open>agent/tools.py\<close>, \<open>agent/scheduler.py\<close>, the event triggers, \<open>api/agent/router.py\<close>; the audit log and the
    jobs interpret \<open>id_table\<close> and \<open>edit_table\<close>. \<open>Computer\<close>: \<open>agent/computer.py\<close>. \<open>Accounts\<close>: \<open>agent/accounts.py\<close>.
    \<open>E2b\<close>: \<open>agent/e2b_sandbox.py\<close>. \<open>Optimizer\<close>: \<open>agent/optimizer.py\<close>. \<open>Cli\<close>, \<open>Surfaces\<close>: \<open>cli/main.py\<close>,
    \<open>mcp_server.py\<close>, the descriptions and schemas of the tools.
  \<^item> \<open>Forge\<close>, \<open>Wrapper\<close>: \<open>agent/forge\<close>, the second for the program text that the sandbox runs.
  \<^item> \<open>Memory\<close>, \<open>Sovereign\<close>, \<open>Roles\<close>: \<open>agent/sovereign\<close>; the manager takes its verifier as an argument, instantiated
    with the production one and with one that answers the two values its callers unpack. \<open>Nerve\<close>: \<open>agent/nerve/event_bus.py\<close>. \<open>Eye\<close>: \<open>agent/eye\<close>.
  \<^item> \<open>Rag\<close>, \<open>Qdrant\<close>, \<open>Embedders\<close>: \<open>features/rag\<close>. \<open>Features\<close>: \<open>features/processor.py\<close>, \<open>data/processor.py\<close>, \<open>utils\<close>.
    \<open>Prediction\<close>: \<open>api/prediction\<close> and \<open>ml/monitoring.py\<close>. \<open>Training\<close>: \<open>ml/training.py\<close>, \<open>tasks\<close>.
  \<^item> \<open>Config\<close>: \<open>core/config.py\<close> and \<open>db/database.py\<close>: the table of the settings and their loading, the lazily created
    engine, the generators that hand out sessions. \<open>Api\<close>: \<open>api/main.py\<close>, \<open>core/exceptions.py\<close>, \<open>core/logging.py\<close>.
    \<open>Routes\<close>: the table of all routes and its first match. \<open>Access\<close>: the
    user that each route asks for (\<open>api/deps.py\<close>). \<open>Schemas\<close>: the response schemas of \<open>schemas\<close>.
    \<open>Migrations\<close>: \<open>alembic/versions\<close>, the declared tables of \<open>db/models.py\<close>, \<open>init_db\<close>. \<open>Startup\<close>: the start-up hook, the
    registration of the middlewares, \<open>init-db\<close>, \<open>serve\<close> and \<open>alembic/env.py\<close>. \<open>Setup\<close>: \<open>scripts/setup.py\<close>.

  \<^bold>\<open>What the lemmas show.\<close> Coordination: invariants of every reachable state; exact delivery of messages; the store
  refines a map with time-to-live; tasks wait exactly for their dependencies, and the documented protocol never
  deadlocks; registry and store agree. Accounts: the window of the limiter, the lockout, single use of refresh tokens,
  consistency of the tables under all histories. Safety: the exact verdict of the verifier, the policy on commands and
  files. Data: rows stay within their schemas; the audit log is append-only and faithful; runs of the scheduler end.
  Forge: validation is the check of every node of the tree, arguments cannot leave their literal, and a failing tool
  is registered all the same. Learning: what a load binds, what a training run records, who owns a model, when a
  query of the memory or a vector of a text has an entry. Migrations: a downgrade inverts its upgrade, and the migrated schema
  is not the declared one. Shell: when the settings load, that a session is open exactly while a request holds it, which
  fields a profile shows, which routes can be reached and by whom.

  \<^bold>\<open>Numbers, bounds and fuel.\<close> Floats and times are exact rationals. Characters are code points below 256. Identifiers, clocks
  and random draws are arguments. \<open>invoke_tool\<close> takes the number of nested invocations that the recursion limit of the
  interpreter admits; two levels are enough when no job names the tool that runs the jobs (\<open>scheduled_runs_end\<close>), and
  exhaustion is the \<open>RecursionError\<close> of the code. A repetition of \<open>PyRegex\<close> is followed as many rounds as the text has positions,
  which is enough (\<open>star_rounds_suffice\<close>). The loop of the swarm is bounded by its own limit of five. A chain of revisions is
  followed as often as there are revisions. All other recursion is structural or has a termination proof.

  \<^bold>\<open>Parameters.\<close> Code that is not part of the repository appears as an argument: hashing and tokens (a record
  \<open>crypto\<close>), pydantic's reading of fields, the parser and interpreter behind the sandbox, the vector server, the
  embedding models, scikit-learn, pandas and MLflow, the \<open>gh\<close> command, the cloud sandbox, the shell of the setup script, the file system's
  answers. The loader of the settings and the reader of a response follow the documented behaviour of pydantic.

  \<^bold>\<open>Not modelled.\<close> The numerical libraries, Celery's configuration, the answers of the CORS middleware, the handlers of the logging
  library, the class that only forwards to scikit-learn's polynomial features, reading command-line options, re-exports, deployment files and the tests: they call libraries and keep no state
  of their own.
  Concurrency is interleaving of whole calls: a call of the modelled classes runs to its next suspension point.
\<close>

section \<open>Properties that span components\<close>



text \<open>
  C23. Who owns a trained model: a training task queued by the endpoint gives its model to the user who asked for it,
  while one queued by the command gives it to the user with identifier 1, whoever ran the command and whether or not
  that user exists; both need a registered dataset and add one row.
\<close>

theorem queued_training_owner:
  assumes "api_train task_id u dataset_id target exper = Inr (QueuedTrain d t x owner, rep)"
    and "train_task lr read_csv model now d t x owner s = (Inr i, s')"
    and "train_command task_id dataset_id target exper = ((d2, t2, x2, owner2), out)"
    and "train_task lr read_csv model now d2 t2 x2 owner2 s = (Inr j, s2)"
  shows "(\<exists>row. tb_rows (ct_models s') = tb_rows (ct_models s) @ [row] \<and> mo_created_by row = usr_id u) \<and>
    (\<exists>row. tb_rows (ct_models s2) = tb_rows (ct_models s) @ [row] \<and> mo_created_by row = 1) \<and>
    crud_get_dataset dataset_id s \<noteq> None"
  using assms train_task_adds [OF assms(2)] train_task_adds [OF assms(4)]
  by (auto simp: api_train_def train_command_def split: if_splits)

lemma queued_training_owner_witness:
  "map mo_created_by (tb_rows (ct_models (snd (train_task demo_learner (\<lambda>_. Some (Inr demo_frame)) ''m'' 0 1 ''target'' ''x''
     (usr_id demo_user) demo_catalog)))) = [7] \<and>
   map mo_created_by (tb_rows (ct_models (snd (train_task demo_learner (\<lambda>_. Some (Inr demo_frame)) ''m'' 0 1 ''target'' ''x''
     1 demo_catalog)))) = [1]"
proof -
  let ?run = "\<lambda>owner. train_task demo_learner (\<lambda>_. Some (Inr demo_frame)) ''m'' 0 1 ''target'' ''x'' owner demo_catalog"
  let ?u = "demo_user"
  have ok: "?run (usr_id ?u) = (Inr 1, snd (?run (usr_id ?u)))" "?run 1 = (Inr 1, snd (?run 1))" by code_simp+
  have api: "api_train ''t1'' ?u 1 ''target'' ''x'' = Inr (QueuedTrain 1 ''target'' ''x'' (usr_id ?u),
      [(''task_id'', PStr ''t1''), (''status'', PStr ''training_started'')])"
    by (simp add: api_train_def)
  have cmd: "train_command ''t1'' 1 ''target'' ''x'' = ((1, ''target'', ''x'', 1), snd (train_command ''t1'' 1 ''target'' ''x''))"
    by (simp add: train_command_def)
  have none: "tb_rows (ct_models demo_catalog) = []" by code_simp
  from queued_training_owner [OF api ok(1) cmd ok(2)] none show ?thesis by (auto simp: demo_user_def)
qed

end
